theory Spec2Isabelle
  imports Complex_Main "HOL-Library.Word"
begin

section \<open>Geographic coordinates and extents\<close>

text \<open>
  \<^verbatim>\<open>LonLat\<close> and \<^verbatim>\<open>Extent\<close> are the two geometric classes the terrain code passes
  around. JavaScript numbers are modelled as reals; a value that is \<^verbatim>\<open>undefined\<close> or
  \<^verbatim>\<open>NaN\<close> is modelled separately as \<open>None\<close> (see \<open>jsnum\<close> below).
\<close>

record LonLat =
  lon :: real
  lat :: real

record Extent =
  southWest :: LonLat
  northEast :: LonLat

definition getWidth :: "Extent \<Rightarrow> real" where
  "getWidth e = lon (northEast e) - lon (southWest e)"

definition getHeight :: "Extent \<Rightarrow> real" where
  "getHeight e = lat (northEast e) - lat (southWest e)"

text \<open>
  Modelled from the spec: \<^verbatim>\<open>Extent.isInside\<close> (the class \<^verbatim>\<open>Extent\<close> is not among the
  sources). An extent contains a point when the point lies between its south-west and
  north-east corners, the boundary included.
\<close>

definition isInside :: "Extent \<Rightarrow> LonLat \<Rightarrow> bool" where
  "isInside e p \<longleftrightarrow>
     lon (southWest e) \<le> lon p \<and> lon p \<le> lon (northEast e) \<and>
     lat (southWest e) \<le> lat p \<and> lat p \<le> lat (northEast e)"

section \<open>The mercator module and the other collaborators\<close>

text \<open>
  The module \<^verbatim>\<open>mercator\<close>, the geoid and \<^verbatim>\<open>cartesianToBarycentricLonLat\<close> are imported
  by the sources but are not among them. They are parameters of the model: every
  function below that calls one of them takes the record \<open>Collab\<close>.
  \<^verbatim>\<open>cartesianToBarycentricLonLat(p, a, b, c, res)\<close> returns a boolean and writes three
  coordinates into \<^verbatim>\<open>res\<close>; here it returns both.
\<close>

record Collab =
  POLE :: real
  POLE2 :: real
  MAX_LAT :: real
  MIN_LAT :: real
  forward :: "LonLat \<Rightarrow> LonLat"
  getTileX :: "real \<Rightarrow> nat \<Rightarrow> int"
  getTileY :: "real \<Rightarrow> nat \<Rightarrow> int"
  getTileExtent :: "int \<Rightarrow> int \<Rightarrow> nat \<Rightarrow> Extent"
  getHeightLonLat :: "LonLat \<Rightarrow> real"
  cartesianToBarycentricLonLat ::
    "LonLat \<Rightarrow> LonLat \<Rightarrow> LonLat \<Rightarrow> LonLat \<Rightarrow> bool \<times> real \<times> real \<times> real"

section \<open>EarthQuadTreeStrategy.getTileXY\<close>

datatype tileGroup = TILEGROUP_COMMON | TILEGROUP_NORTH | TILEGROUP_SOUTH

text \<open>
  Modelled from the spec: \<^verbatim>\<open>getTileGroupByLat\<close> (imported from the segment module, which
  is not among the sources). The dispatch by latitude band is the one
  \<^verbatim>\<open>getLonLatTileOffset\<close> of the same class writes out: north of \<^verbatim>\<open>MAX_LAT\<close>, south of
  its negation, the main band otherwise.
\<close>

definition getTileGroupByLat :: "real \<Rightarrow> real \<Rightarrow> tileGroup" where
  "getTileGroupByLat la maxLat =
     (if la > maxLat then TILEGROUP_NORTH
      else if la < - maxLat then TILEGROUP_SOUTH
      else TILEGROUP_COMMON)"

text \<open>
  \<^verbatim>\<open>1 << z\<close> on JavaScript's 32-bit integers: the shift count is taken modulo 32 and
  bit 31 is the sign.
\<close>

definition shl1 :: "nat \<Rightarrow> int" where
  "shl1 z = (if z mod 32 = 31 then - (2 ^ 31) else 2 ^ (z mod 32))"

text \<open>\<^verbatim>\<open>Math.round\<close> rounds to the nearest integer, a half upwards.\<close>

definition Math_round :: "real \<Rightarrow> int" where
  "Math_round r = \<lfloor>r + 1 / 2\<rfloor>"

definition Math_floor :: "real \<Rightarrow> int" where
  "Math_floor r = \<lfloor>r\<rfloor>"

definition Math_ceil :: "real \<Rightarrow> int" where
  "Math_ceil r = \<lceil>r\<rceil>"

definition getTileXY :: "Collab \<Rightarrow> LonLat \<Rightarrow> nat \<Rightarrow> int \<times> int \<times> nat \<times> tileGroup" where
  "getTileXY m lonLat zoom =
     (let tileGroup = getTileGroupByLat (lat lonLat) (MAX_LAT m);
          z = zoom
      in if tileGroup = TILEGROUP_NORTH then
           (let pz = real_of_int (shl1 z);
                sizeLon = 360 / pz;
                sizeLat = (90 - MAX_LAT m) / pz;
                x = Math_floor ((180 + lon lonLat) / sizeLon);
                y = Math_round ((90 - lat lonLat) / sizeLat)
            in (x, y, z, tileGroup))
         else if tileGroup = TILEGROUP_SOUTH then
           (let pz = real_of_int (shl1 z);
                sizeLon = 360 / pz;
                sizeLat = (90 - MAX_LAT m) / pz;
                x = Math_floor ((180 + lon lonLat) / sizeLon);
                y = Math_round ((MIN_LAT m - lat lonLat) / sizeLat)
            in (x, y, z, tileGroup))
         else
           (let size = POLE2 m / real_of_int (shl1 z);
                merc = forward m lonLat;
                x = Math_floor ((POLE m + lon merc) / size);
                y = Math_floor ((POLE m - lat merc) / size)
            in (x, y, z, tileGroup)))"

text \<open>
  Modelled from the spec: \<^verbatim>\<open>tileExtent\<close>, the exact inverse of the tile mapping (no
  source file holds it). The three root nodes of \<^verbatim>\<open>init\<close> span
  \<^verbatim>\<open>[-POLE, POLE]\<close> squared (projected), \<^verbatim>\<open>[-180, 180] x [MAX_LAT, 90]\<close> and
  \<^verbatim>\<open>[-180, 180] x [-90, MIN_LAT]\<close>; a node's extent is the union of its four
  children's, so the tile \<open>(x, y)\<close> of zoom \<open>z\<close> is the cell of column \<open>x\<close> from the
  west and row \<open>y\<close> from the north of the root cut into \<open>2 ^ z\<close> by \<open>2 ^ z\<close> equal
  cells. In the main band the extent and the point are in projected coordinates.
\<close>

definition tileExtent :: "Collab \<Rightarrow> int \<times> int \<times> nat \<times> tileGroup \<Rightarrow> Extent" where
  "tileExtent m t =
     (case t of (x, y, z, g) \<Rightarrow>
        (case g of
           TILEGROUP_NORTH \<Rightarrow>
             (let sizeLon = 360 / 2 ^ z; sizeLat = (90 - MAX_LAT m) / 2 ^ z
              in \<lparr>southWest = \<lparr>lon = - 180 + real_of_int x * sizeLon,
                                 lat = 90 - (real_of_int y + 1) * sizeLat\<rparr>,
                  northEast = \<lparr>lon = - 180 + (real_of_int x + 1) * sizeLon,
                                 lat = 90 - real_of_int y * sizeLat\<rparr>\<rparr>)
         | TILEGROUP_SOUTH \<Rightarrow>
             (let sizeLon = 360 / 2 ^ z; sizeLat = (90 - MAX_LAT m) / 2 ^ z
              in \<lparr>southWest = \<lparr>lon = - 180 + real_of_int x * sizeLon,
                                 lat = MIN_LAT m - (real_of_int y + 1) * sizeLat\<rparr>,
                  northEast = \<lparr>lon = - 180 + (real_of_int x + 1) * sizeLon,
                                 lat = MIN_LAT m - real_of_int y * sizeLat\<rparr>\<rparr>)
         | TILEGROUP_COMMON \<Rightarrow>
             (let size = POLE2 m / 2 ^ z
              in \<lparr>southWest = \<lparr>lon = - POLE m + real_of_int x * size,
                                 lat = POLE m - (real_of_int y + 1) * size\<rparr>,
                  northEast = \<lparr>lon = - POLE m + (real_of_int x + 1) * size,
                                 lat = POLE m - real_of_int y * size\<rparr>\<rparr>)))"

text \<open>The point a tile is asked to contain: projected in the main band, geographic in the caps.\<close>

definition tilePoint :: "Collab \<Rightarrow> LonLat \<Rightarrow> LonLat" where
  "tilePoint m lonLat =
     (if getTileGroupByLat (lat lonLat) (MAX_LAT m) = TILEGROUP_COMMON
      then forward m lonLat else lonLat)"

section \<open>Numbers that may be undefined\<close>

text \<open>
  A JavaScript number that can be \<^verbatim>\<open>undefined\<close> or \<^verbatim>\<open>NaN\<close> is a \<open>real option\<close>: both
  are \<open>None\<close>, since \<^verbatim>\<open>undefined\<close> becomes \<^verbatim>\<open>NaN\<close> in arithmetic and \<^verbatim>\<open>NaN\<close> absorbs
  every operation.
\<close>

type_synonym jsnum = "real option"

definition jsadd :: "jsnum \<Rightarrow> jsnum \<Rightarrow> jsnum" where
  "jsadd a b = (case a of None \<Rightarrow> None | Some x \<Rightarrow> (case b of None \<Rightarrow> None | Some y \<Rightarrow> Some (x + y)))"

definition jssub :: "jsnum \<Rightarrow> jsnum \<Rightarrow> jsnum" where
  "jssub a b = (case a of None \<Rightarrow> None | Some x \<Rightarrow> (case b of None \<Rightarrow> None | Some y \<Rightarrow> Some (x - y)))"

definition jsmul :: "jsnum \<Rightarrow> jsnum \<Rightarrow> jsnum" where
  "jsmul a b = (case a of None \<Rightarrow> None | Some x \<Rightarrow> (case b of None \<Rightarrow> None | Some y \<Rightarrow> Some (x * y)))"

text \<open>
  \<^verbatim>\<open>heights[ix]\<close>: the element when \<open>ix\<close> is an integer within the array, \<^verbatim>\<open>undefined\<close>
  for every other number.
\<close>

definition arrayGet :: "real list \<Rightarrow> real \<Rightarrow> jsnum" where
  "arrayGet hs ix =
     (if ix = real_of_int \<lfloor>ix\<rfloor> \<and> 0 \<le> ix \<and> \<lfloor>ix\<rfloor> < int (length hs)
      then Some (hs ! nat \<lfloor>ix\<rfloor>) else None)"

section \<open>GlobusTerrain: ground height of a cached tile\<close>

record TileData =
  heights :: "real list"
  extent :: Extent

text \<open>
  \<^verbatim>\<open>_getGroundHeight(lonLat, tileData)\<close>, in two parts: \<open>getGroundHeight\<close> computes the
  grid size, the cell size and the cell indices \<open>i\<close> and \<open>j\<close>; \<open>interpolateCell\<close> is
  the rest of the function body, from \<^verbatim>\<open>v0Ind\<close> on (\<open>cellSize\<close> is the source's \<^verbatim>\<open>size\<close>). The two \<^verbatim>\<open>isInside\<close> checks of the
  source only write to the console and are left out. The last branch of the source
  logs an error and returns nothing: the result is \<^verbatim>\<open>undefined\<close>, here \<open>None\<close>.
  Where \<^verbatim>\<open>size\<close> is a division by zero or is zero itself (a grid of one height, an
  extent of no width) the indices are infinite or \<^verbatim>\<open>NaN\<close>, every height read is
  \<^verbatim>\<open>undefined\<close> and whichever branch is taken yields \<^verbatim>\<open>NaN\<close> or \<^verbatim>\<open>undefined\<close>: \<open>None\<close>.
\<close>

definition interpolateCell ::
  "Collab \<Rightarrow> LonLat \<Rightarrow> TileData \<Rightarrow> real \<Rightarrow> real \<Rightarrow> real \<Rightarrow> real \<Rightarrow> jsnum" where
  "interpolateCell m merc tileData gs cellSize i j =
     (let v0Ind = (i + 1) * gs + j;
          v1Ind = v0Ind + 1;
          v2Ind = i * gs + j;
          v3Ind = v2Ind + 1;
          h0 = arrayGet (heights tileData) v0Ind;
          h1 = arrayGet (heights tileData) v1Ind;
          h2 = arrayGet (heights tileData) v2Ind;
          h3 = arrayGet (heights tileData) v3Ind;
          v0 = \<lparr>lon = lon (southWest (extent tileData)) + cellSize * j,
                 lat = lat (northEast (extent tileData)) - cellSize * i - cellSize\<rparr>;
          v1 = \<lparr>lon = lon v0 + cellSize, lat = lat v0\<rparr>;
          v2 = \<lparr>lon = lon v0, lat = lat v0 + cellSize\<rparr>;
          v3 = \<lparr>lon = lon v0 + cellSize, lat = lat v0 + cellSize\<rparr>
      in case cartesianToBarycentricLonLat m merc v0 v1 v2 of
           (True, c0, c1, c2) \<Rightarrow>
             jsadd (jsadd (jsmul h0 (Some c0)) (jsmul h1 (Some c1))) (jsmul h2 (Some c2))
         | (False, _) \<Rightarrow>
            (case cartesianToBarycentricLonLat m merc v1 v2 v3 of
               (True, c0, c1, c2) \<Rightarrow>
                 jsadd (jsadd (jsmul h1 (Some c0)) (jsmul h2 (Some c1))) (jsmul h3 (Some c2))
             | (False, _) \<Rightarrow> None))"

definition getGroundHeight :: "Collab \<Rightarrow> LonLat \<Rightarrow> TileData \<Rightarrow> jsnum" where
  "getGroundHeight m lonLat tileData =
     (let merc = forward m lonLat;
          w = getWidth (extent tileData);
          gs = sqrt (real (length (heights tileData)))
      in if gs - 1 = 0 \<or> w = 0 then None
         else
          (let size = w / (gs - 1);
               i = gs - real_of_int (Math_ceil ((lat merc - lat (southWest (extent tileData))) / size)) - 1;
               j = real_of_int (Math_floor ((lon merc - lon (southWest (extent tileData))) / size))
           in interpolateCell m merc tileData gs size i j))"

section \<open>GlobusTerrain: state\<close>

text \<open>
  Modelled from the spec: \<^verbatim>\<open>Layer.getTileIndex\<close> (the layer module is not among the
  sources), the unique key of a tile made from its column, row and zoom.
\<close>

type_synonym TileIndex = "int \<times> int \<times> nat"

definition getTileIndex :: "int \<Rightarrow> int \<Rightarrow> nat \<Rightarrow> TileIndex" where
  "getTileIndex x y z = (x, y, z)"

text \<open>
  A request URL: \<^verbatim>\<open>stringTemplate(url, {x, y, z})\<close> kept as the template and the three
  values substituted into it.
\<close>

record Request =
  template :: string
  rx :: int
  ry :: int
  rz :: nat

definition requestKey :: "Request \<Rightarrow> TileIndex" where
  "requestKey q = getTileIndex (rx q) (ry q) (rz q)"

text \<open>
  The fetch primitive resolves with a status and, when ready, the data.
  \<^verbatim>\<open>_createHeights\<close> wraps the data into a \<^verbatim>\<open>Float32Array\<close>: the data is modelled as the
  list of heights it decodes to. \<open>OtherStatus\<close> is any status string but the three
  the source names (its final \<^verbatim>\<open>else\<close>).
\<close>

datatype response = Ready "real list" | Abort | Error | OtherStatus

definition createHeights :: "real list \<Rightarrow> real list" where
  "createHeights data = data"

text \<open>
  What the closure passed to \<^verbatim>\<open>then\<close> captures: the query, the geoid undulation read
  when the request was made, the tile and the callback (an identifier; its calls are
  logged in \<open>callbackLog\<close>).
\<close>

record Continuation =
  k_lonLat :: LonLat
  k_altEll :: real
  k_altMsl :: real
  k_x :: int
  k_y :: int
  k_z :: nat
  k_callback :: nat

definition k_tileIndex :: "Continuation \<Rightarrow> TileIndex" where
  "k_tileIndex k = getTileIndex (k_x k) (k_y k) (k_z k)"

datatype Promise = Pending "Continuation list" | Resolved response

datatype projection = EPSG3857 | EPSG4326

datatype nodeState = NOTRENDERING | WALKTHROUGH | RENDERING

text \<open>
  The fields of a segment that \<^verbatim>\<open>loadTerrain\<close> reads and writes.
  \<^verbatim>\<open>segment.applyTerrain(elevations)\<close> belongs to the segment module, which is not among
  the sources: each call is logged in \<open>appliedTerrain\<close> (\<open>None\<close> for \<^verbatim>\<open>null\<close>).
\<close>

record Segment =
  tileX :: int
  tileY :: int
  tileZoom :: nat
  tileIndex :: TileIndex
  projectionId :: projection
  segmentExtent :: Extent
  plainReady :: bool
  segNodeState :: nodeState
  terrainReady :: bool
  terrainIsLoading :: bool
  appliedTerrain :: "real list option list"

text \<open>A request handed to \<^verbatim>\<open>Loader.load\<close>, and whether its callback has run.\<close>

record LoadRequest =
  l_src :: "Request option"
  l_segment :: nat
  l_forceLoading :: bool
  l_done :: bool

text \<open>
  The terrain provider together with what it reaches through \<^verbatim>\<open>this._planet\<close>: the
  segments (by identifier) and the terrain lock. \<open>fetches\<close> are the promises
  \<^verbatim>\<open>Loader.fetch\<close> has returned, in order, each with its request; \<open>fetchCache\<close> holds
  positions in that list. \<open>loads\<close> are the requests given to \<^verbatim>\<open>Loader.load\<close>.
  \<open>loadEvents\<close> logs every dispatch of the \<^verbatim>\<open>load\<close> event with its payload.
\<close>

record GlobusTerrain =
  maxZoom :: nat
  url :: string
  urlRewriteCallback :: "(Segment \<Rightarrow> Request \<Rightarrow> Request option) option"
  elevationCache :: "TileIndex \<Rightarrow> TileData option"
  fetchCache :: "TileIndex \<Rightarrow> nat option"
  fetches :: "(Request \<times> Promise) list"
  loads :: "LoadRequest list"
  callbackLog :: "(nat \<times> jsnum) list"
  loadHandlers :: nat
  loadEvents :: "(real list option \<times> nat) list"
  segments :: "nat \<Rightarrow> Segment"
  terrainLock :: "nat set"

record Options =
  opt_maxZoom :: "nat option"
  opt_url :: "string option"

text \<open>The constructor: \<^verbatim>\<open>options.maxZoom || 14\<close> and the default URL; both caches empty.\<close>

definition newGlobusTerrain :: "Options \<Rightarrow> (nat \<Rightarrow> Segment) \<Rightarrow> GlobusTerrain" where
  "newGlobusTerrain options segs =
     \<lparr>maxZoom = (case opt_maxZoom options of None \<Rightarrow> 14 | Some z \<Rightarrow> if z = 0 then 14 else z),
      url = (case opt_url options of None \<Rightarrow> ''//openglobus.org/heights/srtm3/{z}/{y}/{x}.ddm''
             | Some u \<Rightarrow> if u = [] then ''//openglobus.org/heights/srtm3/{z}/{y}/{x}.ddm'' else u),
      urlRewriteCallback = None,
      elevationCache = (\<lambda>_. None),
      fetchCache = (\<lambda>_. None),
      fetches = [],
      loads = [],
      callbackLog = [],
      loadHandlers = 0,
      loadEvents = [],
      segments = segs,
      terrainLock = {}\<rparr>"

section \<open>The terrain lock\<close>

text \<open>
  Modelled from the spec: the lock class (not among the sources). \<^verbatim>\<open>lock(key)\<close> adds the
  key to the holder set, \<^verbatim>\<open>free(key)\<close> removes it, \<^verbatim>\<open>isFree()\<close> holds iff the set is
  empty. The navigation control's \<^verbatim>\<open>onDraw\<close> locks the terrain lock under its key
  while the camera moves by more than a hundredth of its altitude per frame and
  frees it otherwise.
\<close>

definition isFree :: "nat set \<Rightarrow> bool" where
  "isFree holders \<longleftrightarrow> holders = {}"

definition lockTerrain :: "nat \<Rightarrow> GlobusTerrain \<Rightarrow> GlobusTerrain" where
  "lockTerrain key t = t\<lparr>terrainLock := insert key (terrainLock t)\<rparr>"

definition freeTerrain :: "nat \<Rightarrow> GlobusTerrain \<Rightarrow> GlobusTerrain" where
  "freeTerrain key t = t\<lparr>terrainLock := terrainLock t - {key}\<rparr>"

section \<open>MouseNavigation.onDraw and the terrain lock\<close>

text \<open>
  The fields of the navigation control that decide what \<^verbatim>\<open>onDraw\<close> does to the locks, and
  what a frame brings from the renderer and the camera (neither is among the sources):
  whether the left button is down, whether the inertial rotation has become the
  identity, and the displacement of the eye over the frame divided by the altitude
  above the terrain. The camera itself is not modelled. Of the three locks the control
  takes together, only the terrain lock is kept.
\<close>

record MouseNavigation =
  active :: bool
  stepIndex :: nat
  deactivate :: bool
  scaleRot :: real
  inertia :: real
  keyLock :: nat

record FrameInput =
  leftButtonDown :: bool
  rotIsIdentity :: bool
  eyeMoveByAltitude :: real

definition onDraw :: "FrameInput \<Rightarrow> MouseNavigation \<Rightarrow> GlobusTerrain \<Rightarrow> MouseNavigation \<times> GlobusTerrain" where
  "onDraw fr nav t =
     (if active nav then
        (let (nav1, t1) =
               (if stepIndex nav \<noteq> 0 then (nav\<lparr>stepIndex := stepIndex nav - 1\<rparr>, t)
                else if deactivate nav then (nav\<lparr>deactivate := False\<rparr>, freeTerrain (keyLock nav) t)
                else (nav, t))
         in if leftButtonDown fr \<or> scaleRot nav1 = 0 then (nav1, t1)
            else
             (let s = scaleRot nav1 - inertia nav1;
                  nav2 = (if s \<le> 0 then nav1\<lparr>scaleRot := 0\<rparr>
                          else if rotIsIdentity fr then nav1\<lparr>scaleRot := 0\<rparr>
                          else nav1\<lparr>scaleRot := s\<rparr>)
              in if eyeMoveByAltitude fr > 0.01
                 then (nav2, lockTerrain (keyLock nav2) t1)
                 else (nav2, freeTerrain (keyLock nav2) t1)))
      else (nav, t))"

section \<open>GlobusTerrain: height queries\<close>

datatype heightMode = ELL | MSL | GND

definition invoke :: "nat \<Rightarrow> jsnum \<Rightarrow> GlobusTerrain \<Rightarrow> GlobusTerrain" where
  "invoke cb v t = t\<lparr>callbackLog := callbackLog t @ [(cb, v)]\<rparr>"

text \<open>The function given to \<^verbatim>\<open>then\<close> in the ground mode, run on a response.\<close>

definition onFetchResponse :: "Collab \<Rightarrow> response \<Rightarrow> Continuation \<Rightarrow> GlobusTerrain \<Rightarrow> GlobusTerrain" where
  "onFetchResponse m r k t =
     (case r of
        Ready data \<Rightarrow>
          (let cache = \<lparr>heights = createHeights data,
                        extent = getTileExtent m (k_x k) (k_y k) (k_z k)\<rparr>;
               t1 = t\<lparr>elevationCache := (elevationCache t)(k_tileIndex k \<mapsto> cache)\<rparr>
           in invoke (k_callback k)
                (jssub (Some (k_altEll k))
                   (jsadd (getGroundHeight m (k_lonLat k) cache) (Some (k_altMsl k)))) t1)
      | Abort \<Rightarrow> t\<lparr>fetchCache := (fetchCache t)(k_tileIndex k := None)\<rparr>
      | Error \<Rightarrow>
          (let cache = \<lparr>heights = [],
                        extent = getTileExtent m (k_x k) (k_y k) (k_z k)\<rparr>;
               t1 = t\<lparr>elevationCache := (elevationCache t)(k_tileIndex k \<mapsto> cache)\<rparr>
           in invoke (k_callback k) (Some (k_altEll k - k_altMsl k)) t1)
      | OtherStatus \<Rightarrow> t\<lparr>fetchCache := (fetchCache t)(k_tileIndex k := None)\<rparr>)"

text \<open>
  \<^verbatim>\<open>promise.then(f)\<close>: on a pending promise the continuation is queued; on a resolved
  one it runs with the stored response. A position outside \<open>fetches\<close> names no
  promise (the source stores the promise itself, so this does not arise there).
\<close>

definition thenDo :: "Collab \<Rightarrow> nat \<Rightarrow> Continuation \<Rightarrow> GlobusTerrain \<Rightarrow> GlobusTerrain" where
  "thenDo m p k t =
     (if p < length (fetches t) then
        (case snd (fetches t ! p) of
           Pending ks \<Rightarrow> t\<lparr>fetches := (fetches t)[p := (fst (fetches t ! p), Pending (ks @ [k]))]\<rparr>
         | Resolved r \<Rightarrow> onFetchResponse m r k t)
      else t)"

text \<open>The three entries of \<^verbatim>\<open>_ellToAltFn\<close>, indexed by the height mode.\<close>

definition ellToAltFn :: "Collab \<Rightarrow> heightMode \<Rightarrow> LonLat \<Rightarrow> real \<Rightarrow> nat \<Rightarrow> GlobusTerrain \<Rightarrow> GlobusTerrain" where
  "ellToAltFn m mode lonLat altEll callback t =
     (case mode of
        ELL \<Rightarrow> invoke callback (Some altEll) t
      | MSL \<Rightarrow> invoke callback (Some (altEll - getHeightLonLat m lonLat)) t
      | GND \<Rightarrow>
         (let altMsl = getHeightLonLat m lonLat;
              z = maxZoom t;
              x = getTileX m (lon lonLat) z;
              y = getTileY m (lat lonLat) z;
              tileIndex = getTileIndex x y z
          in case elevationCache t tileIndex of
               Some cache \<Rightarrow>
                 invoke callback
                   (jssub (Some altEll) (jsadd (getGroundHeight m lonLat cache) (Some altMsl))) t
             | None \<Rightarrow>
                (let k = \<lparr>k_lonLat = lonLat, k_altEll = altEll, k_altMsl = altMsl,
                          k_x = x, k_y = y, k_z = z, k_callback = callback\<rparr>
                 in case fetchCache t tileIndex of
                      None \<Rightarrow>
                        thenDo m (length (fetches t)) k
                          (t\<lparr>fetches := fetches t @ [(\<lparr>template = url t, rx = x, ry = y, rz = z\<rparr>, Pending [])],
                             fetchCache := (fetchCache t)(tileIndex \<mapsto> length (fetches t))\<rparr>)
                    | Some p \<Rightarrow> thenDo m p k t)))"

definition getHeightAsync :: "Collab \<Rightarrow> heightMode \<Rightarrow> LonLat \<Rightarrow> nat \<Rightarrow> real \<Rightarrow> GlobusTerrain \<Rightarrow> GlobusTerrain" where
  "getHeightAsync m mode lonLat callback altEll t = ellToAltFn m mode lonLat altEll callback t"

text \<open>
  The fetch of position \<open>p\<close> resolves with \<open>r\<close>: the promise keeps the response and
  its continuations run in the order they were attached. A promise resolves once.
\<close>

definition resolveFetch :: "Collab \<Rightarrow> nat \<Rightarrow> response \<Rightarrow> GlobusTerrain \<Rightarrow> GlobusTerrain" where
  "resolveFetch m p r t =
     (if p < length (fetches t) then
        (case snd (fetches t ! p) of
           Pending ks \<Rightarrow>
             foldl (\<lambda>s k. onFetchResponse m r k s)
               (t\<lparr>fetches := (fetches t)[p := (fst (fetches t ! p), Resolved r)]\<rparr>) ks
         | Resolved _ \<Rightarrow> t)
      else t)"

section \<open>GlobusTerrain: loading the terrain of a segment\<close>

definition updSegment :: "nat \<Rightarrow> (Segment \<Rightarrow> Segment) \<Rightarrow> GlobusTerrain \<Rightarrow> GlobusTerrain" where
  "updSegment sid f t = t\<lparr>segments := (segments t)(sid := f (segments t sid))\<rparr>"

definition applyElevationsData :: "nat \<Rightarrow> real list option \<Rightarrow> GlobusTerrain \<Rightarrow> GlobusTerrain" where
  "applyElevationsData sid elevations t =
     (let t1 = (if loadHandlers t \<noteq> 0
                then t\<lparr>loadEvents := loadEvents t @ [(elevations, sid)]\<rparr> else t)
      in updSegment sid (\<lambda>s. s\<lparr>appliedTerrain := appliedTerrain s @ [elevations]\<rparr>) t1)"

definition createUrl :: "GlobusTerrain \<Rightarrow> Segment \<Rightarrow> Request" where
  "createUrl t s = \<lparr>template = url t, rx = tileX s, ry = tileY s, rz = tileZoom s\<rparr>"

definition getHTTPRequestString :: "GlobusTerrain \<Rightarrow> Segment \<Rightarrow> Request option" where
  "getHTTPRequestString t s =
     (case urlRewriteCallback t of
        Some f \<Rightarrow> f s (createUrl t s)
      | None \<Rightarrow> Some (createUrl t s))"

text \<open>The eligibility predicate a load carries, for the loader to evaluate when it dequeues.\<close>

definition loadFilter :: "GlobusTerrain \<Rightarrow> LoadRequest \<Rightarrow> bool" where
  "loadFilter t l \<longleftrightarrow>
     plainReady (segments t (l_segment l)) \<and> segNodeState (segments t (l_segment l)) \<noteq> NOTRENDERING
     \<or> l_forceLoading l"

definition loadTerrain :: "nat \<Rightarrow> bool \<Rightarrow> GlobusTerrain \<Rightarrow> GlobusTerrain" where
  "loadTerrain sid forceLoading t =
     (if isFree (terrainLock t) then
        (let t1 = updSegment sid (\<lambda>s. s\<lparr>terrainReady := False, terrainIsLoading := True\<rparr>) t
         in if projectionId (segments t1 sid) = EPSG3857 then
              (case elevationCache t1 (tileIndex (segments t1 sid)) of
                 Some cache \<Rightarrow> applyElevationsData sid (Some (heights cache)) t1
               | None \<Rightarrow>
                   t1\<lparr>loads := loads t1 @
                        [\<lparr>l_src = getHTTPRequestString t1 (segments t1 sid), l_segment = sid,
                          l_forceLoading = forceLoading, l_done = False\<rparr>]\<rparr>)
            else t1)
      else updSegment sid (\<lambda>s. s\<lparr>terrainIsLoading := False\<rparr>) t)"

text \<open>The callback given to \<^verbatim>\<open>Loader.load\<close>, run on a response.\<close>

definition onLoadResponse :: "response \<Rightarrow> nat \<Rightarrow> GlobusTerrain \<Rightarrow> GlobusTerrain" where
  "onLoadResponse r sid t =
     (case r of
        Ready data \<Rightarrow>
          (let hs = createHeights data;
               t1 = t\<lparr>elevationCache := (elevationCache t)(tileIndex (segments t sid) \<mapsto>
                        \<lparr>heights = hs, extent = segmentExtent (segments t sid)\<rparr>)\<rparr>
           in applyElevationsData sid (Some hs) t1)
      | Abort \<Rightarrow> updSegment sid (\<lambda>s. s\<lparr>terrainIsLoading := False\<rparr>) t
      | Error \<Rightarrow> applyElevationsData sid None t
      | OtherStatus \<Rightarrow> updSegment sid (\<lambda>s. s\<lparr>terrainIsLoading := False\<rparr>) t)"

definition resolveLoad :: "nat \<Rightarrow> response \<Rightarrow> GlobusTerrain \<Rightarrow> GlobusTerrain" where
  "resolveLoad l r t =
     (if l < length (loads t) \<and> \<not> l_done (loads t ! l) then
        onLoadResponse r (l_segment (loads t ! l))
          (t\<lparr>loads := (loads t)[l := (loads t ! l)\<lparr>l_done := True\<rparr>]\<rparr>)
      else t)"

section \<open>Runs of the terrain provider\<close>

text \<open>
  Everything that happens on the one update timeline: a height query, a segment load,
  the resolution of a fetch or of a load, a change of the lock, a handler attached to
  the \<^verbatim>\<open>load\<close> event.
\<close>

datatype event =
    GetHeightAsync heightMode LonLat nat real
  | FetchResolves nat response
  | LoadTerrain nat bool
  | LoadResolves nat response
  | LockTerrain nat
  | FreeTerrain nat
  | OnLoad

fun step :: "Collab \<Rightarrow> GlobusTerrain \<Rightarrow> event \<Rightarrow> GlobusTerrain" where
  "step m t (GetHeightAsync mode lonLat callback altEll) = getHeightAsync m mode lonLat callback altEll t"
| "step m t (FetchResolves p r) = resolveFetch m p r t"
| "step m t (LoadTerrain sid forceLoading) = loadTerrain sid forceLoading t"
| "step m t (LoadResolves l r) = resolveLoad l r t"
| "step m t (LockTerrain key) = lockTerrain key t"
| "step m t (FreeTerrain key) = freeTerrain key t"
| "step m t OnLoad = t\<lparr>loadHandlers := loadHandlers t + 1\<rparr>"

definition run :: "Collab \<Rightarrow> event list \<Rightarrow> GlobusTerrain \<Rightarrow> GlobusTerrain" where
  "run m evs t = foldl (step m) t evs"

text \<open>The fetches in flight for a tile index: pending promises and loads not yet answered.\<close>

definition isPending :: "Promise \<Rightarrow> bool" where
  "isPending pr = (case pr of Pending _ \<Rightarrow> True | Resolved _ \<Rightarrow> False)"

definition pendingFetches :: "TileIndex \<Rightarrow> GlobusTerrain \<Rightarrow> (Request \<times> Promise) list" where
  "pendingFetches ix t = filter (\<lambda>f. requestKey (fst f) = ix \<and> isPending (snd f)) (fetches t)"

definition pendingLoads :: "TileIndex \<Rightarrow> GlobusTerrain \<Rightarrow> LoadRequest list" where
  "pendingLoads ix t =
     filter (\<lambda>l. tileIndex (segments t (l_segment l)) = ix \<and> \<not> l_done l) (loads t)"

definition inFlight :: "TileIndex \<Rightarrow> GlobusTerrain \<Rightarrow> nat" where
  "inFlight ix t = length (pendingFetches ix t) + length (pendingLoads ix t)"

text \<open>An event other than the release of the terrain lock.\<close>

definition noFree :: "event \<Rightarrow> bool" where
  "noFree e = (case e of FreeTerrain _ \<Rightarrow> False | _ \<Rightarrow> True)"

text \<open>The tile index a ground-mode query computes for a point: at the configured \<^verbatim>\<open>maxZoom\<close>.\<close>

definition tileIndexOf :: "Collab \<Rightarrow> GlobusTerrain \<Rightarrow> LonLat \<Rightarrow> TileIndex" where
  "tileIndexOf m t lonLat =
     getTileIndex (getTileX m (lon lonLat) (maxZoom t)) (getTileY m (lat lonLat) (maxZoom t)) (maxZoom t)"

text \<open>The continuation and the request a ground-mode query builds for a point.\<close>

definition continuationOf :: "Collab \<Rightarrow> GlobusTerrain \<Rightarrow> LonLat \<Rightarrow> real \<Rightarrow> nat \<Rightarrow> Continuation" where
  "continuationOf m t lonLat altEll callback =
     \<lparr>k_lonLat = lonLat, k_altEll = altEll, k_altMsl = getHeightLonLat m lonLat,
      k_x = getTileX m (lon lonLat) (maxZoom t), k_y = getTileY m (lat lonLat) (maxZoom t),
      k_z = maxZoom t, k_callback = callback\<rparr>"

definition requestOf :: "Collab \<Rightarrow> GlobusTerrain \<Rightarrow> LonLat \<Rightarrow> Request" where
  "requestOf m t lonLat =
     \<lparr>template = url t, rx = getTileX m (lon lonLat) (maxZoom t),
      ry = getTileY m (lat lonLat) (maxZoom t), rz = maxZoom t\<rparr>"

text \<open>How many fetches, and how many loads, have been issued for a tile index so far.\<close>

definition fetchCount :: "TileIndex \<Rightarrow> GlobusTerrain \<Rightarrow> nat" where
  "fetchCount ix t = length (filter (\<lambda>q. requestKey q = ix) (map fst (fetches t)))"

definition loadCount :: "TileIndex \<Rightarrow> GlobusTerrain \<Rightarrow> nat" where
  "loadCount ix t =
     length (filter (\<lambda>sid. tileIndex (segments t sid) = ix) (map l_segment (loads t)))"

text \<open>
  The states the provider can be in: every entry of the fetch table names a promise
  of its own tile index, pending as long as the tile is not cached; every pending
  promise is the entry of its tile index and carries at least one continuation, all
  of that index.
\<close>

definition wellFormed :: "GlobusTerrain \<Rightarrow> bool" where
  "wellFormed t \<longleftrightarrow>
     (\<forall>ix p. fetchCache t ix = Some p \<longrightarrow>
        p < length (fetches t) \<and> requestKey (fst (fetches t ! p)) = ix \<and>
        (elevationCache t ix = None \<longrightarrow> isPending (snd (fetches t ! p))))
     \<and> (\<forall>p ks. p < length (fetches t) \<and> snd (fetches t ! p) = Pending ks \<longrightarrow>
        ks \<noteq> [] \<and> fetchCache t (requestKey (fst (fetches t ! p))) = Some p \<and>
        (\<forall>k \<in> set ks. k_tileIndex k = requestKey (fst (fetches t ! p))))"

text \<open>
  What a response leaves behind for a tile index (the decoded grid, the empty grid of
  the no-data sentinel, or nothing), and what the continuation of one query passes
  to its callback.
\<close>

definition cacheOf :: "Collab \<Rightarrow> response \<Rightarrow> TileIndex \<Rightarrow> TileData option" where
  "cacheOf m r ix =
     (case r of
        Ready data \<Rightarrow> Some \<lparr>heights = createHeights data,
                           extent = getTileExtent m (fst ix) (fst (snd ix)) (snd (snd ix))\<rparr>
      | Error \<Rightarrow> Some \<lparr>heights = [], extent = getTileExtent m (fst ix) (fst (snd ix)) (snd (snd ix))\<rparr>
      | _ \<Rightarrow> None)"

definition answerOf :: "Collab \<Rightarrow> response \<Rightarrow> Continuation \<Rightarrow> (nat \<times> jsnum) list" where
  "answerOf m r k =
     (case r of
        Ready data \<Rightarrow>
          [(k_callback k,
            jssub (Some (k_altEll k))
              (jsadd (getGroundHeight m (k_lonLat k)
                        \<lparr>heights = createHeights data,
                         extent = getTileExtent m (k_x k) (k_y k) (k_z k)\<rparr>) (Some (k_altMsl k))))]
      | Error \<Rightarrow> [(k_callback k, Some (k_altEll k - k_altMsl k))]
      | _ \<Rightarrow> [])"

text \<open>
  What the interpolation needs of the collaborators. \<open>squareTileAround\<close>: the tile
  computed for the point is a square of positive width that contains the projected
  point, its south and east edges excluded (they belong to the neighbours).
  \<open>splitsCells\<close>: of the two triangles a square cell is cut into, one is found to
  contain any point of the cell.
\<close>

definition squareTileAround :: "Collab \<Rightarrow> LonLat \<Rightarrow> nat \<Rightarrow> bool" where
  "squareTileAround m lonLat z \<longleftrightarrow>
     (let e = getTileExtent m (getTileX m (lon lonLat) z) (getTileY m (lat lonLat) z) z;
          merc = forward m lonLat
      in 0 < getWidth e \<and> getHeight e = getWidth e \<and>
         lon (southWest e) \<le> lon merc \<and> lon merc < lon (northEast e) \<and>
         lat (southWest e) < lat merc \<and> lat merc \<le> lat (northEast e))"

definition splitsCells :: "Collab \<Rightarrow> bool" where
  "splitsCells m \<longleftrightarrow>
     (\<forall>p v0 s. 0 < s \<and> lon v0 \<le> lon p \<and> lon p \<le> lon v0 + s \<and> lat v0 \<le> lat p \<and> lat p \<le> lat v0 + s \<longrightarrow>
        fst (cartesianToBarycentricLonLat m p v0
               \<lparr>lon = lon v0 + s, lat = lat v0\<rparr> \<lparr>lon = lon v0, lat = lat v0 + s\<rparr>)
        \<or> fst (cartesianToBarycentricLonLat m p
               \<lparr>lon = lon v0 + s, lat = lat v0\<rparr> \<lparr>lon = lon v0, lat = lat v0 + s\<rparr>
               \<lparr>lon = lon v0 + s, lat = lat v0 + s\<rparr>))"

section \<open>A concrete set of collaborators\<close>

text \<open>
  Modelled from the spec: \<^verbatim>\<open>cartesianToBarycentricLonLat\<close> (the shared utilities are not
  among the sources). The barycentric coordinates of \<open>p\<close> in the triangle \<open>a b c\<close>,
  and whether \<open>p\<close> lies in it: no coordinate is negative. A degenerate triangle
  contains no point.
\<close>

definition barycentric :: "LonLat \<Rightarrow> LonLat \<Rightarrow> LonLat \<Rightarrow> LonLat \<Rightarrow> bool \<times> real \<times> real \<times> real" where
  "barycentric p a b c =
     (let v0x = lon b - lon a; v0y = lat b - lat a;
          v1x = lon c - lon a; v1y = lat c - lat a;
          v2x = lon p - lon a; v2y = lat p - lat a;
          d00 = v0x * v0x + v0y * v0y;
          d01 = v0x * v1x + v0y * v1y;
          d11 = v1x * v1x + v1y * v1y;
          d20 = v2x * v0x + v2y * v0y;
          d21 = v2x * v1x + v2y * v1y;
          denom = d00 * d11 - d01 * d01
      in if denom = 0 then (False, 0, 0, 0)
         else
          (let v = (d11 * d20 - d01 * d21) / denom;
               w = (d00 * d21 - d01 * d20) / denom;
               u = 1 - v - w
           in (0 \<le> u \<and> 0 \<le> v \<and> 0 \<le> w, u, v, w)))"

text \<open>
  The model is run on these collaborators where a concrete run is needed. The
  projection is an equirectangular stand-in for the mercator one (the identity on
  degrees, the world square \<open>[-180, 180]\<close> squared) with the tile arithmetic of
  \<^verbatim>\<open>getTileXY\<close>; the geoid is flat at 47 metres.
\<close>

definition flatCollab :: Collab where
  "flatCollab =
     \<lparr>POLE = 180, POLE2 = 360, MAX_LAT = 85.0511287798, MIN_LAT = - 85.0511287798,
      forward = (\<lambda>p. p),
      getTileX = (\<lambda>lo z. \<lfloor>(180 + lo) / (360 / 2 ^ z)\<rfloor>),
      getTileY = (\<lambda>la z. \<lfloor>(180 - la) / (360 / 2 ^ z)\<rfloor>),
      getTileExtent = (\<lambda>x y z.
        \<lparr>southWest = \<lparr>lon = - 180 + real_of_int x * (360 / 2 ^ z),
                         lat = 180 - (real_of_int y + 1) * (360 / 2 ^ z)\<rparr>,
         northEast = \<lparr>lon = - 180 + (real_of_int x + 1) * (360 / 2 ^ z),
                         lat = 180 - real_of_int y * (360 / 2 ^ z)\<rparr>\<rparr>),
      getHeightLonLat = (\<lambda>_. 47),
      cartesianToBarycentricLonLat = barycentric\<rparr>"

definition defaultOptions :: Options where
  "defaultOptions = \<lparr>opt_maxZoom = None, opt_url = None\<rparr>"

text \<open>The point of longitude 7 and latitude 50.5 degrees.\<close>

definition point_7_50 :: LonLat where
  "point_7_50 = \<lparr>lon = 7, lat = 50.5\<rparr>"

text \<open>
  The mercator segment of the tile \<open>(8510, 5893)\<close> of zoom 14 (with these collaborators
  the tile of longitude 7, latitude 50.5), not yet loaded.
\<close>

definition plainSegment :: Segment where
  "plainSegment =
     \<lparr>tileX = 8510, tileY = 5893, tileZoom = 14, tileIndex = getTileIndex 8510 5893 14,
      projectionId = EPSG3857,
      segmentExtent = getTileExtent flatCollab 8510 5893 14,
      plainReady = True, segNodeState = RENDERING,
      terrainReady = False, terrainIsLoading = False, appliedTerrain = []\<rparr>"

text \<open>A freshly constructed provider on a planet whose every segment is that one.\<close>

definition freshTerrain :: GlobusTerrain where
  "freshTerrain = newGlobusTerrain defaultOptions (\<lambda>_. plainSegment)"

text \<open>
  A tile as the cache can hold it after a segment load stored a segment's extent: four
  heights, an extent 10 wide and 20 high. The point of longitude 5, latitude 15 (with
  \<open>flatCollab\<close> its own projection) lies in it.
\<close>

definition tallTile :: TileData where
  "tallTile = \<lparr>heights = [0, 0, 0, 0],
               extent = \<lparr>southWest = \<lparr>lon = 0, lat = 0\<rparr>, northEast = \<lparr>lon = 10, lat = 20\<rparr>\<rparr>\<rparr>"

definition point_5_15 :: LonLat where
  "point_5_15 = \<lparr>lon = 5, lat = 15\<rparr>"

section \<open>RendererEvents: entity picking\<close>

text \<open>
  The picking colours are \<^verbatim>\<open>Uint8Array\<close> buffers declared with \<^verbatim>\<open>let\<close> at the top of the
  module, outside the class: one set for the whole module. Only the entries 0 to 2
  are read. \<open>skipFrames\<close> is \<^verbatim>\<open>__skipFrames__\<close>.
\<close>

type_synonym color = "8 word \<times> 8 word \<times> 8 word"

record PickingState =
  currPickingColor :: color
  tempCurrPickingColor :: color
  prevPickingColor :: color
  skipFrames :: nat

definition MAX_SKIP_FRAMES_ON_BLACK :: nat where
  "MAX_SKIP_FRAMES_ON_BLACK = 15"

definition ISBLACK :: "color \<Rightarrow> bool" where
  "ISBLACK c = (case c of (c0, c1, c2) \<Rightarrow> \<not> (c0 \<noteq> 0 \<or> c1 \<noteq> 0 \<or> c2 \<noteq> 0))"

definition NOTBLACK :: "color \<Rightarrow> bool" where
  "NOTBLACK c = (case c of (c0, c1, c2) \<Rightarrow> c0 \<noteq> 0 \<or> c1 \<noteq> 0 \<or> c2 \<noteq> 0)"

text \<open>A picked object: its identifier and whether it has a \<^verbatim>\<open>rendererEvents\<close> handler.\<close>

record PickObject =
  objId :: nat
  hasRendererEvents :: bool

datatype pickEvent = mouseleave | touchleave | mouseenter | touchenter

text \<open>
  One \<^verbatim>\<open>RendererEvents\<close> instance: the fields of its mouse and touch states that
  \<^verbatim>\<open>entityPickingEvents\<close> uses, its renderer's two picking functions, and the log of
  the events it has dispatched on picked objects.
\<close>

record RendererEvents =
  ms_leftButtonHold :: bool
  ms_rightButtonHold :: bool
  ms_middleButtonHold :: bool
  ms_nx :: real
  ms_ny :: real
  ms_pickingObject :: "PickObject option"
  ts_x :: real
  ts_y :: real
  ts_nx :: real
  ts_ny :: real
  ts_pickingObject :: "PickObject option"
  readPickingColor :: "real \<Rightarrow> real \<Rightarrow> color"
  getPickingObjectArr :: "color \<Rightarrow> PickObject option"
  dispatched :: "(nat \<times> pickEvent) list"

definition dispatchOn :: "PickObject \<Rightarrow> pickEvent \<Rightarrow> RendererEvents \<Rightarrow> RendererEvents" where
  "dispatchOn po ev e =
     (if hasRendererEvents po then e\<lparr>dispatched := dispatched e @ [(objId po, ev)]\<rparr> else e)"

definition leaveObject :: "color \<Rightarrow> RendererEvents \<Rightarrow> RendererEvents" where
  "leaveObject p e =
     (case getPickingObjectArr e p of
        Some po \<Rightarrow>
          dispatchOn po touchleave
            ((dispatchOn po mouseleave (e\<lparr>ms_pickingObject := Some po\<rparr>))\<lparr>ts_pickingObject := Some po\<rparr>)
      | None \<Rightarrow> e)"

definition enterObject :: "PickObject option \<Rightarrow> RendererEvents \<Rightarrow> RendererEvents" where
  "enterObject co e =
     (case co of
        Some ob \<Rightarrow>
          dispatchOn ob touchenter
            ((dispatchOn ob mouseenter (e\<lparr>ms_pickingObject := co\<rparr>))\<lparr>ts_pickingObject := co\<rparr>)
      | None \<Rightarrow> e)"

text \<open>
  The colour \<^verbatim>\<open>readPickingColor\<close> writes into the temporary buffer: read under the touch
  position when there is one (\<^verbatim>\<open>ts.x || ts.y\<close>), under the mouse otherwise; and the guard
  of the function, that no mouse button is held.
\<close>

definition pickedColor :: "RendererEvents \<Rightarrow> color" where
  "pickedColor e =
     (if ts_x e \<noteq> 0 \<or> ts_y e \<noteq> 0
      then readPickingColor e (ts_nx e) (1 - ts_ny e)
      else readPickingColor e (ms_nx e) (1 - ms_ny e))"

definition buttonHeld :: "RendererEvents \<Rightarrow> bool" where
  "buttonHeld e \<longleftrightarrow> ms_leftButtonHold e \<or> ms_rightButtonHold e \<or> ms_middleButtonHold e"

definition entityPickingEvents :: "RendererEvents \<Rightarrow> PickingState \<Rightarrow> RendererEvents \<times> PickingState" where
  "entityPickingEvents e g =
     (if \<not> buttonHeld e then
        (let t = pickedColor e;
             g1 = g\<lparr>tempCurrPickingColor := t\<rparr>
         in if ISBLACK t \<and> skipFrames g1 < MAX_SKIP_FRAMES_ON_BLACK
            then (e, g1\<lparr>skipFrames := skipFrames g1 + 1\<rparr>)
            else
             (let p = currPickingColor g1;
                  c = t;
                  g2 = g1\<lparr>skipFrames := 0, prevPickingColor := p, currPickingColor := c\<rparr>;
                  co = getPickingObjectArr e c;
                  e1 = e\<lparr>ms_pickingObject := co, ts_pickingObject := co\<rparr>
              in if c \<noteq> p then
                   (if ISBLACK c then (leaveObject p e1, g2)
                    else (enterObject co (if NOTBLACK p then leaveObject p e1 else e1), g2))
                 else (e1, g2)))
      else (e, g))"

text \<open>An instance with no button held and no touch, whose renderer reads one colour everywhere.\<close>

definition idleInstance :: "color \<Rightarrow> (color \<Rightarrow> PickObject option) \<Rightarrow> RendererEvents" where
  "idleInstance col objs =
     \<lparr>ms_leftButtonHold = False, ms_rightButtonHold = False, ms_middleButtonHold = False,
      ms_nx = 0, ms_ny = 0, ms_pickingObject = None,
      ts_x = 0, ts_y = 0, ts_nx = 0, ts_ny = 0, ts_pickingObject = None,
      readPickingColor = (\<lambda>_ _. col),
      getPickingObjectArr = objs,
      dispatched = []\<rparr>"

definition initialPicking :: PickingState where
  "initialPicking =
     \<lparr>currPickingColor = (0, 0, 0), tempCurrPickingColor = (0, 0, 0),
      prevPickingColor = (0, 0, 0), skipFrames = 0\<rparr>"

section \<open>Tile mapping: the main band and the polar caps\<close>

lemma shl1_pow: "z < 31 \<Longrightarrow> shl1 z = 2 ^ z"
  by (simp add: shl1_def)

lemma floor_cell:
  fixes a s :: real
  assumes "0 < s"
  shows "real_of_int \<lfloor>a / s\<rfloor> * s \<le> a" and "a \<le> (real_of_int \<lfloor>a / s\<rfloor> + 1) * s"
proof -
  have "real_of_int \<lfloor>a / s\<rfloor> * s \<le> (a / s) * s"
    by (rule mult_right_mono) (use assms in simp_all)
  then show "real_of_int \<lfloor>a / s\<rfloor> * s \<le> a"
    using assms by simp
  have "a / s \<le> real_of_int \<lfloor>a / s\<rfloor> + 1" by linarith
  then have "(a / s) * s \<le> (real_of_int \<lfloor>a / s\<rfloor> + 1) * s"
    by (rule mult_right_mono) (use assms in simp)
  then show "a \<le> (real_of_int \<lfloor>a / s\<rfloor> + 1) * s"
    using assms by simp
qed

lemma getTileXY_main_band_inside:
  assumes band: "getTileGroupByLat (lat lonLat) (MAX_LAT m) = TILEGROUP_COMMON"
    and z: "z < 31" and pole: "0 < POLE2 m"
  shows "isInside (tileExtent m (getTileXY m lonLat z)) (tilePoint m lonLat)"
proof -
  define size where "size = POLE2 m / 2 ^ z"
  have pos: "0 < size" using pole by (simp add: size_def)
  define merc where "merc = forward m lonLat"
  define x where "x = \<lfloor>(POLE m + lon merc) / size\<rfloor>"
  define y where "y = \<lfloor>(POLE m - lat merc) / size\<rfloor>"
  have xy: "getTileXY m lonLat z = (x, y, z, TILEGROUP_COMMON)"
    using band z
    by (simp add: getTileXY_def Let_def shl1_pow Math_floor_def size_def merc_def x_def y_def)
  have pt: "tilePoint m lonLat = merc"
    using band by (simp add: tilePoint_def merc_def)
  have ext: "tileExtent m (x, y, z, TILEGROUP_COMMON) =
      \<lparr>southWest = \<lparr>lon = - POLE m + real_of_int x * size,
                       lat = POLE m - (real_of_int y + 1) * size\<rparr>,
       northEast = \<lparr>lon = - POLE m + (real_of_int x + 1) * size,
                       lat = POLE m - real_of_int y * size\<rparr>\<rparr>"
    by (simp add: tileExtent_def Let_def size_def)
  note fx = floor_cell [OF pos, of "POLE m + lon merc", folded x_def]
  note fy = floor_cell [OF pos, of "POLE m - lat merc", folded y_def]
  show ?thesis
    unfolding xy pt ext isInside_def
    using fx fy by simp
qed

text \<open>
  C1. The claim: the tile \<^verbatim>\<open>getTileXY\<close> returns contains the point, in the polar caps
  as in the main band. In the caps the row is computed with \<^verbatim>\<open>Math.round\<close> where the
  main band and the column use \<^verbatim>\<open>Math.floor\<close>. For every \<^verbatim>\<open>MAX_LAT\<close> from 85 up to (not
  including) 86 degrees, the point of longitude 0 and latitude 86 at zoom 0 is given
  the row 1 of the north cap, a row the single-tile zoom 0 does not have, and the
  extent of that tile ends at \<^verbatim>\<open>MAX_LAT\<close>, south of the point.
\<close>

theorem getTileXY_north_cap_row_rounded:
  assumes "85 \<le> MAX_LAT m" and "MAX_LAT m < 86"
  shows "getTileXY m \<lparr>lon = 0, lat = 86\<rparr> 0 = (0, 1, 0, TILEGROUP_NORTH)
    \<and> \<not> isInside (tileExtent m (getTileXY m \<lparr>lon = 0, lat = 86\<rparr> 0))
          (tilePoint m \<lparr>lon = 0, lat = 86\<rparr>)"
proof -
  define s where "s = 90 - MAX_LAT m"
  have s: "4 < s" "s \<le> 5" using assms by (simp_all add: s_def)
  have grp: "getTileGroupByLat 86 (MAX_LAT m) = TILEGROUP_NORTH"
    using assms by (simp add: getTileGroupByLat_def)
  have "1 \<le> 4 / s + 1 / 2" "4 / s + 1 / 2 < 2"
    using s by (simp_all add: field_simps)
  then have r: "\<lfloor>4 / s + 1 / 2\<rfloor> = 1" by linarith
  have xy: "getTileXY m \<lparr>lon = 0, lat = 86\<rparr> 0 = (0, 1, 0, TILEGROUP_NORTH)"
    using r by (simp add: getTileXY_def grp Let_def shl1_def Math_floor_def Math_round_def s_def)
  have "\<not> isInside (tileExtent m (0, 1, 0, TILEGROUP_NORTH)) (tilePoint m \<lparr>lon = 0, lat = 86\<rparr>)"
    using assms by (simp add: tileExtent_def isInside_def tilePoint_def grp)
  then show ?thesis using xy by simp
qed

theorem getTileXY_north_cap_row_rounded_witness:
  "85 \<le> MAX_LAT flatCollab \<and> MAX_LAT flatCollab < 86
   \<and> getTileXY flatCollab \<lparr>lon = 0, lat = 86\<rparr> 0 = (0, 1, 0, TILEGROUP_NORTH)
   \<and> \<not> isInside (tileExtent flatCollab (getTileXY flatCollab \<lparr>lon = 0, lat = 86\<rparr> 0))
          (tilePoint flatCollab \<lparr>lon = 0, lat = 86\<rparr>)"
proof -
  have h: "85 \<le> MAX_LAT flatCollab" "MAX_LAT flatCollab < 86"
    by (simp_all add: flatCollab_def)
  from getTileXY_north_cap_row_rounded [OF h] h show ?thesis by blast
qed

section \<open>What each operation leaves unchanged\<close>

lemma invoke_frame [simp]:
  "fetches (invoke cb v t) = fetches t" "fetchCache (invoke cb v t) = fetchCache t"
  "elevationCache (invoke cb v t) = elevationCache t" "loads (invoke cb v t) = loads t"
  "segments (invoke cb v t) = segments t" "terrainLock (invoke cb v t) = terrainLock t"
  "loadEvents (invoke cb v t) = loadEvents t" "loadHandlers (invoke cb v t) = loadHandlers t"
  "maxZoom (invoke cb v t) = maxZoom t" "url (invoke cb v t) = url t"
  "callbackLog (invoke cb v t) = callbackLog t @ [(cb, v)]"
  by (simp_all add: invoke_def)

lemma onFetchResponse_frame [simp]:
  "fetches (onFetchResponse m r k t) = fetches t" "loads (onFetchResponse m r k t) = loads t"
  "segments (onFetchResponse m r k t) = segments t" "terrainLock (onFetchResponse m r k t) = terrainLock t"
  "loadEvents (onFetchResponse m r k t) = loadEvents t" "loadHandlers (onFetchResponse m r k t) = loadHandlers t"
  "maxZoom (onFetchResponse m r k t) = maxZoom t" "url (onFetchResponse m r k t) = url t"
  by (simp_all add: onFetchResponse_def Let_def split: response.splits)

lemma foldl_onFetchResponse_frame [simp]:
  "fetches (foldl (\<lambda>s k. onFetchResponse m r k s) t ks) = fetches t"
  "loads (foldl (\<lambda>s k. onFetchResponse m r k s) t ks) = loads t"
  "segments (foldl (\<lambda>s k. onFetchResponse m r k s) t ks) = segments t"
  "terrainLock (foldl (\<lambda>s k. onFetchResponse m r k s) t ks) = terrainLock t"
  "loadEvents (foldl (\<lambda>s k. onFetchResponse m r k s) t ks) = loadEvents t"
  "loadHandlers (foldl (\<lambda>s k. onFetchResponse m r k s) t ks) = loadHandlers t"
  "maxZoom (foldl (\<lambda>s k. onFetchResponse m r k s) t ks) = maxZoom t"
  "url (foldl (\<lambda>s k. onFetchResponse m r k s) t ks) = url t"
  by (induction ks arbitrary: t; simp)+

lemma thenDo_frame [simp]:
  "loads (thenDo m p k t) = loads t"
  "segments (thenDo m p k t) = segments t" "terrainLock (thenDo m p k t) = terrainLock t"
  "loadEvents (thenDo m p k t) = loadEvents t" "loadHandlers (thenDo m p k t) = loadHandlers t"
  "maxZoom (thenDo m p k t) = maxZoom t" "url (thenDo m p k t) = url t"
  by (simp_all add: thenDo_def split: Promise.splits)

lemma getHeightAsync_frame [simp]:
  "loads (getHeightAsync m mode lonLat cb altEll t) = loads t"
  "segments (getHeightAsync m mode lonLat cb altEll t) = segments t"
  "terrainLock (getHeightAsync m mode lonLat cb altEll t) = terrainLock t"
  "loadEvents (getHeightAsync m mode lonLat cb altEll t) = loadEvents t"
  "loadHandlers (getHeightAsync m mode lonLat cb altEll t) = loadHandlers t"
  "maxZoom (getHeightAsync m mode lonLat cb altEll t) = maxZoom t"
  "url (getHeightAsync m mode lonLat cb altEll t) = url t"
  by (simp_all add: getHeightAsync_def ellToAltFn_def Let_def split: heightMode.splits option.splits)

lemma resolveFetch_frame [simp]:
  "loads (resolveFetch m p r t) = loads t"
  "segments (resolveFetch m p r t) = segments t"
  "terrainLock (resolveFetch m p r t) = terrainLock t"
  "loadEvents (resolveFetch m p r t) = loadEvents t"
  "loadHandlers (resolveFetch m p r t) = loadHandlers t"
  "maxZoom (resolveFetch m p r t) = maxZoom t"
  "url (resolveFetch m p r t) = url t"
  by (simp_all add: resolveFetch_def split: Promise.splits)

lemma updSegment_frame [simp]:
  "fetches (updSegment sid f t) = fetches t" "fetchCache (updSegment sid f t) = fetchCache t"
  "elevationCache (updSegment sid f t) = elevationCache t" "loads (updSegment sid f t) = loads t"
  "terrainLock (updSegment sid f t) = terrainLock t" "callbackLog (updSegment sid f t) = callbackLog t"
  "loadEvents (updSegment sid f t) = loadEvents t" "loadHandlers (updSegment sid f t) = loadHandlers t"
  "maxZoom (updSegment sid f t) = maxZoom t" "url (updSegment sid f t) = url t"
  "segments (updSegment sid f t) = (segments t)(sid := f (segments t sid))"
  by (simp_all add: updSegment_def)

lemma applyElevationsData_frame [simp]:
  "fetches (applyElevationsData sid el t) = fetches t" "fetchCache (applyElevationsData sid el t) = fetchCache t"
  "elevationCache (applyElevationsData sid el t) = elevationCache t" "loads (applyElevationsData sid el t) = loads t"
  "terrainLock (applyElevationsData sid el t) = terrainLock t" "callbackLog (applyElevationsData sid el t) = callbackLog t"
  "loadHandlers (applyElevationsData sid el t) = loadHandlers t"
  "maxZoom (applyElevationsData sid el t) = maxZoom t" "url (applyElevationsData sid el t) = url t"
  by (simp_all add: applyElevationsData_def Let_def)

lemma loadTerrain_frame [simp]:
  "fetches (loadTerrain sid fl t) = fetches t" "fetchCache (loadTerrain sid fl t) = fetchCache t"
  "elevationCache (loadTerrain sid fl t) = elevationCache t"
  "terrainLock (loadTerrain sid fl t) = terrainLock t" "callbackLog (loadTerrain sid fl t) = callbackLog t"
  "loadHandlers (loadTerrain sid fl t) = loadHandlers t"
  "maxZoom (loadTerrain sid fl t) = maxZoom t" "url (loadTerrain sid fl t) = url t"
  by (simp_all add: loadTerrain_def Let_def split: option.splits)

lemma onLoadResponse_frame [simp]:
  "fetches (onLoadResponse r sid t) = fetches t" "fetchCache (onLoadResponse r sid t) = fetchCache t"
  "loads (onLoadResponse r sid t) = loads t"
  "terrainLock (onLoadResponse r sid t) = terrainLock t" "callbackLog (onLoadResponse r sid t) = callbackLog t"
  "loadHandlers (onLoadResponse r sid t) = loadHandlers t"
  "maxZoom (onLoadResponse r sid t) = maxZoom t" "url (onLoadResponse r sid t) = url t"
  by (simp_all add: onLoadResponse_def Let_def split: response.splits)

lemma resolveLoad_frame [simp]:
  "fetches (resolveLoad l r t) = fetches t" "fetchCache (resolveLoad l r t) = fetchCache t"
  "terrainLock (resolveLoad l r t) = terrainLock t" "callbackLog (resolveLoad l r t) = callbackLog t"
  "loadHandlers (resolveLoad l r t) = loadHandlers t"
  "maxZoom (resolveLoad l r t) = maxZoom t" "url (resolveLoad l r t) = url t"
  "length (loads (resolveLoad l r t)) = length (loads t)"
  by (simp_all add: resolveLoad_def)

section \<open>The terrain lock gates loadTerrain\<close>

lemma loadTerrain_locked:
  "\<not> isFree (terrainLock t) \<Longrightarrow>
     loadTerrain sid fl t = updSegment sid (\<lambda>s. s\<lparr>terrainIsLoading := False\<rparr>) t"
  by (simp add: loadTerrain_def)

lemma length_fetches_resolveFetch [simp]:
  "length (fetches (resolveFetch m p r t)) = length (fetches t)"
  by (simp add: resolveFetch_def split: Promise.splits)

lemma step_locked:
  assumes "\<not> isFree (terrainLock t)" and "noFree e"
  shows "\<not> isFree (terrainLock (step m t e))" "length (loads (step m t e)) = length (loads t)"
  using assms
  by (cases e; simp add: loadTerrain_locked lockTerrain_def isFree_def noFree_def)+

lemma run_locked:
  assumes "\<not> isFree (terrainLock t)" and "list_all noFree evs"
  shows "\<not> isFree (terrainLock (run m evs t)) \<and> length (loads (run m evs t)) = length (loads t)"
  using assms unfolding run_def
proof (induction evs arbitrary: t)
  case Nil
  then show ?case by simp
next
  case (Cons e evs)
  from Cons.prems have e: "noFree e" and evs: "list_all noFree evs" by simp_all
  note s = step_locked [OF Cons.prems(1) e, of m]
  from Cons.IH [OF s(1) evs] s(2) show ?case by simp
qed

lemma onDraw_engages_lock:
  assumes "active nav" and "\<not> leftButtonDown fr"
    and "scaleRot nav \<noteq> 0" and "0.01 < eyeMoveByAltitude fr"
  shows "\<not> isFree (terrainLock (snd (onDraw fr nav t)))"
    and "loads (loadTerrain sid fl (snd (onDraw fr nav t))) = loads t"
proof -
  have l: "\<not> isFree (terrainLock (snd (onDraw fr nav t)))"
    using assms
    by (simp add: onDraw_def Let_def lockTerrain_def freeTerrain_def isFree_def split: prod.splits)
  have "loads (snd (onDraw fr nav t)) = loads t"
    by (simp add: onDraw_def Let_def lockTerrain_def freeTerrain_def split: prod.splits)
  then show "loads (loadTerrain sid fl (snd (onDraw fr nav t))) = loads t"
    using l by (simp add: loadTerrain_locked)
  show "\<not> isFree (terrainLock (snd (onDraw fr nav t)))" by (rule l)
qed

text \<open>
  C3. Called while the terrain lock is engaged, \<^verbatim>\<open>loadTerrain\<close> marks the segment
  not-loading and hands nothing to the loader: the loads and the fetches are those of
  before. Over any run of events in which nobody frees the lock (segment loads, height
  queries, resolutions, further locks), the lock stays engaged and no load is added.
\<close>

theorem loadTerrain_rejected_while_locked:
  assumes "\<not> isFree (terrainLock t)"
  shows "terrainIsLoading (segments (loadTerrain sid forceLoading t) sid) = False
    \<and> loads (loadTerrain sid forceLoading t) = loads t
    \<and> fetches (loadTerrain sid forceLoading t) = fetches t
    \<and> (list_all noFree evs \<longrightarrow>
         \<not> isFree (terrainLock (run m evs t)) \<and> length (loads (run m evs t)) = length (loads t))"
  using assms run_locked [OF assms, of evs m]
  by (simp add: loadTerrain_locked)

theorem loadTerrain_rejected_while_locked_witness:
  "\<not> isFree (terrainLock (lockTerrain 1 freshTerrain))
   \<and> terrainIsLoading (segments (loadTerrain 0 False (lockTerrain 1 freshTerrain)) 0) = False
   \<and> loads (loadTerrain 0 False (lockTerrain 1 freshTerrain)) = []
   \<and> fetches (loadTerrain 0 False (lockTerrain 1 freshTerrain)) = []
   \<and> list_all noFree [LoadTerrain 0 False, LoadTerrain 0 True]
   \<and> loads (run flatCollab [LoadTerrain 0 False, LoadTerrain 0 True] (lockTerrain 1 freshTerrain)) = []"
proof -
  have h: "\<not> isFree (terrainLock (lockTerrain 1 freshTerrain))"
    by (simp add: lockTerrain_def isFree_def)
  have e: "list_all noFree [LoadTerrain 0 False, LoadTerrain 0 True]"
    by (simp add: noFree_def)
  have l: "loads (lockTerrain 1 freshTerrain) = []" "fetches (lockTerrain 1 freshTerrain) = []"
    by (simp_all add: lockTerrain_def freshTerrain_def newGlobusTerrain_def)
  from loadTerrain_rejected_while_locked [OF h, of 0 False "[LoadTerrain 0 False, LoadTerrain 0 True]" flatCollab]
  show ?thesis using h e l by simp
qed

section \<open>The fetch table and its invariant\<close>

lemma map_fst_update: "map fst (xs[p := (fst (xs ! p), y)]) = map fst xs"
  by (cases "p < length xs") (simp_all add: map_update list_update_same_conv list_update_beyond)

lemma wellFormedI:
  assumes "\<And>ix p. fetchCache t ix = Some p \<Longrightarrow>
      p < length (fetches t) \<and> requestKey (fst (fetches t ! p)) = ix \<and>
      (elevationCache t ix = None \<longrightarrow> isPending (snd (fetches t ! p)))"
    and "\<And>p ks. p < length (fetches t) \<Longrightarrow> snd (fetches t ! p) = Pending ks \<Longrightarrow>
      ks \<noteq> [] \<and> fetchCache t (requestKey (fst (fetches t ! p))) = Some p \<and>
      (\<forall>k \<in> set ks. k_tileIndex k = requestKey (fst (fetches t ! p)))"
  shows "wellFormed t"
  unfolding wellFormed_def using assms by blast

lemma wellFormed_entry:
  assumes "wellFormed t" and "fetchCache t ix = Some p"
  shows "p < length (fetches t)" and "requestKey (fst (fetches t ! p)) = ix"
    and "elevationCache t ix = None \<Longrightarrow> isPending (snd (fetches t ! p))"
  using assms unfolding wellFormed_def by blast+

lemma wellFormed_pending:
  assumes "wellFormed t" and "p < length (fetches t)" and "snd (fetches t ! p) = Pending ks"
  shows "ks \<noteq> []" and "fetchCache t (requestKey (fst (fetches t ! p))) = Some p"
    and "\<And>k. k \<in> set ks \<Longrightarrow> k_tileIndex k = requestKey (fst (fetches t ! p))"
  using assms unfolding wellFormed_def by blast+

lemma wellFormed_grow:
  assumes wf: "wellFormed t" and f: "fetches t' = fetches t" and c: "fetchCache t' = fetchCache t"
    and e: "\<And>ix. elevationCache t' ix = None \<Longrightarrow> elevationCache t ix = None"
  shows "wellFormed t'"
proof (rule wellFormedI)
  fix ix p
  assume "fetchCache t' ix = Some p"
  then have h: "fetchCache t ix = Some p" by (simp add: c)
  show "p < length (fetches t') \<and> requestKey (fst (fetches t' ! p)) = ix \<and>
      (elevationCache t' ix = None \<longrightarrow> isPending (snd (fetches t' ! p)))"
    using wellFormed_entry [OF wf h] e [of ix] by (simp add: f)
next
  fix p ks
  assume "p < length (fetches t')" and "snd (fetches t' ! p) = Pending ks"
  then have h: "p < length (fetches t)" "snd (fetches t ! p) = Pending ks"
    by (simp_all add: f)
  show "ks \<noteq> [] \<and> fetchCache t' (requestKey (fst (fetches t' ! p))) = Some p \<and>
      (\<forall>k \<in> set ks. k_tileIndex k = requestKey (fst (fetches t' ! p)))"
    using wellFormed_pending [OF wf h] by (simp add: f c)
qed

lemma wellFormed_new: "wellFormed (newGlobusTerrain options segs)"
  by (simp add: wellFormed_def newGlobusTerrain_def)

lemma onFetchResponse_fetchCache:
  "fetchCache (onFetchResponse m r k t) =
     (if r = Abort \<or> r = OtherStatus then (fetchCache t)(k_tileIndex k := None) else fetchCache t)"
  by (simp add: onFetchResponse_def Let_def invoke_def split: response.splits)

lemma onFetchResponse_elevationCache:
  "elevationCache (onFetchResponse m r k t) =
     (case cacheOf m r (k_tileIndex k) of
        Some c \<Rightarrow> (elevationCache t)(k_tileIndex k \<mapsto> c)
      | None \<Rightarrow> elevationCache t)"
  by (simp add: onFetchResponse_def Let_def cacheOf_def k_tileIndex_def getTileIndex_def
      split: response.splits)

lemma foldl_fetchCache:
  assumes "\<forall>k \<in> set ks. k_tileIndex k = ix"
  shows "fetchCache (foldl (\<lambda>s k. onFetchResponse m r k s) t ks) =
     (if ks \<noteq> [] \<and> (r = Abort \<or> r = OtherStatus) then (fetchCache t)(ix := None) else fetchCache t)"
  using assms
  by (induction ks arbitrary: t) (auto simp: onFetchResponse_fetchCache)

lemma foldl_elevationCache:
  assumes "\<forall>k \<in> set ks. k_tileIndex k = ix"
  shows "elevationCache (foldl (\<lambda>s k. onFetchResponse m r k s) t ks) =
     (case cacheOf m r ix of
        Some c \<Rightarrow> if ks = [] then elevationCache t else (elevationCache t)(ix \<mapsto> c)
      | None \<Rightarrow> elevationCache t)"
  using assms
  by (induction ks arbitrary: t) (auto simp: onFetchResponse_elevationCache split: option.splits)

lemma onFetchResponse_callbackLog:
  "callbackLog (onFetchResponse m r k t) = callbackLog t @ answerOf m r k"
  by (simp add: onFetchResponse_def Let_def answerOf_def split: response.splits)

lemma foldl_callbackLog:
  "callbackLog (foldl (\<lambda>s k. onFetchResponse m r k s) t ks) =
     callbackLog t @ concat (map (answerOf m r) ks)"
  by (induction ks arbitrary: t) (simp_all add: onFetchResponse_callbackLog)

lemma tileIndexOf_simps:
  "k_tileIndex (continuationOf m t lonLat altEll cb) = tileIndexOf m t lonLat"
  "requestKey (requestOf m t lonLat) = tileIndexOf m t lonLat"
  by (simp_all add: k_tileIndex_def continuationOf_def requestKey_def requestOf_def tileIndexOf_def)

lemma getHeightAsync_GND_hit:
  assumes "elevationCache t (tileIndexOf m t lonLat) = Some cache"
  shows "getHeightAsync m GND lonLat cb altEll t =
     invoke cb (jssub (Some altEll)
                  (jsadd (getGroundHeight m lonLat cache) (Some (getHeightLonLat m lonLat)))) t"
  using assms by (simp add: getHeightAsync_def ellToAltFn_def Let_def tileIndexOf_def)

lemma getHeightAsync_GND_miss_new:
  assumes "elevationCache t (tileIndexOf m t lonLat) = None"
    and "fetchCache t (tileIndexOf m t lonLat) = None"
  shows "getHeightAsync m GND lonLat cb altEll t =
     t\<lparr>fetches := fetches t @ [(requestOf m t lonLat, Pending [continuationOf m t lonLat altEll cb])],
       fetchCache := (fetchCache t)(tileIndexOf m t lonLat \<mapsto> length (fetches t))\<rparr>"
  using assms
  by (simp add: getHeightAsync_def ellToAltFn_def Let_def tileIndexOf_def thenDo_def
      requestOf_def continuationOf_def)

lemma getHeightAsync_GND_miss_pending:
  assumes "elevationCache t (tileIndexOf m t lonLat) = None"
    and "fetchCache t (tileIndexOf m t lonLat) = Some p"
    and "p < length (fetches t)" and "snd (fetches t ! p) = Pending ks"
  shows "getHeightAsync m GND lonLat cb altEll t =
     t\<lparr>fetches := (fetches t)[p := (fst (fetches t ! p),
                                     Pending (ks @ [continuationOf m t lonLat altEll cb]))]\<rparr>"
  using assms
  by (simp add: getHeightAsync_def ellToAltFn_def Let_def tileIndexOf_def thenDo_def
      continuationOf_def)

lemma resolveFetch_pending:
  assumes "p < length (fetches t)" and "snd (fetches t ! p) = Pending ks"
  shows "resolveFetch m p r t =
     foldl (\<lambda>s k. onFetchResponse m r k s)
       (t\<lparr>fetches := (fetches t)[p := (fst (fetches t ! p), Resolved r)]\<rparr>) ks"
  using assms by (simp add: resolveFetch_def)

lemma resolveFetch_idle:
  assumes "\<not> (p < length (fetches t) \<and> isPending (snd (fetches t ! p)))"
  shows "resolveFetch m p r t = t"
  using assms by (auto simp: resolveFetch_def isPending_def split: Promise.splits)

lemma isPending_simps [simp]: "isPending (Pending ks)" "\<not> isPending (Resolved r)"
  by (simp_all add: isPending_def)

lemma isPendingE: "isPending pr \<Longrightarrow> \<exists>ks. pr = Pending ks"
  by (cases pr) simp_all

lemma wellFormed_invoke: "wellFormed t \<Longrightarrow> wellFormed (invoke cb v t)"
  by (rule wellFormed_grow [where t = t]) simp_all

lemma wellFormed_miss_new:
  assumes wf: "wellFormed t" and c: "fetchCache t ix = None" and key: "requestKey q = ix"
    and k: "k_tileIndex k = ix"
  shows "wellFormed (t\<lparr>fetches := fetches t @ [(q, Pending [k])],
                        fetchCache := (fetchCache t)(ix \<mapsto> length (fetches t))\<rparr>)"
proof (rule wellFormedI)
  fix ix' p
  assume a: "fetchCache (t\<lparr>fetches := fetches t @ [(q, Pending [k])],
                        fetchCache := (fetchCache t)(ix \<mapsto> length (fetches t))\<rparr>) ix' = Some p"
  show "p < length (fetches (t\<lparr>fetches := fetches t @ [(q, Pending [k])],
                        fetchCache := (fetchCache t)(ix \<mapsto> length (fetches t))\<rparr>))
      \<and> requestKey (fst (fetches (t\<lparr>fetches := fetches t @ [(q, Pending [k])],
                        fetchCache := (fetchCache t)(ix \<mapsto> length (fetches t))\<rparr>) ! p)) = ix'
      \<and> (elevationCache (t\<lparr>fetches := fetches t @ [(q, Pending [k])],
                        fetchCache := (fetchCache t)(ix \<mapsto> length (fetches t))\<rparr>) ix' = None \<longrightarrow>
           isPending (snd (fetches (t\<lparr>fetches := fetches t @ [(q, Pending [k])],
                        fetchCache := (fetchCache t)(ix \<mapsto> length (fetches t))\<rparr>) ! p)))"
  proof (cases "ix' = ix")
    case True
    with a have "p = length (fetches t)" by simp
    then show ?thesis using True key by simp
  next
    case False
    with a have h: "fetchCache t ix' = Some p" by simp
    from wellFormed_entry [OF wf h] show ?thesis by (simp add: nth_append)
  qed
next
  fix p ks
  assume a: "p < length (fetches (t\<lparr>fetches := fetches t @ [(q, Pending [k])],
                        fetchCache := (fetchCache t)(ix \<mapsto> length (fetches t))\<rparr>))"
    and b: "snd (fetches (t\<lparr>fetches := fetches t @ [(q, Pending [k])],
                        fetchCache := (fetchCache t)(ix \<mapsto> length (fetches t))\<rparr>) ! p) = Pending ks"
  show "ks \<noteq> [] \<and>
      fetchCache (t\<lparr>fetches := fetches t @ [(q, Pending [k])],
                        fetchCache := (fetchCache t)(ix \<mapsto> length (fetches t))\<rparr>)
        (requestKey (fst (fetches (t\<lparr>fetches := fetches t @ [(q, Pending [k])],
                        fetchCache := (fetchCache t)(ix \<mapsto> length (fetches t))\<rparr>) ! p))) = Some p
      \<and> (\<forall>k' \<in> set ks. k_tileIndex k' =
            requestKey (fst (fetches (t\<lparr>fetches := fetches t @ [(q, Pending [k])],
                        fetchCache := (fetchCache t)(ix \<mapsto> length (fetches t))\<rparr>) ! p)))"
  proof (cases "p = length (fetches t)")
    case True
    with b have "ks = [k]" by simp
    then show ?thesis using True key k by simp
  next
    case False
    with a have lt: "p < length (fetches t)" by simp
    with b have pk: "snd (fetches t ! p) = Pending ks" by (simp add: nth_append)
    note old = wellFormed_pending [OF wf lt pk]
    from old(2) c have "requestKey (fst (fetches t ! p)) \<noteq> ix" by auto
    then show ?thesis using old lt by (simp add: nth_append)
  qed
qed

lemma wellFormed_miss_pending:
  assumes wf: "wellFormed t" and c: "fetchCache t ix = Some p"
    and pk: "p < length (fetches t)" "snd (fetches t ! p) = Pending ks"
    and k: "k_tileIndex k = ix"
  shows "wellFormed (t\<lparr>fetches := (fetches t)[p := (fst (fetches t ! p), Pending (ks @ [k]))]\<rparr>)"
proof (rule wellFormedI)
  fix ix' p'
  assume "fetchCache (t\<lparr>fetches := (fetches t)[p := (fst (fetches t ! p), Pending (ks @ [k]))]\<rparr>) ix' = Some p'"
  then have h: "fetchCache t ix' = Some p'" by simp
  from wellFormed_entry [OF wf h]
  show "p' < length (fetches (t\<lparr>fetches := (fetches t)[p := (fst (fetches t ! p), Pending (ks @ [k]))]\<rparr>))
      \<and> requestKey (fst (fetches (t\<lparr>fetches := (fetches t)[p := (fst (fetches t ! p), Pending (ks @ [k]))]\<rparr>) ! p')) = ix'
      \<and> (elevationCache (t\<lparr>fetches := (fetches t)[p := (fst (fetches t ! p), Pending (ks @ [k]))]\<rparr>) ix' = None \<longrightarrow>
           isPending (snd (fetches (t\<lparr>fetches := (fetches t)[p := (fst (fetches t ! p), Pending (ks @ [k]))]\<rparr>) ! p')))"
    by (cases "p' = p") (simp_all add: pk)
next
  fix p' ks'
  assume a: "p' < length (fetches (t\<lparr>fetches := (fetches t)[p := (fst (fetches t ! p), Pending (ks @ [k]))]\<rparr>))"
    and b: "snd (fetches (t\<lparr>fetches := (fetches t)[p := (fst (fetches t ! p), Pending (ks @ [k]))]\<rparr>) ! p') = Pending ks'"
  show "ks' \<noteq> [] \<and>
      fetchCache (t\<lparr>fetches := (fetches t)[p := (fst (fetches t ! p), Pending (ks @ [k]))]\<rparr>)
        (requestKey (fst (fetches (t\<lparr>fetches := (fetches t)[p := (fst (fetches t ! p), Pending (ks @ [k]))]\<rparr>) ! p'))) = Some p'
      \<and> (\<forall>k' \<in> set ks'. k_tileIndex k' =
            requestKey (fst (fetches (t\<lparr>fetches := (fetches t)[p := (fst (fetches t ! p), Pending (ks @ [k]))]\<rparr>) ! p')))"
  proof (cases "p' = p")
    case True
    with b pk have ks': "ks' = ks @ [k]" by simp
    note old = wellFormed_pending [OF wf pk]
    from wellFormed_entry(2) [OF wf c] have key: "requestKey (fst (fetches t ! p)) = ix" .
    show ?thesis using True ks' old key k pk(1) by auto
  next
    case False
    with a b have lt: "p' < length (fetches t)" and pk': "snd (fetches t ! p') = Pending ks'"
      by simp_all
    from wellFormed_pending [OF wf lt pk'] show ?thesis using False lt by simp
  qed
qed

lemma wellFormed_getHeightAsync:
  assumes wf: "wellFormed t"
  shows "wellFormed (getHeightAsync m mode lonLat cb altEll t)"
proof (cases mode)
  case ELL
  then show ?thesis using wf by (simp add: getHeightAsync_def ellToAltFn_def wellFormed_invoke)
next
  case MSL
  then show ?thesis using wf by (simp add: getHeightAsync_def ellToAltFn_def wellFormed_invoke)
next
  case GND
  show ?thesis
  proof (cases "elevationCache t (tileIndexOf m t lonLat)")
    case (Some cache)
    show ?thesis unfolding GND getHeightAsync_GND_hit [OF Some] using wf by (rule wellFormed_invoke)
  next
    case None
    show ?thesis
    proof (cases "fetchCache t (tileIndexOf m t lonLat)")
      case n: None
      show ?thesis unfolding GND getHeightAsync_GND_miss_new [OF None n]
        by (rule wellFormed_miss_new [OF wf n]) (simp_all add: tileIndexOf_simps)
    next
      case (Some p)
      note e = wellFormed_entry [OF wf Some]
      from e(3) [OF None] obtain ks where ks: "snd (fetches t ! p) = Pending ks"
        using isPendingE by blast
      show ?thesis unfolding GND getHeightAsync_GND_miss_pending [OF None Some e(1) ks]
        by (rule wellFormed_miss_pending [OF wf Some e(1) ks]) (simp add: tileIndexOf_simps)
    qed
  qed
qed

lemma cacheOf_None: "cacheOf m r ix = None \<longleftrightarrow> r = Abort \<or> r = OtherStatus"
  by (cases r) (simp_all add: cacheOf_def)

lemma resolveFetch_fields:
  assumes wf: "wellFormed t" and lt: "p < length (fetches t)" and pk: "snd (fetches t ! p) = Pending ks"
  shows "fetches (resolveFetch m p r t) = (fetches t)[p := (fst (fetches t ! p), Resolved r)]"
    and "fetchCache (resolveFetch m p r t) =
      (if r = Abort \<or> r = OtherStatus
       then (fetchCache t)(requestKey (fst (fetches t ! p)) := None) else fetchCache t)"
    and "elevationCache (resolveFetch m p r t) =
      (case cacheOf m r (requestKey (fst (fetches t ! p))) of
         Some c \<Rightarrow> (elevationCache t)(requestKey (fst (fetches t ! p)) \<mapsto> c)
       | None \<Rightarrow> elevationCache t)"
    and "callbackLog (resolveFetch m p r t) = callbackLog t @ concat (map (answerOf m r) ks)"
proof -
  note old = wellFormed_pending [OF wf lt pk]
  have all: "\<forall>k \<in> set ks. k_tileIndex k = requestKey (fst (fetches t ! p))"
    using old(3) by blast
  show "fetches (resolveFetch m p r t) = (fetches t)[p := (fst (fetches t ! p), Resolved r)]"
    by (simp add: resolveFetch_pending [OF lt pk])
  show "fetchCache (resolveFetch m p r t) =
      (if r = Abort \<or> r = OtherStatus
       then (fetchCache t)(requestKey (fst (fetches t ! p)) := None) else fetchCache t)"
    using old(1) by (simp add: resolveFetch_pending [OF lt pk] foldl_fetchCache [OF all])
  show "elevationCache (resolveFetch m p r t) =
      (case cacheOf m r (requestKey (fst (fetches t ! p))) of
         Some c \<Rightarrow> (elevationCache t)(requestKey (fst (fetches t ! p)) \<mapsto> c)
       | None \<Rightarrow> elevationCache t)"
    using old(1)
    by (simp add: resolveFetch_pending [OF lt pk] foldl_elevationCache [OF all] split: option.splits)
  show "callbackLog (resolveFetch m p r t) = callbackLog t @ concat (map (answerOf m r) ks)"
    by (simp add: resolveFetch_pending [OF lt pk] foldl_callbackLog)
qed

lemma wellFormed_resolveFetch:
  assumes wf: "wellFormed t"
  shows "wellFormed (resolveFetch m p r t)"
proof (cases "p < length (fetches t) \<and> isPending (snd (fetches t ! p))")
  case False
  then show ?thesis using wf by (simp add: resolveFetch_idle)
next
  case True
  then have lt: "p < length (fetches t)" by simp
  from True obtain ks where pk: "snd (fetches t ! p) = Pending ks"
    using isPendingE by blast
  define ix where "ix = requestKey (fst (fetches t ! p))"
  define t' where "t' = resolveFetch m p r t"
  note old = wellFormed_pending [OF wf lt pk, folded ix_def]
  note f = resolveFetch_fields [OF wf lt pk, of m r, folded ix_def t'_def]
  have "wellFormed t'"
  proof (rule wellFormedI)
    fix ix' p'
    assume a: "fetchCache t' ix' = Some p'"
    then have h: "fetchCache t ix' = Some p'"
      by (simp add: f(2) split: if_splits)
    note e = wellFormed_entry [OF wf h]
    have "elevationCache t' ix' = None \<longrightarrow> isPending (snd (fetches t' ! p'))"
    proof
      assume n: "elevationCache t' ix' = None"
      show "isPending (snd (fetches t' ! p'))"
      proof (cases "ix' = ix")
        case True
        from n True have "cacheOf m r ix = None"
          by (simp add: f(3) split: option.splits)
        then have "fetchCache t' ix = None"
          by (simp add: f(2) cacheOf_None)
        with a True show ?thesis by simp
      next
        case False
        from e(2) False have "p' \<noteq> p" by (auto simp: ix_def)
        moreover from n False have "elevationCache t ix' = None"
          by (simp add: f(3) split: option.splits)
        ultimately show ?thesis using e(3) by (simp add: f(1))
      qed
    qed
    then show "p' < length (fetches t') \<and> requestKey (fst (fetches t' ! p')) = ix' \<and>
        (elevationCache t' ix' = None \<longrightarrow> isPending (snd (fetches t' ! p')))"
      using e(1,2) by (cases "p' = p") (simp_all add: f(1))
  next
    fix p' ks'
    assume a: "p' < length (fetches t')" and b: "snd (fetches t' ! p') = Pending ks'"
    from a have lt': "p' < length (fetches t)" by (simp add: f(1))
    from b lt have ne: "p' \<noteq> p" by (auto simp: f(1))
    with b have pk': "snd (fetches t ! p') = Pending ks'" by (simp add: f(1))
    note o = wellFormed_pending [OF wf lt' pk']
    from o(2) old(2) ne have "requestKey (fst (fetches t ! p')) \<noteq> ix" by auto
    then show "ks' \<noteq> [] \<and> fetchCache t' (requestKey (fst (fetches t' ! p'))) = Some p' \<and>
        (\<forall>k \<in> set ks'. k_tileIndex k = requestKey (fst (fetches t' ! p')))"
      using o ne by (simp add: f(1,2))
  qed
  then show ?thesis by (simp add: t'_def)
qed

lemma elevationCache_onLoadResponse:
  "elevationCache (onLoadResponse r sid t) ix = None \<Longrightarrow> elevationCache t ix = None"
  by (cases r) (simp_all add: onLoadResponse_def Let_def split: if_splits)

lemma elevationCache_resolveLoad:
  "elevationCache (resolveLoad l r t) ix = None \<Longrightarrow> elevationCache t ix = None"
  by (auto simp: resolveLoad_def dest: elevationCache_onLoadResponse split: if_splits)

lemma wellFormed_step:
  assumes "wellFormed t"
  shows "wellFormed (step m t e)"
proof (cases e)
  case (GetHeightAsync mode lonLat cb altEll)
  then show ?thesis using assms by (simp add: wellFormed_getHeightAsync)
next
  case (FetchResolves p r)
  then show ?thesis using assms by (simp add: wellFormed_resolveFetch)
next
  case (LoadTerrain sid fl)
  show ?thesis unfolding LoadTerrain step.simps
    by (rule wellFormed_grow [OF assms]) simp_all
next
  case (LoadResolves l r)
  show ?thesis unfolding LoadResolves step.simps
    by (rule wellFormed_grow [OF assms]) (simp_all add: elevationCache_resolveLoad)
next
  case (LockTerrain key)
  show ?thesis unfolding LockTerrain step.simps
    by (rule wellFormed_grow [OF assms]) (simp_all add: lockTerrain_def)
next
  case (FreeTerrain key)
  show ?thesis unfolding FreeTerrain step.simps
    by (rule wellFormed_grow [OF assms]) (simp_all add: freeTerrain_def)
next
  case OnLoad
  show ?thesis unfolding OnLoad step.simps
    by (rule wellFormed_grow [OF assms]) simp_all
qed

lemma wellFormed_run: "wellFormed t \<Longrightarrow> wellFormed (run m evs t)"
  unfolding run_def by (induction evs arbitrary: t) (simp_all add: wellFormed_step)

lemma filter_at_most_one:
  assumes "\<And>i j. i < length xs \<Longrightarrow> j < length xs \<Longrightarrow> P (xs ! i) \<Longrightarrow> P (xs ! j) \<Longrightarrow> i = j"
  shows "length (filter P xs) \<le> 1"
  using assms
proof (induction xs)
  case Nil
  then show ?case by simp
next
  case (Cons x xs)
  have ih: "length (filter P xs) \<le> 1"
  proof (rule Cons.IH)
    fix i j
    assume "i < length xs" "j < length xs" "P (xs ! i)" "P (xs ! j)"
    then have "Suc i = Suc j" by (intro Cons.prems) simp_all
    then show "i = j" by simp
  qed
  show ?case
  proof (cases "P x")
    case False
    then show ?thesis using ih by simp
  next
    case True
    have "filter P xs = []"
    proof (rule ccontr)
      assume "filter P xs \<noteq> []"
      then obtain y where "y \<in> set xs" "P y"
        by (metis filter_False)
      then obtain j where j: "j < length xs" "xs ! j = y"
        by (auto simp: in_set_conv_nth)
      have "0 = Suc j" using True j \<open>P y\<close> by (intro Cons.prems) simp_all
      then show False by simp
    qed
    then show ?thesis using True by simp
  qed
qed

lemma pendingFetches_at_most_one:
  assumes wf: "wellFormed t"
  shows "length (pendingFetches ix t) \<le> 1"
  unfolding pendingFetches_def
proof (rule filter_at_most_one)
  fix i j
  assume i: "i < length (fetches t)" and j: "j < length (fetches t)"
    and pi: "requestKey (fst (fetches t ! i)) = ix \<and> isPending (snd (fetches t ! i))"
    and pj: "requestKey (fst (fetches t ! j)) = ix \<and> isPending (snd (fetches t ! j))"
  from pi obtain ks where ki: "snd (fetches t ! i) = Pending ks" using isPendingE by blast
  from pj obtain ks' where kj: "snd (fetches t ! j) = Pending ks'" using isPendingE by blast
  from wellFormed_pending(2) [OF wf i ki] wellFormed_pending(2) [OF wf j kj] pi pj
  show "i = j" by simp
qed

section \<open>Runs on the concrete collaborators\<close>

lemma freshTerrain_fields [simp]:
  "maxZoom freshTerrain = 14" "fetches freshTerrain = []" "loads freshTerrain = []"
  "elevationCache freshTerrain = (\<lambda>_. None)" "fetchCache freshTerrain = (\<lambda>_. None)"
  "callbackLog freshTerrain = []" "loadEvents freshTerrain = []" "loadHandlers freshTerrain = 0"
  "terrainLock freshTerrain = {}" "segments freshTerrain = (\<lambda>_. plainSegment)"
  "urlRewriteCallback freshTerrain = None"
  "url freshTerrain = ''//openglobus.org/heights/srtm3/{z}/{y}/{x}.ddm''"
  by (simp_all add: freshTerrain_def newGlobusTerrain_def defaultOptions_def)

lemma wellFormed_fresh: "wellFormed freshTerrain"
  by (simp add: freshTerrain_def wellFormed_new)

lemma flat_tile_7_50:
  "getTileX flatCollab (lon point_7_50) 14 = 8510" "getTileY flatCollab (lat point_7_50) 14 = 5893"
  by (simp_all add: flatCollab_def point_7_50_def)

lemma flat_tileIndexOf:
  "maxZoom t = 14 \<Longrightarrow> tileIndexOf flatCollab t point_7_50 = (8510, 5893, 14)"
  by (simp add: tileIndexOf_def flat_tile_7_50 getTileIndex_def)

lemma plainSegment_fields [simp]:
  "tileIndex plainSegment = (8510, 5893, 14)" "projectionId plainSegment = EPSG3857"
  "appliedTerrain plainSegment = []" "terrainIsLoading plainSegment = False"
  "tileX plainSegment = 8510" "tileY plainSegment = 5893" "tileZoom plainSegment = 14"
  by (simp_all add: plainSegment_def getTileIndex_def)

lemma first_query_fresh:
  "getHeightAsync flatCollab GND point_7_50 cb altEll freshTerrain =
     freshTerrain\<lparr>fetches := [(requestOf flatCollab freshTerrain point_7_50,
                       Pending [continuationOf flatCollab freshTerrain point_7_50 altEll cb])],
       fetchCache := (\<lambda>_. None)((8510, 5893, 14) \<mapsto> 0)\<rparr>"
  using getHeightAsync_GND_miss_new [of freshTerrain flatCollab "point_7_50" cb altEll]
  by (simp add: flat_tileIndexOf)

section \<open>One fetch per tile index\<close>

lemma loadTerrain_miss:
  assumes "isFree (terrainLock t)" and "projectionId (segments t sid) = EPSG3857"
    and "elevationCache t (tileIndex (segments t sid)) = None"
  shows "loads (loadTerrain sid fl t) =
     loads t @ [\<lparr>l_src = getHTTPRequestString
                        (updSegment sid (\<lambda>s. s\<lparr>terrainReady := False, terrainIsLoading := True\<rparr>) t)
                        ((segments t sid)\<lparr>terrainReady := False, terrainIsLoading := True\<rparr>),
                l_segment = sid, l_forceLoading = fl, l_done = False\<rparr>]"
    and "loadEvents (loadTerrain sid fl t) = loadEvents t"
    and "segments (loadTerrain sid fl t) =
      (segments t)(sid := (segments t sid)\<lparr>terrainReady := False, terrainIsLoading := True\<rparr>)"
  using assms by (simp_all add: loadTerrain_def Let_def)

text \<open>
  C2, as the claim states it, fails: a segment load does not look at the fetch table.
  A ground-mode query for longitude 7, latitude 50.5 leaves a fetch pending for the
  tile \<open>(8510, 5893, 14)\<close>; \<^verbatim>\<open>loadTerrain\<close> for the segment of that tile then hands a load
  of its own to the loader, and two fetches are in flight for the one index.
\<close>

theorem loadTerrain_ignores_pending_fetch:
  "inFlight (8510, 5893, 14)
     (run flatCollab [GetHeightAsync GND point_7_50 0 100, LoadTerrain 0 False]
        freshTerrain) = 2"
  unfolding run_def foldl.simps step.simps first_query_fresh
  by (simp add: loadTerrain_def isFree_def inFlight_def
      pendingFetches_def pendingLoads_def requestKey_def requestOf_def flat_tile_7_50
      getTileIndex_def Let_def)

text \<open>
  C2, amended. Among the fetches of height queries at most one is pending for any tile
  index, whatever has happened; a ground-mode query whose tile is not cached and has
  a fetch record issues no fetch and attaches its continuation to that record.
  \<^verbatim>\<open>loadTerrain\<close> shares the elevation cache only: with the lock free, on a mercator
  segment whose tile is not cached, it issues a load and leaves the fetch table as
  it is.
\<close>

theorem one_pending_fetch_per_index:
  assumes "wellFormed t"
  shows "length (pendingFetches ix (run m evs t)) \<le> 1
    \<and> (elevationCache t (tileIndexOf m t lonLat) = None \<and> fetchCache t (tileIndexOf m t lonLat) = Some p \<longrightarrow>
         map fst (fetches (getHeightAsync m GND lonLat cb altEll t)) = map fst (fetches t)
         \<and> fetchCache (getHeightAsync m GND lonLat cb altEll t) = fetchCache t
         \<and> (\<exists>ks. snd (fetches t ! p) = Pending ks
               \<and> snd (fetches (getHeightAsync m GND lonLat cb altEll t) ! p) =
                   Pending (ks @ [continuationOf m t lonLat altEll cb])))
    \<and> (isFree (terrainLock t) \<and> projectionId (segments t sid) = EPSG3857
         \<and> elevationCache t (tileIndex (segments t sid)) = None \<longrightarrow>
         length (loads (loadTerrain sid forceLoading t)) = length (loads t) + 1
         \<and> fetchCache (loadTerrain sid forceLoading t) = fetchCache t)"
proof (intro conjI impI)
  show "length (pendingFetches ix (run m evs t)) \<le> 1"
    by (rule pendingFetches_at_most_one) (rule wellFormed_run [OF assms])
next
  assume a: "elevationCache t (tileIndexOf m t lonLat) = None \<and> fetchCache t (tileIndexOf m t lonLat) = Some p"
  then have none: "elevationCache t (tileIndexOf m t lonLat) = None"
    and some: "fetchCache t (tileIndexOf m t lonLat) = Some p" by simp_all
  note e = wellFormed_entry [OF assms some]
  from e(3) [OF none] obtain ks where ks: "snd (fetches t ! p) = Pending ks"
    using isPendingE by blast
  note eq = getHeightAsync_GND_miss_pending [OF none some e(1) ks, of cb altEll]
  show "map fst (fetches (getHeightAsync m GND lonLat cb altEll t)) = map fst (fetches t)"
    by (simp add: eq map_fst_update)
  show "fetchCache (getHeightAsync m GND lonLat cb altEll t) = fetchCache t"
    by (simp add: eq)
  show "\<exists>ks. snd (fetches t ! p) = Pending ks
      \<and> snd (fetches (getHeightAsync m GND lonLat cb altEll t) ! p) =
          Pending (ks @ [continuationOf m t lonLat altEll cb])"
    using ks e(1) by (simp add: eq)
next
  assume "isFree (terrainLock t) \<and> projectionId (segments t sid) = EPSG3857
      \<and> elevationCache t (tileIndex (segments t sid)) = None"
  then show "length (loads (loadTerrain sid forceLoading t)) = length (loads t) + 1"
    by (simp add: loadTerrain_miss)
next
  show "fetchCache (loadTerrain sid forceLoading t) = fetchCache t" by simp
qed

theorem one_pending_fetch_per_index_witness:
  "wellFormed (getHeightAsync flatCollab GND point_7_50 0 100 freshTerrain)
   \<and> length (pendingFetches (8510, 5893, 14)
        (run flatCollab [GetHeightAsync GND point_7_50 1 200]
           (getHeightAsync flatCollab GND point_7_50 0 100 freshTerrain))) \<le> 1
   \<and> elevationCache (getHeightAsync flatCollab GND point_7_50 0 100 freshTerrain)
        (8510, 5893, 14) = None
   \<and> fetchCache (getHeightAsync flatCollab GND point_7_50 0 100 freshTerrain)
        (8510, 5893, 14) = Some 0
   \<and> length (fetches (getHeightAsync flatCollab GND point_7_50 1 200
        (getHeightAsync flatCollab GND point_7_50 0 100 freshTerrain))) = 1
   \<and> isFree (terrainLock (getHeightAsync flatCollab GND point_7_50 0 100 freshTerrain))
   \<and> length (loads (loadTerrain 0 False
        (getHeightAsync flatCollab GND point_7_50 0 100 freshTerrain))) = 1"
proof -
  define t where "t = getHeightAsync flatCollab GND point_7_50 0 100 freshTerrain"
  have wf: "wellFormed t"
    unfolding t_def by (rule wellFormed_getHeightAsync [OF wellFormed_fresh])
  have ix: "tileIndexOf flatCollab t point_7_50 = (8510, 5893, 14)"
    using flat_tileIndexOf [of t] by (simp add: t_def)
  have f: "elevationCache t (8510, 5893, 14) = None" "fetchCache t (8510, 5893, 14) = Some 0"
    "isFree (terrainLock t)" "projectionId (segments t 0) = EPSG3857"
    "tileIndex (segments t 0) = (8510, 5893, 14)" "loads t = []" "length (fetches t) = 1"
    unfolding t_def first_query_fresh by (simp_all add: isFree_def)
  from one_pending_fetch_per_index [OF wf, of "(8510, 5893, 14)" flatCollab
      "[GetHeightAsync GND point_7_50 1 200]" "point_7_50" 0 1 200 0 False]
  have "length (pendingFetches (8510, 5893, 14)
        (run flatCollab [GetHeightAsync GND point_7_50 1 200] t)) \<le> 1"
    and "map fst (fetches (getHeightAsync flatCollab GND point_7_50 1 200 t)) = map fst (fetches t)"
    and "length (loads (loadTerrain 0 False t)) = length (loads t) + 1"
    unfolding ix using f by simp_all
  then have "length (pendingFetches (8510, 5893, 14)
        (run flatCollab [GetHeightAsync GND point_7_50 1 200] t)) \<le> 1"
    and "length (fetches (getHeightAsync flatCollab GND point_7_50 1 200 t)) = 1"
    and "length (loads (loadTerrain 0 False t)) = 1"
    using f(6,7) by (simp_all, metis length_map)
  then show ?thesis using wf f unfolding t_def by blast
qed

section \<open>A cached tile is never fetched again\<close>

lemma uncached_onFetchResponse:
  "elevationCache (onFetchResponse m r k t) ix = None \<Longrightarrow> elevationCache t ix = None"
  by (simp add: onFetchResponse_elevationCache split: option.splits if_splits)

lemma uncached_foldl:
  "elevationCache (foldl (\<lambda>s k. onFetchResponse m r k s) t ks) ix = None \<Longrightarrow>
     elevationCache t ix = None"
proof (induction ks arbitrary: t)
  case Nil
  then show ?case by simp
next
  case (Cons k ks)
  from Cons.prems have "elevationCache (onFetchResponse m r k t) ix = None"
    by (simp add: Cons.IH)
  then show ?case by (rule uncached_onFetchResponse)
qed

lemma uncached_thenDo:
  "elevationCache (thenDo m p k t) ix = None \<Longrightarrow> elevationCache t ix = None"
  by (auto simp: thenDo_def dest: uncached_onFetchResponse split: Promise.splits if_splits)

lemma getHeightAsync_GND_miss_some:
  assumes "elevationCache t (tileIndexOf m t lonLat) = None"
    and "fetchCache t (tileIndexOf m t lonLat) = Some p"
  shows "getHeightAsync m GND lonLat cb altEll t = thenDo m p (continuationOf m t lonLat altEll cb) t"
  using assms
  by (simp add: getHeightAsync_def ellToAltFn_def Let_def tileIndexOf_def continuationOf_def)

lemma uncached_getHeightAsync:
  assumes "elevationCache (getHeightAsync m mode lonLat cb altEll t) ix = None"
  shows "elevationCache t ix = None"
proof (cases mode)
  case GND
  show ?thesis
  proof (cases "elevationCache t (tileIndexOf m t lonLat)")
    case (Some cache)
    then show ?thesis using assms by (simp add: GND getHeightAsync_GND_hit)
  next
    case None
    show ?thesis
    proof (cases "fetchCache t (tileIndexOf m t lonLat)")
      case n: None
      show ?thesis using assms by (simp add: GND getHeightAsync_GND_miss_new [OF None n])
    next
      case (Some p)
      show ?thesis using assms uncached_thenDo
        by (simp add: GND getHeightAsync_GND_miss_some [OF None Some])
    qed
  qed
qed (use assms in \<open>simp_all add: getHeightAsync_def ellToAltFn_def\<close>)

lemma uncached_resolveFetch:
  "elevationCache (resolveFetch m p r t) ix = None \<Longrightarrow> elevationCache t ix = None"
  by (auto simp: resolveFetch_def dest: uncached_foldl split: Promise.splits if_splits)

lemma uncached_step:
  assumes "elevationCache (step m t e) ix = None"
  shows "elevationCache t ix = None"
proof (cases e)
  case (GetHeightAsync mode lonLat cb altEll)
  then show ?thesis using assms uncached_getHeightAsync by simp
next
  case (FetchResolves p r)
  then show ?thesis using assms uncached_resolveFetch by simp
next
  case (LoadResolves l r)
  then show ?thesis using assms elevationCache_resolveLoad by simp
qed (use assms in \<open>simp_all add: lockTerrain_def freeTerrain_def\<close>)

lemma cached_step:
  assumes "elevationCache t ix \<noteq> None"
  shows "elevationCache (step m t e) ix \<noteq> None"
proof
  assume "elevationCache (step m t e) ix = None"
  then have "elevationCache t ix = None" by (rule uncached_step)
  with assms show False by simp
qed

lemma keys_thenDo: "map fst (fetches (thenDo m p k t)) = map fst (fetches t)"
  by (simp add: thenDo_def map_fst_update split: Promise.splits)

lemma keys_resolveFetch: "map fst (fetches (resolveFetch m p r t)) = map fst (fetches t)"
  by (simp add: resolveFetch_def map_fst_update split: Promise.splits)

lemma keys_getHeightAsync:
  "map fst (fetches (getHeightAsync m mode lonLat cb altEll t)) =
     (if mode = GND \<and> elevationCache t (tileIndexOf m t lonLat) = None
         \<and> fetchCache t (tileIndexOf m t lonLat) = None
      then map fst (fetches t) @ [requestOf m t lonLat] else map fst (fetches t))"
proof (cases mode)
  case GND
  show ?thesis
  proof (cases "elevationCache t (tileIndexOf m t lonLat)")
    case (Some cache)
    then show ?thesis by (simp add: GND getHeightAsync_GND_hit)
  next
    case None
    show ?thesis
    proof (cases "fetchCache t (tileIndexOf m t lonLat)")
      case n: None
      show ?thesis using None n by (simp add: GND getHeightAsync_GND_miss_new [OF None n])
    next
      case (Some p)
      show ?thesis using Some
        by (simp add: GND getHeightAsync_GND_miss_some [OF None Some] keys_thenDo)
    qed
  qed
qed (simp_all add: getHeightAsync_def ellToAltFn_def)

lemma fetchCount_step:
  assumes "elevationCache t ix \<noteq> None"
  shows "fetchCount ix (step m t e) = fetchCount ix t"
proof (cases e)
  case (GetHeightAsync mode lonLat cb altEll)
  have "elevationCache t (tileIndexOf m t lonLat) = None \<Longrightarrow> requestKey (requestOf m t lonLat) \<noteq> ix"
    using assms by (auto simp: tileIndexOf_simps)
  then show ?thesis
    by (simp add: GetHeightAsync fetchCount_def keys_getHeightAsync)
qed (simp_all add: fetchCount_def keys_resolveFetch lockTerrain_def freeTerrain_def)

lemma tileIndex_applyElevationsData [simp]:
  "tileIndex (segments (applyElevationsData sid el t) s) = tileIndex (segments t s)"
  by (simp add: applyElevationsData_def Let_def)

lemma tileIndex_loadTerrain [simp]:
  "tileIndex (segments (loadTerrain sid fl t) s) = tileIndex (segments t s)"
  by (simp add: loadTerrain_def Let_def split: option.splits)

lemma tileIndex_onLoadResponse [simp]:
  "tileIndex (segments (onLoadResponse r sid t) s) = tileIndex (segments t s)"
  by (cases r) (simp_all add: onLoadResponse_def Let_def)

lemma tileIndex_resolveLoad [simp]:
  "tileIndex (segments (resolveLoad l r t) s) = tileIndex (segments t s)"
  by (simp add: resolveLoad_def)

lemma tileIndex_step [simp]:
  "tileIndex (segments (step m t e) s) = tileIndex (segments t s)"
  by (cases e) (simp_all add: lockTerrain_def freeTerrain_def)

lemma segs_resolveLoad: "map l_segment (loads (resolveLoad l r t)) = map l_segment (loads t)"
  by (simp add: resolveLoad_def map_update list_update_same_conv)

lemma segs_loadTerrain:
  "map l_segment (loads (loadTerrain sid fl t)) =
     (if isFree (terrainLock t) \<and> projectionId (segments t sid) = EPSG3857
         \<and> elevationCache t (tileIndex (segments t sid)) = None
      then map l_segment (loads t) @ [sid] else map l_segment (loads t))"
  by (simp add: loadTerrain_def Let_def split: option.splits)

lemma loadCount_step:
  assumes "elevationCache t ix \<noteq> None"
  shows "loadCount ix (step m t e) = loadCount ix t"
proof (cases e)
  case (LoadTerrain sid fl)
  have "elevationCache t (tileIndex (segments t sid)) = None \<Longrightarrow> tileIndex (segments t sid) \<noteq> ix"
    using assms by auto
  then show ?thesis by (simp add: LoadTerrain loadCount_def segs_loadTerrain)
qed (simp_all add: loadCount_def segs_resolveLoad lockTerrain_def freeTerrain_def)

lemma cached_run:
  assumes "elevationCache t ix \<noteq> None"
  shows "elevationCache (run m evs t) ix \<noteq> None
    \<and> fetchCount ix (run m evs t) = fetchCount ix t \<and> loadCount ix (run m evs t) = loadCount ix t"
  using assms unfolding run_def
proof (induction evs arbitrary: t)
  case Nil
  then show ?case by simp
next
  case (Cons e evs)
  note c = cached_step [OF Cons.prems, of m e]
  from Cons.IH [OF c] show ?case
    by (simp add: fetchCount_step [OF Cons.prems] loadCount_step [OF Cons.prems])
qed

lemma maxZoom_step [simp]: "maxZoom (step m t e) = maxZoom t"
  by (cases e) (simp_all add: lockTerrain_def freeTerrain_def)

lemma maxZoom_run [simp]: "maxZoom (run m evs t) = maxZoom t"
  unfolding run_def by (induction evs arbitrary: t) simp_all

section \<open>Resolutions of a ground-mode fetch\<close>

lemma same_config:
  assumes "maxZoom t' = maxZoom t" and "url t' = url t"
  shows "tileIndexOf m t' lonLat = tileIndexOf m t lonLat"
    and "requestOf m t' lonLat = requestOf m t lonLat"
    and "continuationOf m t' lonLat altEll cb = continuationOf m t lonLat altEll cb"
  using assms by (simp_all add: tileIndexOf_def requestOf_def continuationOf_def)

lemma miss_registers:
  assumes wf: "wellFormed t" and miss: "elevationCache t (tileIndexOf m t lonLat) = None"
  shows "\<exists>p ks. fetchCache (getHeightAsync m GND lonLat cb altEll t) (tileIndexOf m t lonLat) = Some p
      \<and> p < length (fetches (getHeightAsync m GND lonLat cb altEll t))
      \<and> snd (fetches (getHeightAsync m GND lonLat cb altEll t) ! p) =
          Pending (ks @ [continuationOf m t lonLat altEll cb])
      \<and> requestKey (fst (fetches (getHeightAsync m GND lonLat cb altEll t) ! p)) = tileIndexOf m t lonLat"
proof (cases "fetchCache t (tileIndexOf m t lonLat)")
  case None
  show ?thesis
    unfolding getHeightAsync_GND_miss_new [OF miss None]
    by (rule exI [of _ "length (fetches t)"], rule exI [of _ "[]"]) (simp add: tileIndexOf_simps)
next
  case (Some p)
  note e = wellFormed_entry [OF wf Some]
  from e(3) [OF miss] obtain ks where ks: "snd (fetches t ! p) = Pending ks"
    using isPendingE by blast
  show ?thesis
    unfolding getHeightAsync_GND_miss_pending [OF miss Some e(1) ks]
    by (rule exI [of _ p], rule exI [of _ ks]) (use Some e in simp)
qed

lemma miss_frame:
  assumes wf: "wellFormed t" and miss: "elevationCache t (tileIndexOf m t lonLat) = None"
  shows "elevationCache (getHeightAsync m GND lonLat cb altEll t) = elevationCache t"
    and "callbackLog (getHeightAsync m GND lonLat cb altEll t) = callbackLog t"
proof -
  have "elevationCache (getHeightAsync m GND lonLat cb altEll t) = elevationCache t
      \<and> callbackLog (getHeightAsync m GND lonLat cb altEll t) = callbackLog t"
  proof (cases "fetchCache t (tileIndexOf m t lonLat)")
    case None
    show ?thesis by (simp add: getHeightAsync_GND_miss_new [OF miss None])
  next
    case (Some p)
    note e = wellFormed_entry [OF wf Some]
    from e(3) [OF miss] obtain ks where ks: "snd (fetches t ! p) = Pending ks"
      using isPendingE by blast
    show ?thesis by (simp add: getHeightAsync_GND_miss_pending [OF miss Some e(1) ks])
  qed
  then show "elevationCache (getHeightAsync m GND lonLat cb altEll t) = elevationCache t"
    and "callbackLog (getHeightAsync m GND lonLat cb altEll t) = callbackLog t" by simp_all
qed

lemma answerOf_Error: "concat (map (answerOf m Error) ks) = map (\<lambda>k. (k_callback k, Some (k_altEll k - k_altMsl k))) ks"
  by (induction ks) (simp_all add: answerOf_def)

lemma answerOf_Abort: "concat (map (answerOf m Abort) ks) = []"
  by (induction ks) (simp_all add: answerOf_def)

section \<open>A fetch that fails\<close>

lemma first_query_fresh_entry:
  "fetchCache (getHeightAsync flatCollab GND point_7_50 cb altEll freshTerrain)
     (tileIndexOf flatCollab freshTerrain point_7_50) = Some 0"
  "snd (fetches (getHeightAsync flatCollab GND point_7_50 cb altEll freshTerrain) ! 0) =
     Pending ([] @ [continuationOf flatCollab freshTerrain point_7_50 altEll cb])"
  unfolding first_query_fresh by (simp_all add: flat_tileIndexOf)

lemma flat_geoid [simp]: "getHeightLonLat flatCollab q = 47"
  by (simp add: flatCollab_def)

text \<open>
  C4. A ground-mode query misses the cache and is attached to the fetch record \<open>p\<close>
  of its tile, behind the continuations \<open>ks\<close> already waiting there. When that fetch
  resolves with the status error: the cache holds for the tile index the sentinel, an
  empty height grid with the tile's extent; every waiting continuation is called with
  its ellipsoidal altitude minus its geoid undulation only, this query's last; and from
  then on, whatever events follow, a ground-mode query for that tile index issues no
  fetch and no load, and the counts of fetches and of loads ever issued for the index
  stay what they were.
\<close>

theorem fetch_error_caches_sentinel:
  assumes wf: "wellFormed t" and miss: "elevationCache t (tileIndexOf m t lonLat) = None"
    and p: "fetchCache (getHeightAsync m GND lonLat cb altEll t) (tileIndexOf m t lonLat) = Some p"
    and ks: "snd (fetches (getHeightAsync m GND lonLat cb altEll t) ! p) =
        Pending (ks @ [continuationOf m t lonLat altEll cb])"
  shows "let t2 = resolveFetch m p Error (getHeightAsync m GND lonLat cb altEll t)
       in elevationCache t2 (tileIndexOf m t lonLat) =
            Some \<lparr>heights = [],
                  extent = getTileExtent m (getTileX m (lon lonLat) (maxZoom t))
                             (getTileY m (lat lonLat) (maxZoom t)) (maxZoom t)\<rparr>
        \<and> callbackLog t2 =
            callbackLog t @ map (\<lambda>k. (k_callback k, Some (k_altEll k - k_altMsl k))) ks
              @ [(cb, Some (altEll - getHeightLonLat m lonLat))]
        \<and> (tileIndexOf m t lonLat' = tileIndexOf m t lonLat \<longrightarrow>
             fetches (getHeightAsync m GND lonLat' cb' altEll' (run m evs t2)) = fetches (run m evs t2)
             \<and> loads (getHeightAsync m GND lonLat' cb' altEll' (run m evs t2)) = loads (run m evs t2))
        \<and> fetchCount (tileIndexOf m t lonLat) (run m evs t2) = fetchCount (tileIndexOf m t lonLat) t2
        \<and> loadCount (tileIndexOf m t lonLat) (run m evs t2) = loadCount (tileIndexOf m t lonLat) t2"
proof -
  define ix where "ix = tileIndexOf m t lonLat"
  define t1 where "t1 = getHeightAsync m GND lonLat cb altEll t"
  have wf1: "wellFormed t1" unfolding t1_def by (rule wellFormed_getHeightAsync [OF wf])
  note e = wellFormed_entry [OF wf1 p [folded t1_def]]
  define t2 where "t2 = resolveFetch m p Error t1"
  note f = resolveFetch_fields [OF wf1 e(1) ks [folded t1_def], of m Error, folded t2_def,
      unfolded e(2), folded ix_def]
  note fr = miss_frame [OF wf miss, of cb altEll, folded t1_def]
  have c: "elevationCache t2 ix =
      Some \<lparr>heights = [],
            extent = getTileExtent m (getTileX m (lon lonLat) (maxZoom t))
                       (getTileY m (lat lonLat) (maxZoom t)) (maxZoom t)\<rparr>"
    by (simp add: f(3) cacheOf_def ix_def tileIndexOf_def getTileIndex_def)
  have l: "callbackLog t2 =
      callbackLog t @ map (\<lambda>k. (k_callback k, Some (k_altEll k - k_altMsl k))) ks
        @ [(cb, Some (altEll - getHeightLonLat m lonLat))]"
    by (simp add: f(4) fr answerOf_Error continuationOf_def answerOf_def)
  from c have ne: "elevationCache t2 ix \<noteq> None" by simp
  note r = cached_run [OF ne, of m evs]
  have z: "maxZoom (run m evs t2) = maxZoom t"
    by (simp add: t2_def t1_def)
  have hit: "tileIndexOf m t lonLat' = ix \<longrightarrow>
      fetches (getHeightAsync m GND lonLat' cb' altEll' (run m evs t2)) = fetches (run m evs t2)
      \<and> loads (getHeightAsync m GND lonLat' cb' altEll' (run m evs t2)) = loads (run m evs t2)"
  proof
    assume a: "tileIndexOf m t lonLat' = ix"
    have "tileIndexOf m (run m evs t2) lonLat' = ix"
      using a z by (simp add: tileIndexOf_def)
    with r obtain cache where "elevationCache (run m evs t2) (tileIndexOf m (run m evs t2) lonLat') = Some cache"
      by auto
    from getHeightAsync_GND_hit [OF this]
    show "fetches (getHeightAsync m GND lonLat' cb' altEll' (run m evs t2)) = fetches (run m evs t2)
      \<and> loads (getHeightAsync m GND lonLat' cb' altEll' (run m evs t2)) = loads (run m evs t2)"
      by simp
  qed
  show ?thesis
    unfolding Let_def
    using c l hit r
    unfolding t1_def t2_def ix_def by blast
qed

theorem fetch_error_caches_sentinel_witness:
  "wellFormed freshTerrain
   \<and> elevationCache freshTerrain (tileIndexOf flatCollab freshTerrain point_7_50) = None
   \<and> fetchCache (getHeightAsync flatCollab GND point_7_50 0 100 freshTerrain)
        (tileIndexOf flatCollab freshTerrain point_7_50) = Some 0
   \<and> elevationCache
        (resolveFetch flatCollab 0 Error (getHeightAsync flatCollab GND point_7_50 0 100 freshTerrain))
        (8510, 5893, 14) =
       Some \<lparr>heights = [], extent = getTileExtent flatCollab 8510 5893 14\<rparr>
   \<and> callbackLog
        (resolveFetch flatCollab 0 Error (getHeightAsync flatCollab GND point_7_50 0 100 freshTerrain)) =
       [(0, Some 53)]
   \<and> fetches (getHeightAsync flatCollab GND point_7_50 1 200
        (resolveFetch flatCollab 0 Error (getHeightAsync flatCollab GND point_7_50 0 100 freshTerrain))) =
       fetches (resolveFetch flatCollab 0 Error (getHeightAsync flatCollab GND point_7_50 0 100 freshTerrain))"
proof -
  have miss: "elevationCache freshTerrain (tileIndexOf flatCollab freshTerrain point_7_50) = None"
    by simp
  note th = fetch_error_caches_sentinel [OF wellFormed_fresh miss first_query_fresh_entry,
      where lonLat' = point_7_50 and cb' = 1 and altEll' = 200 and evs = "[]"
        and cb = 0 and altEll = 100]
  have ix: "tileIndexOf flatCollab freshTerrain point_7_50 = (8510, 5893, 14)"
    by (simp add: flat_tileIndexOf)
  from th show ?thesis
    unfolding Let_def ix
    using wellFormed_fresh first_query_fresh_entry(1) [of 0 100]
    by (simp add: run_def flat_tile_7_50 ix)
qed

section \<open>A fetch that is aborted\<close>

lemma resolveLoad_pending:
  assumes "l < length (loads t)" and "\<not> l_done (loads t ! l)"
  shows "resolveLoad l r t =
     onLoadResponse r (l_segment (loads t ! l))
       (t\<lparr>loads := (loads t)[l := (loads t ! l)\<lparr>l_done := True\<rparr>]\<rparr>)"
  using assms by (simp add: resolveLoad_def)

lemma load_then_abort:
  assumes free: "isFree (terrainLock t)" and merc: "projectionId (segments t sid) = EPSG3857"
    and miss: "elevationCache t (tileIndex (segments t sid)) = None"
  shows "elevationCache (resolveLoad (length (loads t)) Abort (loadTerrain sid fl t)) = elevationCache t"
    and "loadEvents (resolveLoad (length (loads t)) Abort (loadTerrain sid fl t)) = loadEvents t"
    and "callbackLog (resolveLoad (length (loads t)) Abort (loadTerrain sid fl t)) = callbackLog t"
    and "terrainLock (resolveLoad (length (loads t)) Abort (loadTerrain sid fl t)) = terrainLock t"
    and "segments (resolveLoad (length (loads t)) Abort (loadTerrain sid fl t)) sid =
      (segments t sid)\<lparr>terrainReady := False, terrainIsLoading := False\<rparr>"
proof -
  note lt = loadTerrain_miss [OF assms, of fl]
  have a: "length (loads t) < length (loads (loadTerrain sid fl t))"
    and b: "\<not> l_done (loads (loadTerrain sid fl t) ! length (loads t))"
    and c: "l_segment (loads (loadTerrain sid fl t) ! length (loads t)) = sid"
    by (simp_all add: lt(1))
  note eq = resolveLoad_pending [OF a b, of Abort, unfolded c]
  show "elevationCache (resolveLoad (length (loads t)) Abort (loadTerrain sid fl t)) = elevationCache t"
    by (simp add: eq onLoadResponse_def)
  show "loadEvents (resolveLoad (length (loads t)) Abort (loadTerrain sid fl t)) = loadEvents t"
    by (simp add: eq onLoadResponse_def lt(2))
  show "callbackLog (resolveLoad (length (loads t)) Abort (loadTerrain sid fl t)) = callbackLog t"
    by simp
  show "terrainLock (resolveLoad (length (loads t)) Abort (loadTerrain sid fl t)) = terrainLock t"
    by simp
  show "segments (resolveLoad (length (loads t)) Abort (loadTerrain sid fl t)) sid =
      (segments t sid)\<lparr>terrainReady := False, terrainIsLoading := False\<rparr>"
    by (simp add: eq onLoadResponse_def lt(3))
qed

text \<open>
  C5. When the fetch of a ground-mode query resolves with the status abort, the
  elevation cache is what it was before the query, the fetch record of the tile index
  is gone, no callback has run, and the next ground-mode query for that index issues a
  fresh fetch. When the load of a segment resolves with abort, the elevation cache,
  the \<^verbatim>\<open>load\<close> events and the callbacks are what they were, nothing was applied to the
  segment, the segment is marked not-loading, and the next \<^verbatim>\<open>loadTerrain\<close> for it issues
  a fresh load.
\<close>

theorem fetch_abort_discards_record:
  assumes wf: "wellFormed t" and miss: "elevationCache t (tileIndexOf m t lonLat) = None"
    and p: "fetchCache (getHeightAsync m GND lonLat cb altEll t) (tileIndexOf m t lonLat) = Some p"
    and ks: "snd (fetches (getHeightAsync m GND lonLat cb altEll t) ! p) =
        Pending (ks @ [continuationOf m t lonLat altEll cb])"
  shows "(let t2 = resolveFetch m p Abort (getHeightAsync m GND lonLat cb altEll t)
        in elevationCache t2 = elevationCache t
         \<and> fetchCache t2 (tileIndexOf m t lonLat) = None
         \<and> callbackLog t2 = callbackLog t
         \<and> (tileIndexOf m t lonLat' = tileIndexOf m t lonLat \<longrightarrow>
              fetches (getHeightAsync m GND lonLat' cb' altEll' t2) =
                fetches t2 @ [(requestOf m t lonLat', Pending [continuationOf m t lonLat' altEll' cb'])]))
    \<and> (isFree (terrainLock t) \<and> projectionId (segments t sid) = EPSG3857
         \<and> elevationCache t (tileIndex (segments t sid)) = None \<longrightarrow>
        (let s2 = resolveLoad (length (loads t)) Abort (loadTerrain sid forceLoading t)
         in elevationCache s2 = elevationCache t
          \<and> loadEvents s2 = loadEvents t
          \<and> callbackLog s2 = callbackLog t
          \<and> appliedTerrain (segments s2 sid) = appliedTerrain (segments t sid)
          \<and> terrainIsLoading (segments s2 sid) = False
          \<and> length (loads (loadTerrain sid forceLoading' s2)) = length (loads s2) + 1))"
proof (intro conjI impI)
  define ix where "ix = tileIndexOf m t lonLat"
  define t1 where "t1 = getHeightAsync m GND lonLat cb altEll t"
  have wf1: "wellFormed t1" unfolding t1_def by (rule wellFormed_getHeightAsync [OF wf])
  note e = wellFormed_entry [OF wf1 p [folded t1_def]]
  define t2 where "t2 = resolveFetch m p Abort t1"
  note f = resolveFetch_fields [OF wf1 e(1) ks [folded t1_def], of m Abort, folded t2_def,
      unfolded e(2), folded ix_def]
  note fr = miss_frame [OF wf miss, of cb altEll, folded t1_def]
  have c: "elevationCache t2 = elevationCache t" by (simp add: f(3) cacheOf_def fr)
  have fc: "fetchCache t2 ix = None" by (simp add: f(2))
  have l: "callbackLog t2 = callbackLog t" by (simp add: f(4) fr answerOf_Abort answerOf_def)
  have cfg: "maxZoom t2 = maxZoom t" "url t2 = url t" by (simp_all add: t2_def t1_def)
  have again: "tileIndexOf m t lonLat' = ix \<longrightarrow>
      fetches (getHeightAsync m GND lonLat' cb' altEll' t2) =
        fetches t2 @ [(requestOf m t lonLat', Pending [continuationOf m t lonLat' altEll' cb'])]"
  proof
    assume a: "tileIndexOf m t lonLat' = ix"
    note s = same_config [OF cfg, of m lonLat']
    have m1: "elevationCache t2 (tileIndexOf m t2 lonLat') = None"
      using miss by (simp add: s(1) a c ix_def)
    have m2: "fetchCache t2 (tileIndexOf m t2 lonLat') = None"
      by (simp add: s(1) a fc)
    show "fetches (getHeightAsync m GND lonLat' cb' altEll' t2) =
        fetches t2 @ [(requestOf m t lonLat', Pending [continuationOf m t lonLat' altEll' cb'])]"
      by (simp add: getHeightAsync_GND_miss_new [OF m1 m2] s)
  qed
  show "let t2 = resolveFetch m p Abort (getHeightAsync m GND lonLat cb altEll t)
        in elevationCache t2 = elevationCache t
         \<and> fetchCache t2 (tileIndexOf m t lonLat) = None
         \<and> callbackLog t2 = callbackLog t
         \<and> (tileIndexOf m t lonLat' = tileIndexOf m t lonLat \<longrightarrow>
              fetches (getHeightAsync m GND lonLat' cb' altEll' t2) =
                fetches t2 @ [(requestOf m t lonLat', Pending [continuationOf m t lonLat' altEll' cb'])])"
    unfolding Let_def using c fc l again unfolding t2_def t1_def ix_def by blast
next
  assume a: "isFree (terrainLock t) \<and> projectionId (segments t sid) = EPSG3857
      \<and> elevationCache t (tileIndex (segments t sid)) = None"
  then have free: "isFree (terrainLock t)" and merc: "projectionId (segments t sid) = EPSG3857"
    and miss': "elevationCache t (tileIndex (segments t sid)) = None" by simp_all
  define s2 where "s2 = resolveLoad (length (loads t)) Abort (loadTerrain sid forceLoading t)"
  note la = load_then_abort [OF free merc miss', of forceLoading, folded s2_def]
  have again: "length (loads (loadTerrain sid forceLoading' s2)) = length (loads s2) + 1"
  proof -
    have "isFree (terrainLock s2)" using free by (simp add: la(4))
    moreover have "projectionId (segments s2 sid) = EPSG3857" using merc by (simp add: la(5))
    moreover have "elevationCache s2 (tileIndex (segments s2 sid)) = None"
      using miss' by (simp add: la(1,5))
    ultimately show ?thesis by (simp add: loadTerrain_miss)
  qed
  show "let s2 = resolveLoad (length (loads t)) Abort (loadTerrain sid forceLoading t)
         in elevationCache s2 = elevationCache t
          \<and> loadEvents s2 = loadEvents t
          \<and> callbackLog s2 = callbackLog t
          \<and> appliedTerrain (segments s2 sid) = appliedTerrain (segments t sid)
          \<and> terrainIsLoading (segments s2 sid) = False
          \<and> length (loads (loadTerrain sid forceLoading' s2)) = length (loads s2) + 1"
    unfolding Let_def s2_def [symmetric] using la again by simp
qed

theorem fetch_abort_discards_record_witness:
  "wellFormed freshTerrain
   \<and> elevationCache freshTerrain (tileIndexOf flatCollab freshTerrain point_7_50) = None
   \<and> fetchCache (getHeightAsync flatCollab GND point_7_50 0 100 freshTerrain)
        (tileIndexOf flatCollab freshTerrain point_7_50) = Some 0
   \<and> elevationCache
        (resolveFetch flatCollab 0 Abort (getHeightAsync flatCollab GND point_7_50 0 100 freshTerrain))
        (8510, 5893, 14) = None
   \<and> fetchCache
        (resolveFetch flatCollab 0 Abort (getHeightAsync flatCollab GND point_7_50 0 100 freshTerrain))
        (8510, 5893, 14) = None
   \<and> callbackLog
        (resolveFetch flatCollab 0 Abort (getHeightAsync flatCollab GND point_7_50 0 100 freshTerrain)) = []
   \<and> length (fetches (getHeightAsync flatCollab GND point_7_50 1 200
        (resolveFetch flatCollab 0 Abort (getHeightAsync flatCollab GND point_7_50 0 100 freshTerrain)))) = 2
   \<and> isFree (terrainLock freshTerrain) \<and> projectionId (segments freshTerrain 0) = EPSG3857
   \<and> elevationCache freshTerrain (tileIndex (segments freshTerrain 0)) = None
   \<and> elevationCache (resolveLoad 0 Abort (loadTerrain 0 False freshTerrain)) (8510, 5893, 14) = None
   \<and> loadEvents (resolveLoad 0 Abort (loadTerrain 0 False freshTerrain)) = []
   \<and> appliedTerrain (segments (resolveLoad 0 Abort (loadTerrain 0 False freshTerrain)) 0) = []
   \<and> terrainIsLoading (segments (resolveLoad 0 Abort (loadTerrain 0 False freshTerrain)) 0) = False
   \<and> length (loads (loadTerrain 0 False (resolveLoad 0 Abort (loadTerrain 0 False freshTerrain)))) = 2"
proof -
  have miss: "elevationCache freshTerrain (tileIndexOf flatCollab freshTerrain point_7_50) = None"
    by simp
  have pre: "isFree (terrainLock freshTerrain)" "projectionId (segments freshTerrain 0) = EPSG3857"
    "elevationCache freshTerrain (tileIndex (segments freshTerrain 0)) = None"
    by (simp_all add: isFree_def)
  note th = fetch_abort_discards_record [OF wellFormed_fresh miss first_query_fresh_entry,
      where lonLat' = point_7_50 and cb' = 1 and altEll' = 200 and cb = 0 and altEll = 100
        and sid = 0 and forceLoading = False and forceLoading' = False]
  have ix: "tileIndexOf flatCollab freshTerrain point_7_50 = (8510, 5893, 14)"
    by (simp add: flat_tileIndexOf)
  have n: "length (fetches (resolveFetch flatCollab 0 Abort
      (getHeightAsync flatCollab GND point_7_50 0 100 freshTerrain))) = 1"
    unfolding first_query_fresh by simp
  have l: "length (loads (resolveLoad 0 Abort (loadTerrain 0 False freshTerrain))) = 1"
    by (simp add: loadTerrain_miss [OF pre])
  from th show ?thesis
    unfolding Let_def ix
    using wellFormed_fresh first_query_fresh_entry(1) [of 0 100] pre n l
    by (simp add: ix)
qed

section \<open>Ground height inside a tile\<close>

lemma arrayGet_of_int:
  "0 \<le> q \<Longrightarrow> q < int (length hs) \<Longrightarrow> arrayGet hs (real_of_int q) = Some (hs ! nat q)"
  by (simp add: arrayGet_def)

lemma splitsCellsD:
  assumes "splitsCells m" and "0 < s"
    and "lon v0 \<le> lon p" "lon p \<le> lon v0 + s" "lat v0 \<le> lat p" "lat p \<le> lat v0 + s"
  shows "fst (cartesianToBarycentricLonLat m p v0
               \<lparr>lon = lon v0 + s, lat = lat v0\<rparr> \<lparr>lon = lon v0, lat = lat v0 + s\<rparr>)
        \<or> fst (cartesianToBarycentricLonLat m p
               \<lparr>lon = lon v0 + s, lat = lat v0\<rparr> \<lparr>lon = lon v0, lat = lat v0 + s\<rparr>
               \<lparr>lon = lon v0 + s, lat = lat v0 + s\<rparr>)"
  using assms unfolding splitsCells_def by blast

lemma cell_index_bounds:
  fixes ii jj :: int and n :: nat
  assumes "0 \<le> ii" "ii + 1 < int n" "0 \<le> jj" "jj + 1 < int n"
  shows "0 \<le> ii * int n + jj" and "ii * int n + jj + 1 < int (n * n)"
    and "0 \<le> (ii + 1) * int n + jj" and "(ii + 1) * int n + jj + 1 < int (n * n)"
proof -
  have a: "0 \<le> ii * int n" using assms by simp
  show "0 \<le> ii * int n + jj" using a assms by linarith
  have b: "(ii + 1) * int n \<le> (int n - 1) * int n"
    by (rule mult_right_mono) (use assms in simp_all)
  have c: "(int n - 1) * int n + int n = int (n * n)"
    by (simp add: algebra_simps)
  show "(ii + 1) * int n + jj + 1 < int (n * n)" using b c assms by linarith
  have d: "ii * int n \<le> (ii + 1) * int n"
    by (rule mult_right_mono) simp_all
  show "ii * int n + jj + 1 < int (n * n)" using b c d assms by linarith
  show "0 \<le> (ii + 1) * int n + jj" using a d assms by linarith
qed

lemma interpolateCell_inside:
  assumes n: "length (heights td) = n * n"
    and ii: "0 \<le> ii" "ii + 1 < int n" and jj: "0 \<le> jj" "jj + 1 < int n"
    and s: "0 < sz"
    and cell: "lon (southWest (extent td)) + sz * real_of_int jj \<le> lon merc"
      "lon merc \<le> lon (southWest (extent td)) + sz * real_of_int jj + sz"
      "lat (northEast (extent td)) - sz * real_of_int ii - sz \<le> lat merc"
      "lat merc \<le> lat (northEast (extent td)) - sz * real_of_int ii - sz + sz"
    and split: "splitsCells m"
  shows "\<exists>a \<in> set (heights td). \<exists>b \<in> set (heights td). \<exists>c \<in> set (heights td). \<exists>c0 c1 c2.
      interpolateCell m merc td (real n) sz (real_of_int ii) (real_of_int jj) =
        Some (a * c0 + b * c1 + c * c2)"
proof -
  define q0 where "q0 = (ii + 1) * int n + jj"
  define q2 where "q2 = ii * int n + jj"
  note bd = cell_index_bounds [OF ii jj, folded q0_def q2_def, folded n]
  have idx: "(real_of_int ii + 1) * real n + real_of_int jj = real_of_int q0"
    "real_of_int ii * real n + real_of_int jj = real_of_int q2"
    by (simp_all add: q0_def q2_def)
  have idx': "real_of_int q0 + 1 = real_of_int (q0 + 1)" "real_of_int q2 + 1 = real_of_int (q2 + 1)"
    by simp_all
  have h: "arrayGet (heights td) (real_of_int q0) = Some (heights td ! nat q0)"
    "arrayGet (heights td) (real_of_int (q0 + 1)) = Some (heights td ! nat (q0 + 1))"
    "arrayGet (heights td) (real_of_int q2) = Some (heights td ! nat q2)"
    "arrayGet (heights td) (real_of_int (q2 + 1)) = Some (heights td ! nat (q2 + 1))"
    by (rule arrayGet_of_int; use bd in linarith)+
  have mem: "heights td ! nat q0 \<in> set (heights td)" "heights td ! nat (q0 + 1) \<in> set (heights td)"
    "heights td ! nat q2 \<in> set (heights td)" "heights td ! nat (q2 + 1) \<in> set (heights td)"
    using bd by (simp_all add: nat_less_iff)
  define v0 where "v0 = \<lparr>lon = lon (southWest (extent td)) + sz * real_of_int jj,
                         lat = lat (northEast (extent td)) - sz * real_of_int ii - sz\<rparr>"
  define v1 where "v1 = \<lparr>lon = lon v0 + sz, lat = lat v0\<rparr>"
  define v2 where "v2 = \<lparr>lon = lon v0, lat = lat v0 + sz\<rparr>"
  define v3 where "v3 = \<lparr>lon = lon v0 + sz, lat = lat v0 + sz\<rparr>"
  have eq: "interpolateCell m merc td (real n) sz (real_of_int ii) (real_of_int jj) =
      (case cartesianToBarycentricLonLat m merc v0 v1 v2 of
           (True, c0, c1, c2) \<Rightarrow>
             jsadd (jsadd (jsmul (Some (heights td ! nat q0)) (Some c0))
                          (jsmul (Some (heights td ! nat (q0 + 1))) (Some c1)))
                   (jsmul (Some (heights td ! nat q2)) (Some c2))
         | (False, _) \<Rightarrow>
            (case cartesianToBarycentricLonLat m merc v1 v2 v3 of
               (True, c0, c1, c2) \<Rightarrow>
                 jsadd (jsadd (jsmul (Some (heights td ! nat (q0 + 1))) (Some c0))
                              (jsmul (Some (heights td ! nat q2)) (Some c1)))
                       (jsmul (Some (heights td ! nat (q2 + 1))) (Some c2))
             | (False, _) \<Rightarrow> None))"
    unfolding interpolateCell_def Let_def idx idx' h v0_def [symmetric]
    unfolding v1_def [symmetric] v2_def [symmetric]
    unfolding v3_def [symmetric] ..
  have "fst (cartesianToBarycentricLonLat m merc v0 v1 v2)
      \<or> fst (cartesianToBarycentricLonLat m merc v1 v2 v3)"
    unfolding v1_def v2_def v3_def
    by (rule splitsCellsD [OF split s]) (use cell in \<open>simp_all add: v0_def\<close>)
  then show ?thesis
  proof
    assume a: "fst (cartesianToBarycentricLonLat m merc v0 v1 v2)"
    obtain c0 c1 c2 where "cartesianToBarycentricLonLat m merc v0 v1 v2 = (True, c0, c1, c2)"
      using a by (cases "cartesianToBarycentricLonLat m merc v0 v1 v2") auto
    then have "interpolateCell m merc td (real n) sz (real_of_int ii) (real_of_int jj) =
        Some (heights td ! nat q0 * c0 + heights td ! nat (q0 + 1) * c1 + heights td ! nat q2 * c2)"
      by (simp add: eq jsadd_def jsmul_def)
    then show ?thesis using mem by blast
  next
    assume a: "fst (cartesianToBarycentricLonLat m merc v1 v2 v3)"
    obtain c0 c1 c2 where b: "cartesianToBarycentricLonLat m merc v1 v2 v3 = (True, c0, c1, c2)"
      using a by (cases "cartesianToBarycentricLonLat m merc v1 v2 v3") auto
    show ?thesis
    proof (cases "fst (cartesianToBarycentricLonLat m merc v0 v1 v2)")
      case True
      obtain d0 d1 d2 where "cartesianToBarycentricLonLat m merc v0 v1 v2 = (True, d0, d1, d2)"
        using True by (cases "cartesianToBarycentricLonLat m merc v0 v1 v2") auto
      then have "interpolateCell m merc td (real n) sz (real_of_int ii) (real_of_int jj) =
          Some (heights td ! nat q0 * d0 + heights td ! nat (q0 + 1) * d1 + heights td ! nat q2 * d2)"
        by (simp add: eq jsadd_def jsmul_def)
      then show ?thesis using mem by blast
    next
      case False
      obtain d where "cartesianToBarycentricLonLat m merc v0 v1 v2 = (False, d)"
        using False by (cases "cartesianToBarycentricLonLat m merc v0 v1 v2") auto
      with b have "interpolateCell m merc td (real n) sz (real_of_int ii) (real_of_int jj) =
          Some (heights td ! nat (q0 + 1) * c0 + heights td ! nat q2 * c1 + heights td ! nat (q2 + 1) * c2)"
        by (simp add: eq jsadd_def jsmul_def)
      then show ?thesis using mem by blast
    qed
  qed
qed

lemma getGroundHeight_inside:
  assumes n: "2 \<le> n" "length (heights td) = n * n"
    and sq: "0 < getWidth (extent td)" "getHeight (extent td) = getWidth (extent td)"
    and inside: "lon (southWest (extent td)) \<le> lon (forward m p)"
      "lon (forward m p) < lon (northEast (extent td))"
      "lat (southWest (extent td)) < lat (forward m p)"
      "lat (forward m p) \<le> lat (northEast (extent td))"
    and split: "splitsCells m"
  shows "\<exists>a \<in> set (heights td). \<exists>b \<in> set (heights td). \<exists>c \<in> set (heights td). \<exists>c0 c1 c2.
      getGroundHeight m p td = Some (a * c0 + b * c1 + c * c2)"
proof -
  define w where "w = getWidth (extent td)"
  define sz where "sz = getWidth (extent td) / (real n - 1)"
  define swlon where "swlon = lon (southWest (extent td))"
  define swlat where "swlat = lat (southWest (extent td))"
  define nelat where "nelat = lat (northEast (extent td))"
  define mlon where "mlon = lon (forward m p)"
  define mlat where "mlat = lat (forward m p)"
  define k where "k = \<lceil>(mlat - swlat) / sz\<rceil>"
  define jj where "jj = \<lfloor>(mlon - swlon) / sz\<rfloor>"
  define ii where "ii = int n - k - 1"
  have n1: "0 < real n - 1" using n(1) by simp
  have gs: "sqrt (real (length (heights td))) = real n"
    by (simp add: n(2))
  have sz: "0 < sz" using sq(1) n1 by (simp add: sz_def)
  have wsz: "w = sz * (real n - 1)" using n1 by (simp add: sz_def w_def)
  have ne: "nelat = swlat + w" "lon (northEast (extent td)) = swlon + w"
    using sq(2) by (simp_all add: getHeight_def getWidth_def nelat_def swlat_def swlon_def w_def)
  \<comment> \<open>the row\<close>
  have a_pos: "0 < (mlat - swlat) / sz" using inside(3) sz by (simp add: mlat_def swlat_def)
  have "mlat - swlat \<le> sz * (real n - 1)"
    using inside(4) ne(1) wsz by (simp add: mlat_def nelat_def)
  then have a_le: "(mlat - swlat) / sz \<le> real n - 1"
    using sz by (simp add: pos_divide_le_eq mult.commute)
  have k1: "1 \<le> k" using a_pos unfolding k_def by linarith
  have "(mlat - swlat) / sz \<le> real_of_int (int n - 1)" using a_le by simp
  then have k2: "k \<le> int n - 1" unfolding k_def by (rule ceiling_le)
  have ii: "0 \<le> ii" "ii + 1 < int n" using k1 k2 by (simp_all add: ii_def)
  have kc: "real_of_int k - 1 < (mlat - swlat) / sz" "(mlat - swlat) / sz \<le> real_of_int k"
    unfolding k_def by linarith+
  have row1: "sz * (real_of_int k - 1) \<le> mlat - swlat"
  proof -
    have "sz * (real_of_int k - 1) \<le> sz * ((mlat - swlat) / sz)"
      by (rule mult_left_mono) (use kc sz in simp_all)
    then show ?thesis using sz by simp
  qed
  have row2: "mlat - swlat \<le> sz * real_of_int k"
  proof -
    have "sz * ((mlat - swlat) / sz) \<le> sz * real_of_int k"
      by (rule mult_left_mono) (use kc sz in simp_all)
    then show ?thesis using sz by simp
  qed
  \<comment> \<open>the column\<close>
  have b_nn: "0 \<le> (mlon - swlon) / sz" using inside(1) sz by (simp add: mlon_def swlon_def)
  have "mlon - swlon < sz * (real n - 1)"
    using inside(2) ne(2) wsz by (simp add: mlon_def)
  then have b_lt: "(mlon - swlon) / sz < real n - 1"
    using sz by (simp add: pos_divide_less_eq mult.commute)
  have j1: "0 \<le> jj" using b_nn unfolding jj_def by simp
  have "(mlon - swlon) / sz < real_of_int (int n - 1)" using b_lt by simp
  then have "jj < int n - 1" unfolding jj_def by (simp add: floor_less_iff)
  then have jj: "0 \<le> jj" "jj + 1 < int n" using j1 by simp_all
  have jc: "real_of_int jj \<le> (mlon - swlon) / sz" "(mlon - swlon) / sz < real_of_int jj + 1"
    unfolding jj_def by linarith+
  have col1: "sz * real_of_int jj \<le> mlon - swlon"
  proof -
    have "sz * real_of_int jj \<le> sz * ((mlon - swlon) / sz)"
      by (rule mult_left_mono) (use jc sz in simp_all)
    then show ?thesis using sz by simp
  qed
  have col2: "mlon - swlon \<le> sz * (real_of_int jj + 1)"
  proof -
    have "sz * ((mlon - swlon) / sz) \<le> sz * (real_of_int jj + 1)"
      by (rule mult_left_mono) (use jc sz in simp_all)
    then show ?thesis using sz by simp
  qed
  \<comment> \<open>the cell contains the point\<close>
  have lat0: "nelat - sz * real_of_int ii - sz = swlat + sz * (real_of_int k - 1)"
    by (simp add: ne(1) wsz ii_def algebra_simps)
  have cell: "lon (southWest (extent td)) + sz * real_of_int jj \<le> lon (forward m p)"
    "lon (forward m p) \<le> lon (southWest (extent td)) + sz * real_of_int jj + sz"
    "lat (northEast (extent td)) - sz * real_of_int ii - sz \<le> lat (forward m p)"
    "lat (forward m p) \<le> lat (northEast (extent td)) - sz * real_of_int ii - sz + sz"
    using col1 col2 row1 row2
    unfolding lat0 [unfolded nelat_def]
    by (simp_all add: mlon_def swlon_def mlat_def swlat_def algebra_simps)
  have i_eq: "real n - real_of_int k - 1 = real_of_int ii" by (simp add: ii_def)
  have gsne: "\<not> (real n - 1 = 0 \<or> getWidth (extent td) = 0)"
    using n1 sq(1) by simp
  have "getGroundHeight m p td =
      interpolateCell m (forward m p) td (real n) sz (real_of_int ii) (real_of_int jj)"
    unfolding getGroundHeight_def Let_def gs Math_ceil_def Math_floor_def
    unfolding sz_def [symmetric] mlat_def [symmetric] mlon_def [symmetric]
      swlat_def [symmetric] swlon_def [symmetric]
    unfolding k_def [symmetric] jj_def [symmetric] i_eq
    using gsne by simp
  then show ?thesis
    using interpolateCell_inside [OF n(2) ii jj sz cell split] by simp
qed

lemma getGroundHeight_flat_grid:
  assumes n: "2 \<le> n"
    and sq: "0 < getWidth e" "getHeight e = getWidth e"
    and inside: "lon (southWest e) \<le> lon (forward m p)" "lon (forward m p) < lon (northEast e)"
      "lat (southWest e) < lat (forward m p)" "lat (forward m p) \<le> lat (northEast e)"
    and split: "splitsCells m"
  shows "getGroundHeight m p \<lparr>heights = replicate (n * n) 0, extent = e\<rparr> = Some 0"
  using getGroundHeight_inside [of n "\<lparr>heights = replicate (n * n) 0, extent = e\<rparr>" m p] assms
  by auto

lemma barycentric_lower:
  assumes "0 < s"
  shows "barycentric p v0 \<lparr>lon = lon v0 + s, lat = lat v0\<rparr> \<lparr>lon = lon v0, lat = lat v0 + s\<rparr> =
     (0 \<le> 1 - (lon p - lon v0) / s - (lat p - lat v0) / s \<and> 0 \<le> (lon p - lon v0) / s
        \<and> 0 \<le> (lat p - lat v0) / s,
      1 - (lon p - lon v0) / s - (lat p - lat v0) / s, (lon p - lon v0) / s, (lat p - lat v0) / s)"
proof -
  have s: "s \<noteq> 0" "s * s \<noteq> 0" "s * s * (s * s) \<noteq> 0" using assms by simp_all
  have a: "(s * s * ((lon p - lon v0) * s)) / (s * s * (s * s)) = (lon p - lon v0) / s"
    using s by (simp add: field_simps)
  have b: "(s * s * ((lat p - lat v0) * s)) / (s * s * (s * s)) = (lat p - lat v0) / s"
    using s by (simp add: field_simps)
  show ?thesis
    using s a b by (simp add: barycentric_def Let_def)
qed


lemma barycentric_upper:
  assumes "0 < s"
  shows "barycentric p \<lparr>lon = lon v0 + s, lat = lat v0\<rparr> \<lparr>lon = lon v0, lat = lat v0 + s\<rparr>
           \<lparr>lon = lon v0 + s, lat = lat v0 + s\<rparr> =
     (0 \<le> 1 - (lat p - lat v0) / s \<and> 0 \<le> 1 - (lon p - lon v0) / s
        \<and> 0 \<le> ((lon p - lon v0) + (lat p - lat v0)) / s - 1,
      1 - (lat p - lat v0) / s, 1 - (lon p - lon v0) / s,
      ((lon p - lon v0) + (lat p - lat v0)) / s - 1)"
proof -
  define dx where "dx = lon p - lon v0"
  define dy where "dy = lat p - lat v0"
  have s: "s \<noteq> 0" using assms by simp
  have denom: "(s * s + s * s) * (s * s) - s * s * (s * s) = s * s * (s * s)"
    by (simp add: algebra_simps)
  have dn: "s * s * (s * s) \<noteq> 0" using s by simp
  have v: "(s * s * (dy * s - (dx - s) * s) - s * s * (dy * s)) / (s * (s * (s * s))) = 1 - dx / s"
    using s by (simp add: field_simps)
  have w: "(2 * (s * s) * (dy * s) - s * s * (dy * s - (dx - s) * s)) / (s * (s * (s * s)))
      = (dx + dy) / s - 1"
    using s by (simp add: field_simps)
  have lonp: "lon p - (lon v0 + s) = dx - s" by (simp add: dx_def)
  show ?thesis
    unfolding barycentric_def Let_def dx_def [symmetric] dy_def [symmetric]
    using s by (simp add: lonp dy_def [symmetric] denom dn v w add_divide_distrib) linarith?
qed


lemma flat_splitsCells: "splitsCells flatCollab"
  unfolding splitsCells_def
proof (intro allI impI)
  fix p v0 :: LonLat and s :: real
  assume a: "0 < s \<and> lon v0 \<le> lon p \<and> lon p \<le> lon v0 + s \<and> lat v0 \<le> lat p \<and> lat p \<le> lat v0 + s"
  define x where "x = (lon p - lon v0) / s"
  define y where "y = (lat p - lat v0) / s"
  have s: "0 < s" using a by simp
  have x: "0 \<le> x" "x \<le> 1" using a by (simp_all add: x_def)
  have y: "0 \<le> y" "y \<le> 1" using a by (simp_all add: y_def)
  have xy: "((lon p - lon v0) + (lat p - lat v0)) / s = x + y"
    by (simp add: x_def y_def add_divide_distrib)
  have bary: "cartesianToBarycentricLonLat flatCollab = barycentric"
    by (simp add: flatCollab_def)
  show "fst (cartesianToBarycentricLonLat flatCollab p v0
               \<lparr>lon = lon v0 + s, lat = lat v0\<rparr> \<lparr>lon = lon v0, lat = lat v0 + s\<rparr>)
        \<or> fst (cartesianToBarycentricLonLat flatCollab p
               \<lparr>lon = lon v0 + s, lat = lat v0\<rparr> \<lparr>lon = lon v0, lat = lat v0 + s\<rparr>
               \<lparr>lon = lon v0 + s, lat = lat v0 + s\<rparr>)"
    unfolding bary barycentric_lower [OF s] barycentric_upper [OF s] xy
    unfolding x_def [symmetric] y_def [symmetric]
    using x y by auto
qed

lemma flat_squareTile: "squareTileAround flatCollab point_7_50 14"
  unfolding squareTileAround_def flat_tile_7_50
  by (simp add: flatCollab_def point_7_50_def getWidth_def getHeight_def)

section \<open>The query at longitude 7, latitude 50.5\<close>

lemma new_fields [simp]:
  "maxZoom (newGlobusTerrain defaultOptions segs) = 14"
  "url (newGlobusTerrain defaultOptions segs) = ''//openglobus.org/heights/srtm3/{z}/{y}/{x}.ddm''"
  "fetches (newGlobusTerrain options segs) = []" "loads (newGlobusTerrain options segs) = []"
  "elevationCache (newGlobusTerrain options segs) = (\<lambda>_. None)"
  "fetchCache (newGlobusTerrain options segs) = (\<lambda>_. None)"
  "callbackLog (newGlobusTerrain options segs) = []"
  by (simp_all add: newGlobusTerrain_def defaultOptions_def)

lemma ready_single:
  assumes "fetches t = [(q, Pending [k])]"
  shows "resolveFetch m 0 r t = onFetchResponse m r k (t\<lparr>fetches := [(q, Resolved r)]\<rparr>)"
  using assms by (simp add: resolveFetch_def)

text \<open>
  C7. On a freshly constructed provider (default options: \<^verbatim>\<open>maxZoom\<close> 14, both caches
  empty) a ground-mode query at longitude 7, latitude 50.5 issues exactly one fetch,
  for the tile \<^verbatim>\<open>getTileX(7, 14)\<close>, \<^verbatim>\<open>getTileY(50.5, 14)\<close> of zoom 14, issues no load and
  calls nothing back; when that fetch resolves ready with a 32 by 32 grid of zeros
  the callback is called once, with the ellipsoidal altitude minus the geoid
  undulation. The mercator functions and the barycentric test are parameters: the
  tile they compute for the point is taken to be a square around its projection, and
  the test to find a point of a cell in one of the cell's two triangles.
\<close>

theorem ground_query_zero_grid:
  assumes tile: "squareTileAround m point_7_50 14" and split: "splitsCells m"
  shows "let t0 = newGlobusTerrain defaultOptions segs;
             t1 = getHeightAsync m GND point_7_50 cb altEll t0;
             t2 = resolveFetch m 0 (Ready (replicate (32 * 32) 0)) t1
         in fetches t1 =
              [(\<lparr>template = ''//openglobus.org/heights/srtm3/{z}/{y}/{x}.ddm'',
                 rx = getTileX m (lon point_7_50) 14, ry = getTileY m (lat point_7_50) 14, rz = 14\<rparr>,
                Pending [continuationOf m t0 point_7_50 altEll cb])]
          \<and> loads t1 = [] \<and> callbackLog t1 = []
          \<and> callbackLog t2 = [(cb, Some (altEll - getHeightLonLat m point_7_50))]
          \<and> length (fetches t2) = 1 \<and> loads t2 = []"
proof -
  define t0 where "t0 = newGlobusTerrain defaultOptions segs"
  define t1 where "t1 = getHeightAsync m GND point_7_50 cb altEll t0"
  define k where "k = continuationOf m t0 point_7_50 altEll cb"
  define e where "e = getTileExtent m (getTileX m (lon point_7_50) 14) (getTileY m (lat point_7_50) 14) 14"
  have t1: "t1 = t0\<lparr>fetches := fetches t0 @ [(requestOf m t0 point_7_50, Pending [k])],
       fetchCache := (fetchCache t0)(tileIndexOf m t0 point_7_50 \<mapsto> length (fetches t0))\<rparr>"
    unfolding t1_def k_def
    by (rule getHeightAsync_GND_miss_new) (simp_all add: t0_def)
  have f1: "fetches t1 = [(requestOf m t0 point_7_50, Pending [k])]"
    by (simp add: t1 t0_def)
  have rq: "requestOf m t0 point_7_50 =
      \<lparr>template = ''//openglobus.org/heights/srtm3/{z}/{y}/{x}.ddm'',
       rx = getTileX m (lon point_7_50) 14, ry = getTileY m (lat point_7_50) 14, rz = 14\<rparr>"
    by (simp add: requestOf_def t0_def)
  have g: "getGroundHeight m point_7_50 \<lparr>heights = replicate (32 * 32) 0, extent = e\<rparr> = Some 0"
    by (rule getGroundHeight_flat_grid)
      (use tile split in \<open>simp_all add: squareTileAround_def Let_def e_def\<close>)
  have kf: "k_x k = getTileX m (lon point_7_50) 14" "k_y k = getTileY m (lat point_7_50) 14"
    "k_z k = 14" "k_callback k = cb" "k_altEll k = altEll"
    "k_altMsl k = getHeightLonLat m point_7_50" "k_lonLat k = point_7_50"
    by (simp_all add: k_def continuationOf_def t0_def)
  have l2: "callbackLog (resolveFetch m 0 (Ready (replicate (32 * 32) 0)) t1) =
      [(cb, Some (altEll - getHeightLonLat m point_7_50))]"
    unfolding ready_single [OF f1] onFetchResponse_callbackLog answerOf_def
    unfolding response.case createHeights_def kf e_def [symmetric] g
    by (simp add: t1 t0_def jssub_def jsadd_def)
  show ?thesis
    unfolding Let_def t0_def [symmetric] t1_def [symmetric] k_def [symmetric]
    using f1 l2 by (simp add: rq) (simp add: t1 t0_def)
qed

theorem ground_query_zero_grid_witness:
  "squareTileAround flatCollab point_7_50 14 \<and> splitsCells flatCollab
   \<and> map fst (fetches (getHeightAsync flatCollab GND point_7_50 0 100 freshTerrain)) =
       [\<lparr>template = ''//openglobus.org/heights/srtm3/{z}/{y}/{x}.ddm'',
         rx = 8510, ry = 5893, rz = 14\<rparr>]
   \<and> callbackLog
        (resolveFetch flatCollab 0 (Ready (replicate (32 * 32) 0))
           (getHeightAsync flatCollab GND point_7_50 0 100 freshTerrain)) = [(0, Some 53)]"
proof -
  note th = ground_query_zero_grid [OF flat_squareTile flat_splitsCells,
      where segs = "\<lambda>_. plainSegment" and cb = 0 and altEll = 100, folded freshTerrain_def]
  from th have a: "fetches (getHeightAsync flatCollab GND point_7_50 0 100 freshTerrain) =
      [(\<lparr>template = ''//openglobus.org/heights/srtm3/{z}/{y}/{x}.ddm'',
         rx = getTileX flatCollab (lon point_7_50) 14, ry = getTileY flatCollab (lat point_7_50) 14,
         rz = 14\<rparr>,
        Pending [continuationOf flatCollab freshTerrain point_7_50 100 0])]"
    and b: "callbackLog
        (resolveFetch flatCollab 0 (Ready (replicate (32 * 32) 0))
           (getHeightAsync flatCollab GND point_7_50 0 100 freshTerrain)) =
        [(0, Some (100 - getHeightLonLat flatCollab point_7_50))]"
    unfolding Let_def by blast+
  show ?thesis
    using flat_squareTile flat_splitsCells a b by (simp add: flat_tile_7_50)
qed

section \<open>A query served from the cache\<close>

lemma flat_zero_height:
  "getGroundHeight flatCollab point_7_50
     \<lparr>heights = replicate (32 * 32) 0, extent = getTileExtent flatCollab 8510 5893 14\<rparr> = Some 0"
  by (rule getGroundHeight_flat_grid)
    (use flat_squareTile flat_splitsCells in
      \<open>simp_all add: squareTileAround_def Let_def flat_tile_7_50\<close>)

text \<open>
  The cache branch of a ground-mode query: the tile index, computed from \<^verbatim>\<open>getTileX\<close> and
  \<^verbatim>\<open>getTileY\<close> at the provider's \<^verbatim>\<open>maxZoom\<close>, is in the elevation cache. The callback is
  called at once with the altitude minus the sum of what \<^verbatim>\<open>_getGroundHeight\<close> returns for
  the cached entry and the geoid undulation at the point, in arithmetic on numbers
  that may be \<^verbatim>\<open>NaN\<close>; no fetch and no load is issued and both caches stay as they are.
\<close>

lemma cache_hit_calls_back:
  assumes "elevationCache t
      (getTileIndex (getTileX m (lon lonLat) (maxZoom t)) (getTileY m (lat lonLat) (maxZoom t))
         (maxZoom t)) = Some cache"
  shows "callbackLog (getHeightAsync m GND lonLat cb altEll t) =
      callbackLog t @
        [(cb, jssub (Some altEll)
                (jsadd (getGroundHeight m lonLat cache) (Some (getHeightLonLat m lonLat))))]
    \<and> (getGroundHeight m lonLat cache = Some g \<longrightarrow>
         callbackLog (getHeightAsync m GND lonLat cb altEll t) =
           callbackLog t @ [(cb, Some (altEll - (g + getHeightLonLat m lonLat)))])
    \<and> fetches (getHeightAsync m GND lonLat cb altEll t) = fetches t
    \<and> loads (getHeightAsync m GND lonLat cb altEll t) = loads t
    \<and> fetchCache (getHeightAsync m GND lonLat cb altEll t) = fetchCache t
    \<and> elevationCache (getHeightAsync m GND lonLat cb altEll t) = elevationCache t"
proof -
  have c: "elevationCache t (tileIndexOf m t lonLat) = Some cache"
    using assms by (simp add: tileIndexOf_def)
  show ?thesis
    by (simp add: getHeightAsync_GND_hit [OF c] jssub_def jsadd_def)
qed

lemma cache_hit_zero_grid:
  "elevationCache
      (freshTerrain\<lparr>elevationCache := (\<lambda>_. None)((8510, 5893, 14) \<mapsto>
         \<lparr>heights = replicate (32 * 32) 0, extent = getTileExtent flatCollab 8510 5893 14\<rparr>)\<rparr>)
      (getTileIndex (getTileX flatCollab (lon point_7_50) 14) (getTileY flatCollab (lat point_7_50) 14) 14)
     = Some \<lparr>heights = replicate (32 * 32) 0, extent = getTileExtent flatCollab 8510 5893 14\<rparr>
   \<and> callbackLog (getHeightAsync flatCollab GND point_7_50 0 100
        (freshTerrain\<lparr>elevationCache := (\<lambda>_. None)((8510, 5893, 14) \<mapsto>
           \<lparr>heights = replicate (32 * 32) 0, extent = getTileExtent flatCollab 8510 5893 14\<rparr>)\<rparr>))
     = [(0, Some 53)]
   \<and> fetches (getHeightAsync flatCollab GND point_7_50 0 100
        (freshTerrain\<lparr>elevationCache := (\<lambda>_. None)((8510, 5893, 14) \<mapsto>
           \<lparr>heights = replicate (32 * 32) 0, extent = getTileExtent flatCollab 8510 5893 14\<rparr>)\<rparr>))
     = []"
proof -
  define t where "t = freshTerrain\<lparr>elevationCache := (\<lambda>_. None)((8510, 5893, 14) \<mapsto>
         \<lparr>heights = replicate (32 * 32) 0, extent = getTileExtent flatCollab 8510 5893 14\<rparr>)\<rparr>"
  have c: "elevationCache t
      (getTileIndex (getTileX flatCollab (lon point_7_50) (maxZoom t))
         (getTileY flatCollab (lat point_7_50) (maxZoom t)) (maxZoom t))
     = Some \<lparr>heights = replicate (32 * 32) 0, extent = getTileExtent flatCollab 8510 5893 14\<rparr>"
    by (simp add: t_def flat_tile_7_50 getTileIndex_def)
  have f: "maxZoom t = 14" "callbackLog t = []" "fetches t = []" by (simp_all add: t_def)
  note th = cache_hit_calls_back [OF c, where g = 0 and cb = 0 and altEll = 100]
  from th flat_zero_height have "callbackLog (getHeightAsync flatCollab GND point_7_50 0 100 t) = [(0, Some 53)]"
    and "fetches (getHeightAsync flatCollab GND point_7_50 0 100 t) = []"
    by (simp_all add: f jssub_def jsadd_def)
  then show ?thesis using c unfolding f t_def [symmetric] by simp
qed

text \<open>
  An entry without heights, which is what a failed fetch leaves in the cache: every
  height read from it is \<^verbatim>\<open>undefined\<close>, so whichever branch \<^verbatim>\<open>_getGroundHeight\<close> takes, for
  any collaborators and any point, the result is \<^verbatim>\<open>NaN\<close> or \<^verbatim>\<open>undefined\<close>.
\<close>

lemma arrayGet_Nil: "arrayGet [] ix = None"
  by (simp add: arrayGet_def)

lemma interpolateCell_no_heights:
  "heights td = [] \<Longrightarrow> interpolateCell m merc td gs sz i j = None"
  by (simp add: interpolateCell_def Let_def arrayGet_Nil jsadd_def jsmul_def
      split: prod.splits bool.splits)

lemma getGroundHeight_no_heights:
  "heights td = [] \<Longrightarrow> getGroundHeight m p td = None"
  by (simp add: getGroundHeight_def Let_def interpolateCell_no_heights)

lemma failed_fetch_fields:
  "elevationCache (resolveFetch flatCollab 0 Error
       (getHeightAsync flatCollab GND point_7_50 0 100 freshTerrain)) =
     (\<lambda>_. None)((8510, 5893, 14) \<mapsto>
        \<lparr>heights = [], extent = getTileExtent flatCollab 8510 5893 14\<rparr>)"
  "callbackLog (resolveFetch flatCollab 0 Error
       (getHeightAsync flatCollab GND point_7_50 0 100 freshTerrain)) = [(0, Some 53)]"
  "maxZoom (resolveFetch flatCollab 0 Error
       (getHeightAsync flatCollab GND point_7_50 0 100 freshTerrain)) = 14"
proof -
  define t1 where "t1 = getHeightAsync flatCollab GND point_7_50 0 100 freshTerrain"
  have wf1: "wellFormed t1"
    unfolding t1_def by (rule wellFormed_getHeightAsync [OF wellFormed_fresh])
  have lt: "0 < length (fetches t1)" by (simp add: t1_def first_query_fresh)
  have pk: "snd (fetches t1 ! 0) = Pending [continuationOf flatCollab freshTerrain point_7_50 100 0]"
    by (simp add: t1_def first_query_fresh)
  have k: "requestKey (fst (fetches t1 ! 0)) = (8510, 5893, 14)"
    by (simp add: t1_def first_query_fresh tileIndexOf_simps flat_tileIndexOf)
  note f = resolveFetch_fields [OF wf1 lt pk, of flatCollab Error, unfolded k]
  have e: "elevationCache t1 = (\<lambda>_. None)" "callbackLog t1 = []"
    by (simp_all add: t1_def first_query_fresh)
  show "elevationCache (resolveFetch flatCollab 0 Error
       (getHeightAsync flatCollab GND point_7_50 0 100 freshTerrain)) =
     (\<lambda>_. None)((8510, 5893, 14) \<mapsto>
        \<lparr>heights = [], extent = getTileExtent flatCollab 8510 5893 14\<rparr>)"
    unfolding t1_def [symmetric] by (simp add: f(3) cacheOf_def e)
  show "callbackLog (resolveFetch flatCollab 0 Error
       (getHeightAsync flatCollab GND point_7_50 0 100 freshTerrain)) = [(0, Some 53)]"
    unfolding t1_def [symmetric]
    by (simp add: f(4) e answerOf_def continuationOf_def)
  show "maxZoom (resolveFetch flatCollab 0 Error
       (getHeightAsync flatCollab GND point_7_50 0 100 freshTerrain)) = 14"
    by simp
qed

text \<open>
  C6. The claim: every ground-mode query whose tile index is in the elevation cache
  calls its callback with the altitude minus the sum of the ground height interpolated
  from the cached grid and the undulation. The cache branch does not tell the entry of
  a failed fetch, which has no heights, from a loaded tile. On a fresh provider a
  query at longitude 7, latitude 50.5 with the altitude 100 starts a fetch; the fetch
  resolves with the status error, whose branch stores the entry without heights and
  answers the query with \<open>100 - 47 = 53\<close>, the ground term left out. A second query
  for the same point and altitude finds that entry in the cache, issues no fetch and
  no load, interpolates over the empty grid and calls its callback with \<^verbatim>\<open>NaN\<close>: not
  the altitude minus a ground height and the undulation, for any ground height, and
  not the 53 that the error branch gave the first query for the same tile.
\<close>

theorem cached_sentinel_query_gets_NaN:
  "let t1 = getHeightAsync flatCollab GND point_7_50 0 100 freshTerrain;
       t2 = resolveFetch flatCollab 0 Error t1;
       t3 = getHeightAsync flatCollab GND point_7_50 1 100 t2
   in elevationCache t2
        (getTileIndex (getTileX flatCollab (lon point_7_50) (maxZoom t2))
           (getTileY flatCollab (lat point_7_50) (maxZoom t2)) (maxZoom t2)) =
        Some \<lparr>heights = [], extent = getTileExtent flatCollab 8510 5893 14\<rparr>
    \<and> getGroundHeight flatCollab point_7_50
        \<lparr>heights = [], extent = getTileExtent flatCollab 8510 5893 14\<rparr> = None
    \<and> callbackLog t3 = [(0, Some 53), (1, None)]
    \<and> fetches t3 = fetches t2 \<and> loads t3 = loads t2
    \<and> Some (100 - (0 + getHeightLonLat flatCollab point_7_50)) = Some 53"
proof -
  define t2 where "t2 = resolveFetch flatCollab 0 Error
       (getHeightAsync flatCollab GND point_7_50 0 100 freshTerrain)"
  note f = failed_fetch_fields [folded t2_def]
  have c: "elevationCache t2 (tileIndexOf flatCollab t2 point_7_50) =
      Some \<lparr>heights = [], extent = getTileExtent flatCollab 8510 5893 14\<rparr>"
    by (simp add: tileIndexOf_def f flat_tile_7_50 getTileIndex_def)
  have g: "getGroundHeight flatCollab point_7_50
        \<lparr>heights = [], extent = getTileExtent flatCollab 8510 5893 14\<rparr> = None"
    by (simp add: getGroundHeight_no_heights)
  note h = getHeightAsync_GND_hit [OF c, of 1 100]
  have l: "callbackLog (getHeightAsync flatCollab GND point_7_50 1 100 t2) = [(0, Some 53), (1, None)]"
    unfolding h g by (simp add: jssub_def jsadd_def f invoke_def)
  have io: "fetches (getHeightAsync flatCollab GND point_7_50 1 100 t2) = fetches t2"
    "loads (getHeightAsync flatCollab GND point_7_50 1 100 t2) = loads t2"
    unfolding h by simp_all
  show ?thesis
    unfolding Let_def t2_def [symmetric]
    using c [unfolded tileIndexOf_def] g l io by simp
qed

section \<open>A point in neither triangle\<close>

lemma interpolateCell_neither:
  assumes "\<not> fst (cartesianToBarycentricLonLat m merc v0
                     \<lparr>lon = lon v0 + sz, lat = lat v0\<rparr> \<lparr>lon = lon v0, lat = lat v0 + sz\<rparr>)"
    and "\<not> fst (cartesianToBarycentricLonLat m merc
                     \<lparr>lon = lon v0 + sz, lat = lat v0\<rparr> \<lparr>lon = lon v0, lat = lat v0 + sz\<rparr>
                     \<lparr>lon = lon v0 + sz, lat = lat v0 + sz\<rparr>)"
    and "v0 = \<lparr>lon = lon (southWest (extent td)) + sz * j,
               lat = lat (northEast (extent td)) - sz * i - sz\<rparr>"
  shows "interpolateCell m merc td gs sz i j = None"
  using assms(1,2) unfolding assms(3)
  by (auto simp: interpolateCell_def Let_def split: prod.splits bool.splits)

lemma tall_cell:
  "getGroundHeight flatCollab point_5_15 tallTile =
     interpolateCell flatCollab point_5_15 tallTile 2 10 (- 1) 0"
proof -
  have gs: "sqrt (real (length (heights tallTile))) = 2"
    using real_sqrt_abs [of 2] by (simp add: tallTile_def)
  show ?thesis
    unfolding getGroundHeight_def Let_def gs
    by (simp add: flatCollab_def point_5_15_def tallTile_def getWidth_def Math_ceil_def Math_floor_def)
qed

text \<open>
  C8. The claim: when the point lies in neither triangle of its cell, the query falls
  back to the ground term zero and the callback still receives the ellipsoidal
  altitude minus the undulation. The last branch of \<^verbatim>\<open>_getGroundHeight\<close> logs an error
  and returns nothing, and the caller adds the result to the undulation unchecked: for
  the cached tile \<open>tallTile\<close>, which contains the point of longitude 5, latitude 15,
  both triangle tests fail (the cell is placed from the north edge with a cell size
  taken from the width), the ground height is undefined and the callback receives
  \<^verbatim>\<open>NaN\<close>, not \<open>100 - 47 = 53\<close>.
\<close>

theorem ground_height_outside_both_triangles:
  "getGroundHeight flatCollab point_5_15 tallTile = None
   \<and> isInside (extent tallTile) (forward flatCollab point_5_15)
   \<and> callbackLog (getHeightAsync flatCollab GND point_5_15 0 100
        (freshTerrain\<lparr>elevationCache :=
           (\<lambda>_. None)(tileIndexOf flatCollab freshTerrain point_5_15 \<mapsto> tallTile)\<rparr>)) = [(0, None)]
   \<and> Some (100 - getHeightLonLat flatCollab point_5_15) = Some 53"
proof -
  have bary: "cartesianToBarycentricLonLat flatCollab = barycentric"
    by (simp add: flatCollab_def)
  have lower: "barycentric point_5_15 \<lparr>lon = 0, lat = 20\<rparr> \<lparr>lon = 10, lat = 20\<rparr> \<lparr>lon = 0, lat = 30\<rparr>
      = (False, 1, 1 / 2, - 1 / 2)"
    using barycentric_lower [of 10 point_5_15 "\<lparr>lon = 0, lat = 20\<rparr>"]
    by (simp add: point_5_15_def)
  have upper: "barycentric point_5_15 \<lparr>lon = 10, lat = 20\<rparr> \<lparr>lon = 0, lat = 30\<rparr> \<lparr>lon = 10, lat = 30\<rparr>
      = (False, 3 / 2, 1 / 2, - 1)"
    using barycentric_upper [of 10 point_5_15 "\<lparr>lon = 0, lat = 20\<rparr>"]
    by (simp add: point_5_15_def)
  have g: "getGroundHeight flatCollab point_5_15 tallTile = None"
    unfolding tall_cell interpolateCell_def Let_def bary
    by (simp add: tallTile_def lower upper)
  define t where "t = freshTerrain\<lparr>elevationCache :=
           (\<lambda>_. None)(tileIndexOf flatCollab freshTerrain point_5_15 \<mapsto> tallTile)\<rparr>"
  have ix: "tileIndexOf flatCollab t point_5_15 = tileIndexOf flatCollab freshTerrain point_5_15"
    by (simp add: tileIndexOf_def t_def)
  have c: "elevationCache t (tileIndexOf flatCollab t point_5_15) = Some tallTile"
    unfolding ix by (simp add: t_def)
  have e: "callbackLog t = []" by (simp add: t_def)
  have l: "callbackLog (getHeightAsync flatCollab GND point_5_15 0 100 t) = [(0, None)]"
    by (simp add: getHeightAsync_GND_hit [OF c] g jssub_def jsadd_def e)
  have i: "isInside (extent tallTile) (forward flatCollab point_5_15)"
    by (simp add: isInside_def tallTile_def flatCollab_def point_5_15_def)
  show ?thesis unfolding t_def [symmetric] using g l i by simp
qed

section \<open>The load event\<close>

lemma applyElevationsData_loadEvents:
  "loadEvents (applyElevationsData sid el t) =
     loadEvents t @ (if loadHandlers t \<noteq> 0 then [(el, sid)] else [])"
  by (simp add: applyElevationsData_def Let_def)

lemma applyElevationsData_applied:
  "appliedTerrain (segments (applyElevationsData sid el t) sid) =
     appliedTerrain (segments t sid) @ [el]"
  by (simp add: applyElevationsData_def Let_def)

lemma pending_load_fields:
  "loads (run flatCollab [OnLoad, LoadTerrain 0 False] freshTerrain) =
     [\<lparr>l_src = Some \<lparr>template = ''//openglobus.org/heights/srtm3/{z}/{y}/{x}.ddm'',
                      rx = 8510, ry = 5893, rz = 14\<rparr>,
       l_segment = 0, l_forceLoading = False, l_done = False\<rparr>]"
  "loadHandlers (run flatCollab [OnLoad, LoadTerrain 0 False] freshTerrain) = 1"
  "loadEvents (run flatCollab [OnLoad, LoadTerrain 0 False] freshTerrain) = []"
  "terrainLock (run flatCollab [OnLoad, LoadTerrain 0 False] freshTerrain) = {}"
  "elevationCache (run flatCollab [OnLoad, LoadTerrain 0 False] freshTerrain) = (\<lambda>_. None)"
  "projectionId (segments (run flatCollab [OnLoad, LoadTerrain 0 False] freshTerrain) sid) = EPSG3857"
  "tileIndex (segments (run flatCollab [OnLoad, LoadTerrain 0 False] freshTerrain) sid) = (8510, 5893, 14)"
  by (simp_all add: run_def loadTerrain_def isFree_def Let_def getHTTPRequestString_def createUrl_def
      updSegment_def)

text \<open>
  Where \<^verbatim>\<open>load\<close> is dispatched, operation by operation. \<^verbatim>\<open>_applyElevationsData\<close> dispatches
  it, when a handler is attached, for whatever elevations it applies to a segment:
  the cached heights when \<^verbatim>\<open>loadTerrain\<close> hits the elevation cache, the decoded heights
  when the segment's fetch resolves ready, \<^verbatim>\<open>null\<close> when it resolves with an error. The
  branches for abort and for any other status dispatch nothing, nor does a load
  already answered, nor \<^verbatim>\<open>loadTerrain\<close> when the lock is engaged, the segment is not a
  mercator one or the tile is not cached, nor do height queries and their fetches.
\<close>

lemma loadEvents_by_operation:
  "(isFree (terrainLock t) \<and> projectionId (segments t sid) = EPSG3857
      \<and> elevationCache t (tileIndex (segments t sid)) = Some cache \<longrightarrow>
      loadEvents (loadTerrain sid forceLoading t) =
        loadEvents t @ (if loadHandlers t \<noteq> 0 then [(Some (heights cache), sid)] else [])
      \<and> appliedTerrain (segments (loadTerrain sid forceLoading t) sid) =
          appliedTerrain (segments t sid) @ [Some (heights cache)])
   \<and> (l < length (loads t) \<and> \<not> l_done (loads t ! l) \<longrightarrow>
      loadEvents (resolveLoad l r t) =
        loadEvents t @
          (case r of
             Ready data \<Rightarrow> if loadHandlers t \<noteq> 0 then [(Some (createHeights data), l_segment (loads t ! l))] else []
           | Error \<Rightarrow> if loadHandlers t \<noteq> 0 then [(None, l_segment (loads t ! l))] else []
           | Abort \<Rightarrow> []
           | OtherStatus \<Rightarrow> [])
      \<and> appliedTerrain (segments (resolveLoad l r t) (l_segment (loads t ! l))) =
          appliedTerrain (segments t (l_segment (loads t ! l))) @
            (case r of
               Ready data \<Rightarrow> [Some (createHeights data)]
             | Error \<Rightarrow> [None]
             | Abort \<Rightarrow> []
             | OtherStatus \<Rightarrow> []))
   \<and> (\<not> (l < length (loads t) \<and> \<not> l_done (loads t ! l)) \<longrightarrow>
        loadEvents (resolveLoad l r t) = loadEvents t)
   \<and> (\<not> isFree (terrainLock t) \<or> projectionId (segments t sid) \<noteq> EPSG3857
        \<or> elevationCache t (tileIndex (segments t sid)) = None \<longrightarrow>
        loadEvents (loadTerrain sid forceLoading t) = loadEvents t)
   \<and> loadEvents (getHeightAsync m mode lonLat cb altEll t) = loadEvents t
   \<and> loadEvents (resolveFetch m p r t) = loadEvents t"
proof (intro conjI impI)
  assume a: "isFree (terrainLock t) \<and> projectionId (segments t sid) = EPSG3857
      \<and> elevationCache t (tileIndex (segments t sid)) = Some cache"
  then show "loadEvents (loadTerrain sid forceLoading t) =
        loadEvents t @ (if loadHandlers t \<noteq> 0 then [(Some (heights cache), sid)] else [])"
    by (simp add: loadTerrain_def Let_def applyElevationsData_loadEvents)
  from a show "appliedTerrain (segments (loadTerrain sid forceLoading t) sid) =
          appliedTerrain (segments t sid) @ [Some (heights cache)]"
    by (simp add: loadTerrain_def Let_def applyElevationsData_applied)
next
  assume a: "l < length (loads t) \<and> \<not> l_done (loads t ! l)"
  then have eq: "resolveLoad l r t =
     onLoadResponse r (l_segment (loads t ! l))
       (t\<lparr>loads := (loads t)[l := (loads t ! l)\<lparr>l_done := True\<rparr>]\<rparr>)"
    by (simp add: resolveLoad_pending)
  show "loadEvents (resolveLoad l r t) =
        loadEvents t @
          (case r of
             Ready data \<Rightarrow> if loadHandlers t \<noteq> 0 then [(Some (createHeights data), l_segment (loads t ! l))] else []
           | Error \<Rightarrow> if loadHandlers t \<noteq> 0 then [(None, l_segment (loads t ! l))] else []
           | Abort \<Rightarrow> []
           | OtherStatus \<Rightarrow> [])"
    unfolding eq
    by (cases r) (simp_all add: onLoadResponse_def Let_def applyElevationsData_loadEvents)
  show "appliedTerrain (segments (resolveLoad l r t) (l_segment (loads t ! l))) =
          appliedTerrain (segments t (l_segment (loads t ! l))) @
            (case r of
               Ready data \<Rightarrow> [Some (createHeights data)]
             | Error \<Rightarrow> [None]
             | Abort \<Rightarrow> []
             | OtherStatus \<Rightarrow> [])"
    unfolding eq
    by (cases r) (simp_all add: onLoadResponse_def Let_def applyElevationsData_applied)
next
  assume "\<not> (l < length (loads t) \<and> \<not> l_done (loads t ! l))"
  then show "loadEvents (resolveLoad l r t) = loadEvents t"
    by (auto simp: resolveLoad_def)
next
  assume "\<not> isFree (terrainLock t) \<or> projectionId (segments t sid) \<noteq> EPSG3857
        \<or> elevationCache t (tileIndex (segments t sid)) = None"
  then show "loadEvents (loadTerrain sid forceLoading t) = loadEvents t"
    by (auto simp: loadTerrain_def Let_def)
next
  show "loadEvents (getHeightAsync m mode lonLat cb altEll t) = loadEvents t" by simp
  show "loadEvents (resolveFetch m p r t) = loadEvents t" by simp
qed


lemma loadEvents_by_operation_example:
  "let tA = run flatCollab [OnLoad, LoadTerrain 0 False] freshTerrain;
       tB = resolveLoad 0 (Ready [1, 2, 3, 4]) tA
   in 0 < length (loads tA) \<and> \<not> l_done (loads tA ! 0)
    \<and> loadEvents (resolveLoad 0 (Ready [1, 2, 3, 4]) tA) = [(Some [1, 2, 3, 4], 0)]
    \<and> loadEvents (resolveLoad 0 Error tA) = [(None, 0)]
    \<and> loadEvents (resolveLoad 0 Abort tA) = []
    \<and> loadEvents (loadTerrain 0 False tA) = []
    \<and> isFree (terrainLock tB) \<and> projectionId (segments tB 0) = EPSG3857
    \<and> elevationCache tB (tileIndex (segments tB 0)) =
         Some \<lparr>heights = [1, 2, 3, 4], extent = getTileExtent flatCollab 8510 5893 14\<rparr>
    \<and> loadEvents (loadTerrain 0 False tB) = [(Some [1, 2, 3, 4], 0), (Some [1, 2, 3, 4], 0)]
    \<and> loadEvents (resolveLoad 0 Error tB) = [(Some [1, 2, 3, 4], 0)]"
proof -
  define tA where "tA = run flatCollab [OnLoad, LoadTerrain 0 False] freshTerrain"
  define tB where "tB = resolveLoad 0 (Ready [1, 2, 3, 4]) tA"
  note fA = pending_load_fields [folded tA_def]
  have pA: "0 < length (loads tA) \<and> \<not> l_done (loads tA ! 0)" by (simp add: fA)
  have mA: "\<not> isFree (terrainLock tA) \<or> projectionId (segments tA 0) \<noteq> EPSG3857
        \<or> elevationCache tA (tileIndex (segments tA 0)) = None" by (simp add: fA)
  note thA = loadEvents_by_operation [where t = tA and l = 0 and sid = 0
      and forceLoading = False]
  have a1: "loadEvents (resolveLoad 0 (Ready [1, 2, 3, 4]) tA) = [(Some [1, 2, 3, 4], 0)]"
    using thA [where r = "Ready [1, 2, 3, 4]"] pA by (simp add: fA createHeights_def)
  have a2: "loadEvents (resolveLoad 0 Error tA) = [(None, 0)]"
    using thA [where r = Error] pA by (simp add: fA)
  have a3: "loadEvents (resolveLoad 0 Abort tA) = []"
    using thA [where r = Abort] pA by (simp add: fA)
  have a4: "loadEvents (loadTerrain 0 False tA) = []"
    using thA [where r = Abort] mA by (simp add: fA)
  have eqB: "tB = onLoadResponse (Ready [1, 2, 3, 4]) 0
       (tA\<lparr>loads := (loads tA)[0 := (loads tA ! 0)\<lparr>l_done := True\<rparr>]\<rparr>)"
    unfolding tB_def using pA by (simp add: resolveLoad_pending fA)
  have fB: "isFree (terrainLock tB)" "projectionId (segments tB 0) = EPSG3857"
    "elevationCache tB (tileIndex (segments tB 0)) =
         Some \<lparr>heights = [1, 2, 3, 4], extent = getTileExtent flatCollab 8510 5893 14\<rparr>"
    "loadEvents tB = [(Some [1, 2, 3, 4], 0)]" "loadHandlers tB = 1"
    "\<not> (0 < length (loads tB) \<and> \<not> l_done (loads tB ! 0))"
    unfolding eqB
    by (simp_all add: onLoadResponse_def Let_def applyElevationsData_def fA isFree_def
        createHeights_def tA_def run_def loadTerrain_def plainSegment_def getTileIndex_def)
  note thB = loadEvents_by_operation [where t = tB and l = 0 and sid = 0
      and forceLoading = False and r = Error
      and cache = "\<lparr>heights = [1, 2, 3, 4], extent = getTileExtent flatCollab 8510 5893 14\<rparr>"]
  have b1: "loadEvents (loadTerrain 0 False tB) = [(Some [1, 2, 3, 4], 0), (Some [1, 2, 3, 4], 0)]"
    using thB fB by simp
  have b2: "loadEvents (resolveLoad 0 Error tB) = [(Some [1, 2, 3, 4], 0)]"
    using thB fB by auto
  show ?thesis
    unfolding Let_def tA_def [symmetric] tB_def [symmetric]
    using pA a1 [folded tB_def] a2 a3 a4 fB(1,2,3) b1 b2 by blast
qed

text \<open>
  C9. The claim: the \<^verbatim>\<open>load\<close> event does not fire for a tile that was not successfully
  loaded. The source describes the event as ``triggered when current elevation tile
  has loaded'', and the branches of \<^verbatim>\<open>loadTerrain\<close> for abort and for any other status
  dispatch nothing. Its error branch calls \<^verbatim>\<open>_applyElevationsData\<close> with \<^verbatim>\<open>null\<close>, and
  that function dispatches the event before it applies anything: with one handler
  attached, a segment load whose fetch resolves with the status error dispatches
  \<^verbatim>\<open>load\<close> with \<^verbatim>\<open>null\<close> elevations, and nothing is cached for the tile; the same load
  aborted, or resolved with another status, dispatches nothing.
\<close>

theorem load_event_on_fetch_error:
  "loadEvents (run flatCollab [OnLoad, LoadTerrain 0 False, LoadResolves 0 Error] freshTerrain)
     = [(None, 0)]
   \<and> elevationCache (run flatCollab [OnLoad, LoadTerrain 0 False, LoadResolves 0 Error] freshTerrain)
       (tileIndex (segments freshTerrain 0)) = None
   \<and> loadEvents (run flatCollab [OnLoad, LoadTerrain 0 False, LoadResolves 0 Abort] freshTerrain)
     = []
   \<and> loadEvents (run flatCollab [OnLoad, LoadTerrain 0 False, LoadResolves 0 OtherStatus] freshTerrain)
     = []"
  by (simp add: run_def loadTerrain_def isFree_def resolveLoad_def onLoadResponse_def
      applyElevationsData_def Let_def)

section \<open>Picking colours shared between instances\<close>

lemma NOTBLACK_ISBLACK: "ISBLACK c \<longleftrightarrow> \<not> NOTBLACK c"
  by (cases c) (simp add: ISBLACK_def NOTBLACK_def)

lemma dispatched_dispatchOn:
  "dispatched (dispatchOn po ev e) =
     dispatched e @ (if hasRendererEvents po then [(objId po, ev)] else [])"
  by (simp add: dispatchOn_def)

lemma getPickingObjectArr_dispatchOn [simp]:
  "getPickingObjectArr (dispatchOn po ev e) = getPickingObjectArr e"
  by (simp add: dispatchOn_def)

lemma dispatched_leaveObject:
  "dispatched (leaveObject p e) =
     dispatched e @
       (case getPickingObjectArr e p of
          Some po \<Rightarrow> if hasRendererEvents po then [(objId po, mouseleave), (objId po, touchleave)] else []
        | None \<Rightarrow> [])"
  by (simp add: leaveObject_def dispatched_dispatchOn split: option.splits)

lemma dispatched_enterObject:
  "dispatched (enterObject co e) =
     dispatched e @
       (case co of
          Some ob \<Rightarrow> if hasRendererEvents ob then [(objId ob, mouseenter), (objId ob, touchenter)] else []
        | None \<Rightarrow> [])"
  by (simp add: enterObject_def dispatched_dispatchOn split: option.splits)

lemma entityPickingEvents_seen:
  assumes "\<not> buttonHeld e" and "NOTBLACK (pickedColor e)"
  shows "snd (entityPickingEvents e g) =
      g\<lparr>tempCurrPickingColor := pickedColor e, skipFrames := 0,
        prevPickingColor := currPickingColor g, currPickingColor := pickedColor e\<rparr>"
    and "dispatched (fst (entityPickingEvents e g)) =
      dispatched e @
        (if pickedColor e \<noteq> currPickingColor g then
           (if NOTBLACK (currPickingColor g) then
              (case getPickingObjectArr e (currPickingColor g) of
                 Some po \<Rightarrow> if hasRendererEvents po
                            then [(objId po, mouseleave), (objId po, touchleave)] else []
               | None \<Rightarrow> [])
            else [])
           @ (case getPickingObjectArr e (pickedColor e) of
                Some ob \<Rightarrow> if hasRendererEvents ob
                           then [(objId ob, mouseenter), (objId ob, touchenter)] else []
              | None \<Rightarrow> [])
         else [])"
proof -
  have nb: "\<not> ISBLACK (pickedColor e)" using assms(2) by (simp add: NOTBLACK_ISBLACK)
  note h = assms(1)
  show "snd (entityPickingEvents e g) =
      g\<lparr>tempCurrPickingColor := pickedColor e, skipFrames := 0,
        prevPickingColor := currPickingColor g, currPickingColor := pickedColor e\<rparr>"
    using h nb
    by (simp add: entityPickingEvents_def Let_def)
  show "dispatched (fst (entityPickingEvents e g)) =
      dispatched e @
        (if pickedColor e \<noteq> currPickingColor g then
           (if NOTBLACK (currPickingColor g) then
              (case getPickingObjectArr e (currPickingColor g) of
                 Some po \<Rightarrow> if hasRendererEvents po
                            then [(objId po, mouseleave), (objId po, touchleave)] else []
               | None \<Rightarrow> [])
            else [])
           @ (case getPickingObjectArr e (pickedColor e) of
                Some ob \<Rightarrow> if hasRendererEvents ob
                           then [(objId ob, mouseenter), (objId ob, touchenter)] else []
              | None \<Rightarrow> [])
         else [])"
    using h nb
    by (simp add: entityPickingEvents_def Let_def
        dispatched_enterObject dispatched_leaveObject split: option.splits)
qed


text \<open>
  C10. The picking colours belong to the module, not to an instance: what
  \<^verbatim>\<open>entityPickingEvents\<close> of one instance leaves in them is what the next call, of any
  instance, starts from. Take two instances with no button held that read different
  colours, neither black, and let the current colour be the one \<open>b\<close> reads, \<open>b\<close>'s
  renderer having an object with event handlers at that colour. Run alone, \<open>b\<close>
  dispatches nothing. A call on \<open>a\<close> first makes \<open>a\<close>'s colour the current one and the
  old current one the previous; \<open>b\<close> then sees a change and dispatches the leave
  events of whatever its own renderer has at \<open>a\<close>'s colour and the enter events of its
  object: what \<open>b\<close> dispatches depends on the call made on \<open>a\<close>.
\<close>

theorem picking_state_is_shared:
  assumes a: "\<not> buttonHeld a" "NOTBLACK (pickedColor a)"
    and b: "\<not> buttonHeld b" "NOTBLACK (pickedColor b)"
    and ne: "pickedColor a \<noteq> pickedColor b"
    and g: "currPickingColor g = pickedColor b"
    and ob: "getPickingObjectArr b (pickedColor b) = Some ob" "hasRendererEvents ob"
  shows "currPickingColor (snd (entityPickingEvents a g)) = pickedColor a
    \<and> prevPickingColor (snd (entityPickingEvents a g)) = currPickingColor g
    \<and> dispatched (fst (entityPickingEvents b g)) = dispatched b
    \<and> dispatched (fst (entityPickingEvents b (snd (entityPickingEvents a g)))) =
        dispatched b @
          (case getPickingObjectArr b (pickedColor a) of
             Some po \<Rightarrow> if hasRendererEvents po
                        then [(objId po, mouseleave), (objId po, touchleave)] else []
           | None \<Rightarrow> [])
          @ [(objId ob, mouseenter), (objId ob, touchenter)]
    \<and> dispatched (fst (entityPickingEvents b (snd (entityPickingEvents a g)))) \<noteq>
        dispatched (fst (entityPickingEvents b g))"
proof -
  note sa = entityPickingEvents_seen [OF a, of g]
  have c: "currPickingColor (snd (entityPickingEvents a g)) = pickedColor a"
    and p: "prevPickingColor (snd (entityPickingEvents a g)) = currPickingColor g"
    by (simp_all add: sa(1))
  have alone: "dispatched (fst (entityPickingEvents b g)) = dispatched b"
    by (simp add: entityPickingEvents_seen(2) [OF b] g)
  have after: "dispatched (fst (entityPickingEvents b (snd (entityPickingEvents a g)))) =
        dispatched b @
          (case getPickingObjectArr b (pickedColor a) of
             Some po \<Rightarrow> if hasRendererEvents po
                        then [(objId po, mouseleave), (objId po, touchleave)] else []
           | None \<Rightarrow> [])
          @ [(objId ob, mouseenter), (objId ob, touchenter)]"
    using ne a(2) by (simp add: entityPickingEvents_seen(2) [OF b] c ob)
  have "dispatched (fst (entityPickingEvents b (snd (entityPickingEvents a g)))) \<noteq>
        dispatched (fst (entityPickingEvents b g))"
    unfolding after alone by simp
  then show ?thesis using c p alone after by blast
qed

theorem picking_state_is_shared_witness:
  "let a = idleInstance (1, 0, 0) (\<lambda>_. None);
       b = idleInstance (2, 0, 0)
             (\<lambda>c. if c = (2, 0, 0) then Some \<lparr>objId = 7, hasRendererEvents = True\<rparr> else None);
       g = initialPicking\<lparr>currPickingColor := (2, 0, 0)\<rparr>
   in \<not> buttonHeld a \<and> NOTBLACK (pickedColor a) \<and> \<not> buttonHeld b \<and> NOTBLACK (pickedColor b)
    \<and> pickedColor a \<noteq> pickedColor b \<and> currPickingColor g = pickedColor b
    \<and> getPickingObjectArr b (pickedColor b) = Some \<lparr>objId = 7, hasRendererEvents = True\<rparr>
    \<and> currPickingColor (snd (entityPickingEvents a g)) = (1, 0, 0)
    \<and> prevPickingColor (snd (entityPickingEvents a g)) = (2, 0, 0)
    \<and> dispatched (fst (entityPickingEvents b g)) = []
    \<and> dispatched (fst (entityPickingEvents b (snd (entityPickingEvents a g)))) =
        [(7, mouseenter), (7, touchenter)]"
proof -
  define a where "a = idleInstance (1, 0, 0) (\<lambda>_. None)"
  define b where "b = idleInstance (2, 0, 0)
             (\<lambda>c. if c = (2, 0, 0) then Some \<lparr>objId = 7, hasRendererEvents = True\<rparr> else None)"
  define g where "g = initialPicking\<lparr>currPickingColor := (2, 0, 0)\<rparr>"
  have h: "\<not> buttonHeld a" "NOTBLACK (pickedColor a)" "\<not> buttonHeld b" "NOTBLACK (pickedColor b)"
    "pickedColor a \<noteq> pickedColor b" "currPickingColor g = pickedColor b"
    "getPickingObjectArr b (pickedColor b) = Some \<lparr>objId = 7, hasRendererEvents = True\<rparr>"
    "hasRendererEvents \<lparr>objId = 7, hasRendererEvents = True\<rparr>"
    by (simp_all add: a_def b_def g_def idleInstance_def buttonHeld_def pickedColor_def
        NOTBLACK_def initialPicking_def)
  have v: "pickedColor a = (1, 0, 0)" "currPickingColor g = (2, 0, 0)" "dispatched b = []"
    "getPickingObjectArr b (1, 0, 0) = None"
    by (simp_all add: a_def b_def g_def idleInstance_def pickedColor_def)
  from picking_state_is_shared [OF h]
  show ?thesis
    unfolding Let_def a_def [symmetric] b_def [symmetric] g_def [symmetric]
    using h by (simp add: v)
qed

end
